(* ===== verification/Prelude.thy ===== *)
theory Prelude
  imports Main "HOL-Library.Char_ord" "HOL-Library.List_Lexorder" "HOL-Library.Sublist"
    "HOL-Library.Word"
begin

text \<open>
  Shared vocabulary of the development: C strings, the functions of the C standard library that
  the program calls (string search, number formatting and parsing, bounded printing), and the
  generic lemmas the component theories rest on.

  A \<open>char\<close> of HOL is one byte, so a \<open>string\<close> is a byte sequence. A \<open>char *\<close> that may be
  NULL is a \<open>string option\<close>. A pointer into a string is the suffix that starts at it; the
  difference of two such pointers is the difference of the lengths of the suffixes.
\<close>

section \<open>Collections of facts\<close>

named_theorems cstring_simps \<open>search and pointer arithmetic on C strings\<close>
named_theorems fmt_simps \<open>printf-style formatting\<close>

section \<open>Bytes and C strings\<close>

abbreviation NUL :: char where "NUL \<equiv> CHR 0x00"
abbreviation BACKSLASH :: char where "BACKSLASH \<equiv> CHR 0x5C"
abbreviation DQUOTE :: char where "DQUOTE \<equiv> CHR 0x22"
abbreviation SQUOTE :: char where "SQUOTE \<equiv> CHR 0x27"
abbreviation LF :: char where "LF \<equiv> CHR 0x0A"
abbreviation CR :: char where "CR \<equiv> CHR 0x0D"
abbreviation TAB :: char where "TAB \<equiv> CHR 0x09"

text \<open>The C view of a byte buffer: everything before the first NUL byte.\<close>

definition c_str :: "string \<Rightarrow> string" where
  "c_str s = takeWhile (\<lambda>c. c \<noteq> NUL) s"

lemma c_str_id [cstring_simps]: "NUL \<notin> set s \<Longrightarrow> c_str s = s"
  by (auto simp: c_str_def takeWhile_eq_all_conv)

lemma NUL_notin_c_str [simp]: "NUL \<notin> set (c_str s)"
  by (auto simp: c_str_def dest: set_takeWhileD)

text \<open>\<open>snprintf(buf, n, "%s", s)\<close> keeps the first \<open>n - 1\<close> bytes.\<close>

definition snprintf_buf :: "nat \<Rightarrow> string \<Rightarrow> string" where
  "snprintf_buf n s = take (n - 1) s"

lemma length_snprintf_buf: "0 < n \<Longrightarrow> length (snprintf_buf n s) < n"
  by (auto simp: snprintf_buf_def)

lemma snprintf_buf_fits [cstring_simps]: "length s < n \<Longrightarrow> snprintf_buf n s = s"
  by (simp add: snprintf_buf_def)

lemma snprintf_buf_idem: "snprintf_buf n (snprintf_buf n s) = snprintf_buf n s"
  by (simp add: snprintf_buf_def)

section \<open>String search\<close>

text \<open>\<open>strchr\<close>: the suffix that starts at the first occurrence of a byte.\<close>

fun strchr :: "string \<Rightarrow> char \<Rightarrow> string option" where
  "strchr [] c = None"
| "strchr (x # xs) c = (if x = c then Some (x # xs) else strchr xs c)"

text \<open>\<open>strrchr\<close>: the suffix that starts at the last occurrence of a byte.\<close>

fun strrchr :: "string \<Rightarrow> char \<Rightarrow> string option" where
  "strrchr [] c = None"
| "strrchr (x # xs) c =
     (case strrchr xs c of Some r \<Rightarrow> Some r
      | None \<Rightarrow> if x = c then Some (x # xs) else None)"

text \<open>\<open>strstr\<close>: the suffix that starts at the first occurrence of a pattern.\<close>

fun strstr :: "string \<Rightarrow> string \<Rightarrow> string option" where
  "strstr [] pat = (if pat = [] then Some [] else None)"
| "strstr (x # xs) pat = (if prefix pat (x # xs) then Some (x # xs) else strstr xs pat)"

text \<open>
  \<open>before s r\<close> is the text between a string and a pointer \<open>r\<close> into it, what
  \<open>memcpy(dst, s, r - s)\<close> copies.
\<close>

definition before :: "string \<Rightarrow> string \<Rightarrow> string" where
  "before s r = take (length s - length r) s"

lemma before_append [cstring_simps]: "before (p @ r) r = p"
  by (simp add: before_def)

lemma strchr_None_iff [cstring_simps]: "strchr s c = None \<longleftrightarrow> c \<notin> set s"
  by (induction s) auto

lemma strchr_SomeD: "strchr s c = Some r \<Longrightarrow> \<exists>p r'. s = p @ r \<and> r = c # r' \<and> c \<notin> set p"
proof (induction s)
  case (Cons x xs)
  show ?case
  proof (cases "x = c")
    case True
    with Cons.prems show ?thesis by (auto intro: exI[of _ "[]"])
  next
    case False
    with Cons obtain p r' where "xs = p @ r" "r = c # r'" "c \<notin> set p" by auto
    with False show ?thesis by (auto intro: exI[of _ "x # p"])
  qed
qed simp

lemma strchr_first [cstring_simps]: "c \<notin> set p \<Longrightarrow> strchr (p @ c # r) c = Some (c # r)"
  by (induction p) auto

lemma strrchr_None_iff [cstring_simps]: "strrchr s c = None \<longleftrightarrow> c \<notin> set s"
  by (induction s) (auto split: option.splits)

lemma strrchr_last [cstring_simps]: "c \<notin> set r \<Longrightarrow> strrchr (p @ c # r) c = Some (c # r)"
proof (induction p)
  case Nil
  then have "strrchr r c = None" by (simp add: strrchr_None_iff)
  then show ?case by simp
qed simp

lemma strrchr_SomeD: "strrchr s c = Some r \<Longrightarrow> \<exists>p r'. s = p @ r \<and> r = c # r' \<and> c \<notin> set r'"
proof (induction s)
  case (Cons x xs)
  show ?case
  proof (cases "strrchr xs c")
    case None
    with Cons.prems have "x = c" "r = x # xs" "c \<notin> set xs"
      by (auto simp: strrchr_None_iff split: if_splits)
    then show ?thesis by (auto intro: exI[of _ "[]"])
  next
    case (Some r0)
    with Cons obtain p r' where "xs = p @ r" "r = c # r'" "c \<notin> set r'" by auto
    then show ?thesis by (auto intro: exI[of _ "x # p"])
  qed
qed simp

lemma strstr_SomeD: "strstr s pat = Some r \<Longrightarrow> \<exists>p. s = p @ r \<and> prefix pat r"
proof (induction s)
  case Nil
  then show ?case by (auto split: if_splits)
next
  case (Cons x xs)
  show ?case
  proof (cases "prefix pat (x # xs)")
    case True
    with Cons.prems show ?thesis by (auto intro: exI[of _ "[]"])
  next
    case False
    with Cons obtain p where "xs = p @ r" "prefix pat r" by auto
    then show ?thesis by (auto intro: exI[of _ "x # p"])
  qed
qed

lemma strstr_None_iff [cstring_simps]: "strstr s pat = None \<longleftrightarrow> \<not> sublist pat s"
proof (induction s)
  case (Cons x xs)
  then show ?case by (auto simp: sublist_Cons_right)
qed simp

lemma strstr_Some_iff_sublist: "(\<exists>r. strstr s pat = Some r) \<longleftrightarrow> sublist pat s"
  using strstr_None_iff[of s pat] by (cases "strstr s pat") auto

lemma strstr_length: "strstr s pat = Some r \<Longrightarrow> length r \<le> length s"
  by (drule strstr_SomeD) auto

lemma strstr_prefix: "prefix pat s \<Longrightarrow> strstr s pat = Some s"
  by (cases s) auto

lemma strstr_earliest: "\<exists>r. strstr (u @ pat @ w) pat = Some r \<and> length (pat @ w) \<le> length r"
proof (induction u)
  case Nil
  then show ?case by (simp add: strstr_prefix)
next
  case (Cons x u)
  then show ?case by auto
qed

text \<open>
  The pattern is found right after a prefix in which its first byte does not occur.
\<close>

lemma strstr_skip [cstring_simps]:
  "c \<notin> set p \<Longrightarrow> strstr (p @ r) (c # pat) = strstr r (c # pat)"
  by (induction p) auto

text \<open>
  A pattern whose first byte does not come back in it is found at its first occurrence, whatever
  stands before: no earlier match can overlap it.
\<close>

lemma strstr_at:
  assumes "c \<notin> set pat"
  shows "\<not> sublist (c # pat) p \<Longrightarrow> strstr (p @ (c # pat) @ r) (c # pat) = Some ((c # pat) @ r)"
proof (induction p)
  case Nil
  then show ?case by (simp add: strstr_prefix)
next
  case (Cons x p)
  have "\<not> prefix (c # pat) (x # p @ (c # pat) @ r)"
  proof
    assume pre: "prefix (c # pat) (x # p @ (c # pat) @ r)"
    show False
    proof (cases "length (c # pat) \<le> length (x # p)")
      case True
      with pre have "prefix (c # pat) (x # p)"
        by (metis append_Cons prefix_length_prefix prefixI)
      with Cons.prems show False by (simp add: prefix_imp_sublist)
    next
      case False
      have "prefix (x # p) (c # pat)"
        using pre False by (metis append_Cons linear prefixI prefix_length_prefix nat_le_linear)
      then obtain s where s: "c # pat = (x # p) @ s" "s \<noteq> []"
        using False by (auto simp: prefix_def)
      with pre have "prefix s ((c # pat) @ r)" by simp
      with s have "hd s = c" by (cases s) auto
      with s assms show False by (cases s) auto
    qed
  qed
  with Cons show ?case by (auto simp: sublist_Cons_right)
qed

text \<open>A byte that the pattern lacks separates the places where it can be.\<close>

lemma prefix_separated: "q \<notin> set pat \<Longrightarrow> prefix pat (a @ q # b) \<longleftrightarrow> prefix pat a"
  by (induction a arbitrary: pat) (auto simp: prefix_Cons)

lemma strstr_separated:
  "q \<notin> set pat \<Longrightarrow> pat \<noteq> [] \<Longrightarrow>
    strstr (a @ q # b) pat = None \<longleftrightarrow> strstr a pat = None \<and> strstr b pat = None"
proof (induction a)
  case Nil
  then show ?case by (cases pat) auto
next
  case (Cons x a)
  then show ?case using prefix_separated[of q pat "x # a" b] by auto
qed

section \<open>Character classes and numbers\<close>

definition isspace :: "char \<Rightarrow> bool" where
  "isspace c \<longleftrightarrow> c = CHR '' '' \<or> c = TAB \<or> c = LF \<or> c = CHR 0x0B \<or> c = CHR 0x0C \<or> c = CR"

definition blank :: "char \<Rightarrow> bool" where
  "blank c \<longleftrightarrow> c = CHR '' '' \<or> c = TAB"

definition isdigit :: "char \<Rightarrow> bool" where
  "isdigit c \<longleftrightarrow> CHR ''0'' \<le> c \<and> c \<le> CHR ''9''"

definition digit_char :: "nat \<Rightarrow> char" where
  "digit_char d = char_of (48 + d)"

definition digit_val :: "char \<Rightarrow> int" where
  "digit_val c = int (of_char c) - 48"

text \<open>The digits printed by \<open>%d\<close>, \<open>%ld\<close> and \<open>%lu\<close>.\<close>

fun dec_nat :: "nat \<Rightarrow> string" where
  "dec_nat n = (if n < 10 then [digit_char n] else dec_nat (n div 10) @ [digit_char (n mod 10)])"

declare dec_nat.simps [simp del]

definition dec_int :: "int \<Rightarrow> string" where
  "dec_int i = (if i < 0 then CHR ''-'' # dec_nat (nat (- i)) else dec_nat (nat i))"

lemma isdigit_digit_char: "d < 10 \<Longrightarrow> isdigit (digit_char d)"
  by (simp add: isdigit_def digit_char_def less_eq_char_def of_char_of)

lemma digit_val_digit_char: "d < 10 \<Longrightarrow> digit_val (digit_char d) = int d"
  by (simp add: digit_val_def digit_char_def of_char_of)

lemma dec_nat_digits: "c \<in> set (dec_nat n) \<Longrightarrow> isdigit c"
proof (induction n rule: dec_nat.induct)
  case (1 n)
  then show ?case
    by (subst (asm) (2) dec_nat.simps) (auto simp: isdigit_digit_char split: if_splits)
qed

lemma dec_nat_nonempty [simp]: "dec_nat n \<noteq> []"
  by (subst dec_nat.simps) simp

lemma length_dec_nat: "0 < k \<Longrightarrow> n < 10 ^ k \<Longrightarrow> length (dec_nat n) \<le> k"
proof (induction k arbitrary: n)
  case (Suc k)
  show ?case
  proof (cases "n < 10")
    case True
    then show ?thesis by (subst dec_nat.simps) simp
  next
    case False
    with Suc.prems have "n div 10 < 10 ^ k" "0 < k" by (auto simp: less_mult_imp_div_less intro: gr0I)
    with Suc.IH[of "n div 10"] False show ?thesis by (subst dec_nat.simps) simp
  qed
qed simp

text \<open>
  \<open>atoi\<close> as the GNU C library computes it: \<open>(int) strtol(s, NULL, 10)\<close>, which skips white
  space, takes an optional sign, saturates at the 64-bit range and is then cut to 32 bits.
\<close>

definition digits_val :: "string \<Rightarrow> int" where
  "digits_val ds = foldl (\<lambda>a c. 10 * a + digit_val c) 0 ds"

definition strtol10 :: "string \<Rightarrow> int" where
  "strtol10 s =
     (let s1 = dropWhile isspace s;
          neg = (s1 \<noteq> [] \<and> hd s1 = CHR ''-'');
          s2 = (if s1 \<noteq> [] \<and> (hd s1 = CHR ''-'' \<or> hd s1 = CHR ''+'') then tl s1 else s1);
          v = digits_val (takeWhile isdigit s2)
      in max (- (2 ^ 63)) (min (2 ^ 63 - 1) (if neg then - v else v)))"

definition atoi :: "string \<Rightarrow> int" where
  "atoi s = signed_take_bit 31 (strtol10 s)"

lemma digits_val_append: "digits_val (xs @ [c]) = 10 * digits_val xs + digit_val c"
  by (simp add: digits_val_def)

lemma digits_val_dec_nat: "digits_val (dec_nat n) = int n"
proof (induction n rule: dec_nat.induct)
  case (1 n)
  show ?case
  proof (cases "n < 10")
    case True
    then show ?thesis
      by (subst dec_nat.simps) (simp add: digits_val_def digit_val_digit_char)
  next
    case False
    with 1 have "digits_val (dec_nat (n div 10)) = int (n div 10)" by simp
    with False have "digits_val (dec_nat n) = 10 * int (n div 10) + int (n mod 10)"
      by (subst dec_nat.simps) (simp add: digits_val_append digit_val_digit_char)
    also have "\<dots> = int (10 * (n div 10) + n mod 10)"
      by (simp only: of_nat_add of_nat_mult of_nat_numeral)
    also have "10 * (n div 10) + n mod 10 = n" by simp
    finally show ?thesis .
  qed
qed

lemma isdigit_not_space: "isdigit c \<Longrightarrow> \<not> isspace c"
  by (auto simp: isdigit_def isspace_def)

lemma isdigit_not_sign: "isdigit c \<Longrightarrow> c \<noteq> CHR ''-'' \<and> c \<noteq> CHR ''+''"
  by (auto simp: isdigit_def)

lemma signed_take_bit_31_id:
  "- (2 ^ 31) \<le> (i::int) \<Longrightarrow> i < 2 ^ 31 \<Longrightarrow> signed_take_bit 31 i = i"
  by (simp add: signed_take_bit_int_eq_self)

text \<open>Printing a non-negative \<open>int\<close> and reading it back is the identity.\<close>

lemma atoi_dec_nat: "n < 2 ^ 31 \<Longrightarrow> atoi (dec_nat n) = int n"
proof -
  assume n: "n < 2 ^ 31"
  obtain c cs where ds: "dec_nat n = c # cs" by (cases "dec_nat n") auto
  have all: "\<forall>x\<in>set (dec_nat n). isdigit x" by (blast intro: dec_nat_digits)
  with ds have c: "\<not> isspace c" "c \<noteq> CHR ''-''" "c \<noteq> CHR ''+''"
    by (auto dest: isdigit_not_space isdigit_not_sign)
  from all have tw: "takeWhile isdigit (dec_nat n) = dec_nat n"
    by (simp add: takeWhile_eq_all_conv)
  have "strtol10 (dec_nat n) = max (- (2 ^ 63)) (min (2 ^ 63 - 1) (digits_val (dec_nat n)))"
    using c tw by (simp add: strtol10_def Let_def ds)
  also have "\<dots> = int n" using n by (simp add: digits_val_dec_nat)
  finally have "strtol10 (dec_nat n) = int n" .
  moreover have "signed_take_bit 31 (int n) = int n"
    using n by (intro signed_take_bit_31_id) auto
  ultimately show ?thesis by (simp add: atoi_def)
qed

section \<open>printf-style formatting\<close>

text \<open>
  \<open>fmt f args\<close> expands a format string: \<open>%%\<close> is a percent sign, any other directive of the
  program (\<open>%s\<close>, \<open>%d\<close>, \<open>%lu\<close>, \<open>%ld\<close>) consumes the next argument, which is already text
  (numbers are passed through \<open>dec_int\<close> or \<open>dec_nat\<close>).
\<close>

definition first_arg :: "string list \<Rightarrow> string" where
  "first_arg as = (case as of [] \<Rightarrow> [] | x # _ \<Rightarrow> x)"

fun fmt :: "string \<Rightarrow> string list \<Rightarrow> string" where
  "fmt [] as = []"
| "fmt [c] as = [c]"
| "fmt (c # d # r) as =
     (if c = CHR ''%'' then
        (if d = CHR ''%'' then d # fmt r as
         else first_arg as @ fmt (if d = CHR ''l'' then tl r else r) (tl as))
      else c # fmt (d # r) as)"

lemma first_arg_Cons [simp]: "first_arg (x # xs) = x"
  by (simp add: first_arg_def)

lemma fmt_Cons_plain: "c \<noteq> CHR ''%'' \<Longrightarrow> fmt (c # f) as = c # fmt f as"
  by (cases f) auto

lemma fmt_plain [fmt_simps]: "CHR ''%'' \<notin> set f \<Longrightarrow> fmt (f @ g) as = f @ fmt g as"
  by (induction f) (auto simp: fmt_Cons_plain)

lemma fmt_no_directive [fmt_simps]: "CHR ''%'' \<notin> set f \<Longrightarrow> fmt f as = f"
  using fmt_plain[of f "[]" as] by simp

text \<open>
  What a filter keeps of a formatted text depends on the arguments only through what it keeps of
  each of them.
\<close>

lemma filter_first_arg_cong:
  "map (filter P) as = map (filter P) bs \<Longrightarrow> filter P (first_arg as) = filter P (first_arg bs)"
  by (cases as; cases bs) (auto simp: first_arg_def)

lemma filter_fmt_cong:
  "map (filter P) as = map (filter P) bs \<Longrightarrow> filter P (fmt f as) = filter P (fmt f bs)"
proof (induction f as arbitrary: bs rule: fmt.induct)
  case (3 c d r as)
  have tl: "map (filter P) (tl as) = map (filter P) (tl bs)"
    using "3.prems" by (metis map_tl)
  show ?case
  proof (cases "c = CHR ''%''")
    case False
    with "3.IH"(3)[OF False "3.prems"] show ?thesis by simp
  next
    case c: True
    show ?thesis
    proof (cases "d = CHR ''%''")
      case True
      with c "3.IH"(1)[OF c True "3.prems"] show ?thesis by simp
    next
      case False
      with c "3.IH"(2)[OF c False tl] filter_first_arg_cong[OF "3.prems"] show ?thesis
        by simp
    qed
  qed
qed auto

section \<open>Lists\<close>

lemma takeWhile_eq_Nil_iff': "takeWhile P xs = [] \<longleftrightarrow> xs = [] \<or> \<not> P (hd xs)"
  by (cases xs) auto

lemma prefix_length_append: "prefix a b \<Longrightarrow> \<exists>r. b = a @ r"
  by (auto simp: prefix_def)

text \<open>Splitting a text at every occurrence of a byte, as the specifications of the parsers read it.\<close>

fun split_on :: "char \<Rightarrow> string \<Rightarrow> string list" where
  "split_on c [] = [[]]"
| "split_on c (x # xs) =
     (if x = c then [] # split_on c xs
      else (case split_on c xs of [] \<Rightarrow> [[x]] | y # ys \<Rightarrow> (x # y) # ys))"

lemma split_on_nonempty [simp]: "split_on c s \<noteq> []"
  by (induction s) (auto split: list.split)

lemma split_on_no_sep: "c \<notin> set s \<Longrightarrow> split_on c s = [s]"
  by (induction s) auto

lemma split_on_append_sep: "c \<notin> set p \<Longrightarrow> split_on c (p @ c # r) = p # split_on c r"
  by (induction p) auto

end
