(* ===== verification/Escape.thy ===== *)
theory Escape
  imports Prelude
begin

text \<open>
  The contract shared by the three escaping routines of the program: \<open>json_escape\<close> (util.c),
  \<open>html_escape\<close> (html_render.c) and \<open>xml_escape_text\<close> (libvirt_backend.c). Each walks over
  its input and replaces some bytes by a sequence that starts with an introducer byte. The laws
  say that the byte code is prefix free and bounded in width; the facts a caller needs (nothing is
  lost, the buffer is large enough, harmless text is unchanged, no markup byte survives) are
  proved here once and obtained in the component theories by interpretation.
\<close>

locale text_escape =
  fixes esc1 :: "char \<Rightarrow> string"
    and esc :: "string \<Rightarrow> string"
    and special :: "char \<Rightarrow> bool"
    and width :: nat
  assumes esc_Nil: "esc [] = []"
    and esc_Cons: "esc (c # cs) = esc1 c @ esc cs"
    and plain: "\<not> special c \<Longrightarrow> esc1 c = [c]"
    and nonempty: "esc1 c \<noteq> []"
    and code_width: "length (esc1 c) \<le> width"
    and prefix_free: "prefix (esc1 c) (esc1 d) \<Longrightarrow> c = d"
begin

lemma esc_append: "esc (s @ t) = esc s @ esc t"
  by (induction s) (auto simp: esc_Nil esc_Cons)

lemma esc_concat_map: "esc s = concat (map esc1 s)"
  by (induction s) (auto simp: esc_Nil esc_Cons)

lemma length_esc_le: "length (esc s) \<le> width * length s"
proof (induction s)
  case (Cons c s)
  then show ?case using code_width[of c] by (simp add: esc_Cons)
qed (simp add: esc_Nil)

lemma length_le_esc: "length s \<le> length (esc s)"
proof (induction s)
  case (Cons c s)
  then show ?case using nonempty[of c] by (cases "esc1 c") (auto simp: esc_Cons)
qed (simp add: esc_Nil)

lemma esc_harmless: "\<forall>c\<in>set s. \<not> special c \<Longrightarrow> esc s = s"
  by (induction s) (auto simp: esc_Nil esc_Cons plain)

lemma prefix_append_cases:
  assumes "a @ s = b @ t"
  shows "prefix a b \<or> prefix b a"
proof (rule prefix_same_cases)
  show "prefix a (a @ s)" by simp
  show "prefix b (a @ s)" using assms by simp
qed

lemma esc_injective: "esc s = esc t \<Longrightarrow> s = t"
proof (induction s arbitrary: t)
  case Nil
  then show ?case using nonempty by (cases t) (auto simp: esc_Nil esc_Cons)
next
  case (Cons c s)
  then obtain d t' where t: "t = d # t'"
    using nonempty by (cases t) (auto simp: esc_Nil esc_Cons)
  with Cons.prems have eq: "esc1 c @ esc s = esc1 d @ esc t'" by (simp add: esc_Cons)
  then have "c = d" using prefix_append_cases[OF eq] prefix_free by blast
  with eq Cons.IH t show ?case by simp
qed

lemma esc_inject_iff: "esc s = esc t \<longleftrightarrow> s = t"
  using esc_injective by blast

end

text \<open>
  Escapes for markup (HTML text, HTML attribute values, XML text): of the special bytes only the
  introducer \<open>lead\<close> occurs in the output, so the output holds no tag and no quote.
\<close>

locale markup_escape = text_escape +
  fixes lead :: char
  assumes clean: "special c \<Longrightarrow> special d \<Longrightarrow> d \<in> set (esc1 c) \<Longrightarrow> d = lead"
begin

lemma esc_clean: "special d \<Longrightarrow> d \<noteq> lead \<Longrightarrow> d \<notin> set (esc s)"
proof (induction s)
  case (Cons c s)
  then show ?case
    by (cases "special c") (auto simp: esc_Cons plain dest: clean)
qed (simp add: esc_Nil)

text \<open>The bytes of a predicate on non-introducer special bytes: none is left.\<close>

lemma filter_esc_empty:
  assumes "\<And>c. P c \<Longrightarrow> special c \<and> c \<noteq> lead"
  shows "filter P (esc s) = []"
  using assms esc_clean by (auto simp: filter_empty_conv)

end

end
