(* ===== verification/Util.thy ===== *)
theory Util
  imports Escape
begin

text \<open>
  src/util.c: NULL-safe string comparison, URL decoding, path segments, base64 decoding and JSON
  escaping. The logging functions only write to stderr and are not modelled; \<open>str_dup\<close> and
  \<open>str_fmt\<close> allocate a copy, which the value semantics of HOL gives for free.
\<close>

section \<open>String comparison\<close>

fun str_eq :: "string option \<Rightarrow> string option \<Rightarrow> bool" where
  "str_eq None None = True"
| "str_eq (Some a) (Some b) = (a = b)"
| "str_eq _ _ = False"

fun str_starts_with :: "string option \<Rightarrow> string option \<Rightarrow> bool" where
  "str_starts_with (Some s) (Some p) = (take (length p) s = p)"
| "str_starts_with _ _ = False"

lemma str_eq_iff [simp]: "str_eq a b \<longleftrightarrow> a = b"
  by (cases a; cases b) auto

lemma str_starts_with_iff: "str_starts_with (Some s) (Some p) \<longleftrightarrow> prefix p s"
  by (auto simp: prefix_def) (metis append_take_drop_id)

section \<open>URL decoding\<close>

definition hex_digit :: "char \<Rightarrow> int" where
  "hex_digit c =
     (if CHR ''0'' \<le> c \<and> c \<le> CHR ''9'' then int (of_char c) - int (of_char CHR ''0'')
      else if CHR ''a'' \<le> c \<and> c \<le> CHR ''f'' then int (of_char c) - int (of_char CHR ''a'') + 10
      else if CHR ''A'' \<le> c \<and> c \<le> CHR ''F'' then int (of_char c) - int (of_char CHR ''A'') + 10
      else - 1)"

text \<open>
  The loop of \<open>url_decode\<close>, on the rest of the input: a percent sign is decoded only when two
  more bytes follow and both are hexadecimal digits.
\<close>

fun url_decode :: "string \<Rightarrow> string" where
  "url_decode [] = []"
| "url_decode (c # r) =
     (if c = CHR ''%'' \<and> 2 \<le> length r \<and> 0 \<le> hex_digit (r ! 0) \<and> 0 \<le> hex_digit (r ! 1)
      then char_of (nat (hex_digit (r ! 0) * 16 + hex_digit (r ! 1))) # url_decode (drop 2 r)
      else if c = CHR ''+'' then CHR '' '' # url_decode r
      else c # url_decode r)"

lemma url_decode_plain: "c \<noteq> CHR ''%'' \<Longrightarrow> c \<noteq> CHR ''+'' \<Longrightarrow> url_decode (c # r) = c # url_decode r"
  by simp

lemma url_decode_hex:
  "0 \<le> hex_digit h \<Longrightarrow> 0 \<le> hex_digit l \<Longrightarrow>
   url_decode (CHR ''%'' # h # l # r) = char_of (nat (hex_digit h * 16 + hex_digit l)) # url_decode r"
  by simp

declare url_decode.simps(2) [simp del]

lemma length_url_decode_le: "length (url_decode s) \<le> length s"
proof (induction s rule: url_decode.induct)
  case (2 c r)
  then show ?case by (subst url_decode.simps) auto
qed simp

lemma hex_digit_bounds: "- 1 \<le> hex_digit c \<and> hex_digit c < 16"
  by (auto simp: hex_digit_def less_eq_char_def)

section \<open>Path segments\<close>

text \<open>
  The loop of \<open>path_segment\<close>: \<open>p\<close> is the pointer into the URL, \<open>seg\<close> the number of the
  segment that starts there.
\<close>

function path_segment_loop :: "string \<Rightarrow> int \<Rightarrow> int \<Rightarrow> string option" where
  "path_segment_loop p seg index =
     (if p = [] then None
      else
        (let e = (case strchr p (CHR ''/'') of None \<Rightarrow> [] | Some e \<Rightarrow> e) in
         if seg = index then
           (if before p e = [] then None else Some (before p e))
         else path_segment_loop (if e \<noteq> [] then tl e else e) (seg + 1) index))"
  by pat_completeness auto
termination
  by (relation "measure (\<lambda>(p, seg, index). length p)")
    (auto dest!: strchr_SomeD split: option.splits)

declare path_segment_loop.simps [simp del]

definition path_segment :: "string option \<Rightarrow> int \<Rightarrow> string option" where
  "path_segment url index =
     (case url of None \<Rightarrow> None
      | Some u \<Rightarrow>
          if index < 0 then None
          else path_segment_loop (if u \<noteq> [] \<and> hd u = CHR ''/'' then tl u else u) 0 index)"

text \<open>The segments of a path, read off declaratively: split at slashes, drop one leading slash.\<close>

definition path_segments :: "string \<Rightarrow> string list" where
  "path_segments u = split_on (CHR ''/'') (if u \<noteq> [] \<and> hd u = CHR ''/'' then tl u else u)"

definition nth_nonempty :: "string list \<Rightarrow> nat \<Rightarrow> string option" where
  "nth_nonempty ss i = (if i < length ss \<and> ss ! i \<noteq> [] then Some (ss ! i) else None)"

lemma split_on_SomeD:
  "strchr p c = Some e \<Longrightarrow> split_on c p = before p e # split_on c (tl e)"
  by (drule strchr_SomeD) (auto simp: split_on_append_sep before_def)

lemma path_segment_loop_split:
  "seg \<le> index \<Longrightarrow>
   path_segment_loop p seg index = nth_nonempty (split_on (CHR ''/'') p) (nat (index - seg))"
proof (induction p seg index rule: path_segment_loop.induct)
  case (1 p seg index)
  show ?case
  proof (cases "p = []")
    case True
    then show ?thesis by (subst path_segment_loop.simps) (auto simp: nth_nonempty_def)
  next
    case p: False
    show ?thesis
    proof (cases "strchr p (CHR ''/'')")
      case None
      then have sp: "split_on (CHR ''/'') p = [p]"
        by (intro split_on_no_sep) (simp add: strchr_None_iff)
      have "path_segment_loop [] (seg + 1) index = None"
        by (subst path_segment_loop.simps) simp
      with p None sp "1.prems" show ?thesis
        by (subst path_segment_loop.simps) (auto simp: nth_nonempty_def before_def)
    next
      case (Some e)
      then have e: "e \<noteq> []" by (auto dest: strchr_SomeD)
      have sp: "split_on (CHR ''/'') p = before p e # split_on (CHR ''/'') (tl e)"
        using Some by (rule split_on_SomeD)
      show ?thesis
      proof (cases "seg = index")
        case True
        with p Some show ?thesis
          by (subst path_segment_loop.simps) (auto simp: nth_nonempty_def sp)
      next
        case False
        with "1.prems" have lt: "seg + 1 \<le> index" by simp
        then obtain k where k: "nat (index - seg) = Suc k" "nat (index - (seg + 1)) = k"
          by (metis (no_types, opaque_lifting) Suc_nat_eq_nat_zadd1 add.commute add_diff_cancel_left'
              add_le_cancel_left diff_add_cancel diff_diff_eq diff_ge_0_iff_ge)
        have "path_segment_loop p seg index = path_segment_loop (tl e) (seg + 1) index"
          using p Some e False by (subst path_segment_loop.simps) simp
        also have "\<dots> = nth_nonempty (split_on (CHR ''/'') (tl e)) k"
          using "1.IH"[OF p refl False] lt Some e k by simp
        also have "\<dots> = nth_nonempty (split_on (CHR ''/'') p) (nat (index - seg))"
          by (simp add: sp k nth_nonempty_def)
        finally show ?thesis .
      qed
    qed
  qed
qed

lemma path_segment_eq_split:
  "path_segment (Some u) i = (if i < 0 then None else nth_nonempty (path_segments u) (nat i))"
  by (simp add: path_segment_def path_segments_def path_segment_loop_split)

section \<open>Base64 decoding\<close>

text \<open>
  \<open>b64_table\<close>: the value of each base64 digit; every other byte has the entry 0, as the
  initialiser of the C array leaves it.
\<close>

definition b64_table :: "char \<Rightarrow> nat" where
  "b64_table c =
     (let n = of_char c :: nat in
      if CHR ''A'' \<le> c \<and> c \<le> CHR ''Z'' then n - 65
      else if CHR ''a'' \<le> c \<and> c \<le> CHR ''z'' then n - 97 + 26
      else if CHR ''0'' \<le> c \<and> c \<le> CHR ''9'' then n - 48 + 52
      else if c = CHR ''+'' then 62
      else if c = CHR ''/'' then 63
      else 0)"

definition b64_skipped :: "char \<Rightarrow> bool" where
  "b64_skipped c \<longleftrightarrow> c = CHR ''='' \<or> c = LF \<or> c = CR \<or> c = CHR '' ''"

text \<open>
  The loop of \<open>base64_decode\<close>: \<open>buf\<close> is the 32-bit shift register, from which bits are lost
  at the top, \<open>bits\<close> the number of bits not yet written.
\<close>

fun base64_loop :: "string \<Rightarrow> 32 word \<Rightarrow> nat \<Rightarrow> string" where
  "base64_loop [] buf bits = []"
| "base64_loop (c # cs) buf bits =
     (if b64_skipped c then base64_loop cs buf bits
      else
        (let buf1 = or (push_bit 6 buf) (word_of_nat (b64_table c)); bits1 = bits + 6 in
         if 8 \<le> bits1
         then char_of (unat (and (drop_bit (bits1 - 8) buf1) 0xFF))
                # base64_loop cs buf1 (bits1 - 8)
         else base64_loop cs buf1 bits1))"

text \<open>The decoded bytes; \<open>*out_len\<close> is their number, a NUL byte follows them.\<close>

definition base64_decode :: "string \<Rightarrow> string" where
  "base64_decode src = base64_loop src 0 0"

definition base64_alloc :: "string \<Rightarrow> nat" where
  "base64_alloc src = (length src div 4) * 3 + 4"

text \<open>One step of the shift register.\<close>

definition b64_step :: "32 word \<Rightarrow> nat \<Rightarrow> 32 word" where
  "b64_step buf v = or (push_bit 6 buf) (word_of_nat v)"

definition b64_byte :: "32 word \<Rightarrow> nat \<Rightarrow> char" where
  "b64_byte buf k = char_of (unat (and (drop_bit k buf) 0xFF))"

lemma base64_loop_skip: "b64_skipped c \<Longrightarrow> base64_loop (c # cs) buf bits = base64_loop cs buf bits"
  by simp

lemma base64_loop_shift:
  "\<not> b64_skipped c \<Longrightarrow> bits < 2 \<Longrightarrow>
   base64_loop (c # cs) buf bits = base64_loop cs (b64_step buf (b64_table c)) (bits + 6)"
  by (simp add: b64_step_def Let_def)

lemma base64_loop_emit:
  "\<not> b64_skipped c \<Longrightarrow> 2 \<le> bits \<Longrightarrow>
   base64_loop (c # cs) buf bits =
     b64_byte (b64_step buf (b64_table c)) (bits - 2)
       # base64_loop cs (b64_step buf (b64_table c)) (bits - 2)"
  by (simp add: b64_step_def b64_byte_def Let_def)

declare base64_loop.simps(2) [simp del]

lemma length_base64_loop: "8 * length (base64_loop s buf bits) \<le> bits + 6 * length s"
proof (induction s arbitrary: buf bits)
  case (Cons c cs)
  consider "b64_skipped c" | "\<not> b64_skipped c" "bits < 2" | "\<not> b64_skipped c" "2 \<le> bits"
    by linarith
  then show ?case
  proof cases
    case 1
    then show ?thesis using Cons.IH[of buf bits] by (simp add: base64_loop_skip)
  next
    case 2
    then show ?thesis using Cons.IH[of "b64_step buf (b64_table c)" "bits + 6"]
      by (simp add: base64_loop_shift)
  next
    case 3
    then show ?thesis using Cons.IH[of "b64_step buf (b64_table c)" "bits - 2"]
      by (simp add: base64_loop_emit)
  qed
qed simp

lemma base64_fits: "length (base64_decode s) + 1 \<le> base64_alloc s"
  using length_base64_loop[of s 0 0] by (simp add: base64_decode_def base64_alloc_def)

text \<open>The encoder of RFC 4648, section 4, as the reference.\<close>

definition b64_digit :: "nat \<Rightarrow> char" where
  "b64_digit v =
     (if v < 26 then char_of (65 + v)
      else if v < 52 then char_of (97 + (v - 26))
      else if v < 62 then char_of (48 + (v - 52))
      else if v = 62 then CHR ''+'' else CHR ''/'')"

fun base64_encode :: "string \<Rightarrow> string" where
  "base64_encode [] = []"
| "base64_encode [a] =
     (let x = of_char a in
      [b64_digit (x div 4), b64_digit (x mod 4 * 16), CHR ''='', CHR ''=''])"
| "base64_encode [a, b] =
     (let x = of_char a; y = of_char b in
      [b64_digit (x div 4), b64_digit (x mod 4 * 16 + y div 16), b64_digit (y mod 16 * 4),
       CHR ''=''])"
| "base64_encode (a # b # c # r) =
     (let x = of_char a; y = of_char b; z = of_char c in
      b64_digit (x div 4) # b64_digit (x mod 4 * 16 + y div 16)
        # b64_digit (y mod 16 * 4 + z div 64) # b64_digit (z mod 64) # base64_encode r)"

lemma b64_table_digit: "v < 64 \<Longrightarrow> b64_table (b64_digit v) = v"
  by (auto simp: b64_digit_def b64_table_def Let_def less_eq_char_def)

lemma b64_digit_not_skipped: "v < 64 \<Longrightarrow> \<not> b64_skipped (b64_digit v)"
  by (auto simp: b64_digit_def b64_skipped_def char_of_eq_iff take_bit_eq_mod)

text \<open>The arithmetic of the shift register: multiplication by 64 modulo \<open>2 ^ 32\<close>.\<close>

lemma mul64_mod: "(u * 64) mod 2 ^ 32 = 64 * (u mod 2 ^ 26 :: nat)"
  using mult_mod_right[of 64 u "2 ^ 26"] by (simp add: mult.commute)

lemma mul64_bound: "v < (64::nat) \<Longrightarrow> (u * 64) mod 2 ^ 32 + v < 2 ^ 32"
proof -
  assume "v < 64"
  moreover have "u mod 2 ^ 26 < (2 ^ 26 :: nat)" by simp
  ultimately show ?thesis unfolding mul64_mod by simp
qed

lemma mod64: "v < 64 \<Longrightarrow> (64 * a + v) mod 2 ^ 26 = 64 * (a mod 2 ^ 20) + (v::nat)"
proof -
  assume v: "v < 64"
  have "(64 * a + v) mod (64 * 2 ^ 20) = 64 * ((64 * a + v) div 64 mod 2 ^ 20) + (64 * a + v) mod 64"
    by (rule mod_mult2_eq)
  also have "(64 * a + v) div 64 = a" using v by simp
  also have "(64 * a + v) mod 64 = v" using v by simp
  finally show ?thesis by simp
qed

lemma byte_div16: "(w + 4096 * b) div 2 ^ 4 mod 256 = w div 16 mod (256::nat)"
proof -
  have "(w + 4096 * b) div 2 ^ 4 = (w + 16 * (256 * b)) div 16" by simp
  also have "\<dots> = w div 16 + 256 * b" by (simp only: div_mult_self2) 
  finally show ?thesis by (simp only: mod_mult_self2)
qed
lemma byte_div4: "(w + 4096 * b) div 2 ^ 2 mod 256 = w div 4 mod (256::nat)"
proof -
  have "(w + 4096 * b) div 2 ^ 2 = (w + 4 * (1024 * b)) div 4" by simp
  also have "\<dots> = w div 4 + 256 * (4 * b)" by (subst div_mult_self2) simp_all
  finally show ?thesis by (simp only: mod_mult_self2)
qed
lemma byte_mod: "(w + 4096 * b) mod 256 = w mod (256::nat)"
proof -
  have "w + 4096 * b = w + 256 * (16 * b)" by simp
  then show ?thesis by (simp only: mod_mult_self2)
qed

lemma b64_step_unat:
  assumes v: "v < 64"
  shows "unat (b64_step buf v) = (unat buf * 64) mod 2 ^ 32 + v"
proof -
  have "and (push_bit 6 buf) (word_of_nat v :: 32 word) = 0"
  proof (rule bit_word_eqI)
    fix n
    have "\<not> bit v n" if "6 \<le> n"
    proof -
      have "v < 2 ^ n" using v that power_increasing[of 6 n "2::nat"] by simp
      then show ?thesis by (simp add: bit_iff_odd)
    qed
    then show "bit (and (push_bit 6 buf) (word_of_nat v :: 32 word)) n = bit (0 :: 32 word) n"
      by (auto simp: bit_simps)
  qed
  then have "b64_step buf v = push_bit 6 buf + word_of_nat v"
    by (simp add: b64_step_def disjunctive_add_eq_or)
  moreover have "unat (push_bit 6 buf) = (unat buf * 64) mod 2 ^ 32"
    by (simp add: push_bit_eq_mult unat_word_ariths mult.commute)
  moreover have "unat (word_of_nat v :: 32 word) = v"
    using v by (simp add: unat_of_nat)
  moreover have "(unat buf * 64) mod 2 ^ 32 + v < 2 ^ 32"
    using v by (rule mul64_bound)
  ultimately show ?thesis
    by (simp add: unat_word_ariths)
qed

lemma b64_byte_eq: "b64_byte w k = char_of (unat w div 2 ^ k mod 256)"
proof -
  have "and (drop_bit k w) 0xFF = take_bit 8 (drop_bit k w)"
    by (simp add: take_bit_eq_mask mask_eq_exp_minus_1)
  then have "unat (and (drop_bit k w) 0xFF) = take_bit 8 (drop_bit k (unat w))"
    by (simp only: unsigned_take_bit_eq unat_drop_bit_eq)
  then show ?thesis by (simp add: b64_byte_def take_bit_eq_mod drop_bit_eq_div)
qed

text \<open>
  After two steps the low twelve bits of the register are the last two digits, whatever it held
  before: no output byte looks further up.
\<close>

lemma b64_step_two:
  assumes "v0 < 64" "v1 < 64"
  shows "\<exists>b. unat (b64_step (b64_step buf v0) v1) = (64 * v0 + v1) + 4096 * b"
  using assms
  by (simp only: b64_step_unat mul64_mod mod64)
    (rule exI[of _ "unat buf mod 2 ^ 26 mod 2 ^ 20"], simp)

lemma b64_byte_after_two:
  assumes "v0 < 64" "v1 < 64"
  shows "b64_byte (b64_step (b64_step buf v0) v1) 4 = char_of ((64 * v0 + v1) div 16 mod 256)"
    and "b64_byte (b64_step (b64_step buf v0) v1) 2 = char_of ((64 * v0 + v1) div 4 mod 256)"
    and "b64_byte (b64_step (b64_step buf v0) v1) 0 = char_of ((64 * v0 + v1) mod 256)"
proof -
  from b64_step_two[OF assms] obtain b
    where b: "unat (b64_step (b64_step buf v0) v1) = (64 * v0 + v1) + 4096 * b" by blast
  show "b64_byte (b64_step (b64_step buf v0) v1) 4 = char_of ((64 * v0 + v1) div 16 mod 256)"
    by (simp only: b64_byte_eq b byte_div16)
  show "b64_byte (b64_step (b64_step buf v0) v1) 2 = char_of ((64 * v0 + v1) div 4 mod 256)"
    by (simp only: b64_byte_eq b byte_div4)
  show "b64_byte (b64_step (b64_step buf v0) v1) 0 = char_of ((64 * v0 + v1) mod 256)"
    by (simp only: b64_byte_eq b byte_mod power_0 div_by_1)
qed

lemma base64_loop_digits:
  assumes "v0 < 64" "v1 < 64"
  shows "base64_loop (b64_digit v0 # b64_digit v1 # cs) buf 0 =
      char_of ((64 * v0 + v1) div 16 mod 256) # base64_loop cs (b64_step (b64_step buf v0) v1) 4"
    and "base64_loop (b64_digit v1 # cs) (b64_step buf v0) 4 =
      char_of ((64 * v0 + v1) div 4 mod 256) # base64_loop cs (b64_step (b64_step buf v0) v1) 2"
    and "base64_loop (b64_digit v1 # cs) (b64_step buf v0) 2 =
      char_of ((64 * v0 + v1) mod 256) # base64_loop cs (b64_step (b64_step buf v0) v1) 0"
  using assms
  by (simp_all add: base64_loop_shift base64_loop_emit b64_digit_not_skipped b64_table_digit
      b64_byte_after_two)

text \<open>The three bytes of a group, recovered from its four digits.\<close>

lemma b64_regroup:
  fixes x y z :: nat
  assumes "x < 256" "y < 256" "z < 256"
  shows "(64 * (x div 4) + (x mod 4 * 16 + y div 16)) div 16 mod 256 = x"
    and "(64 * (x mod 4 * 16 + y div 16) + (y mod 16 * 4 + z div 64)) div 4 mod 256 = y"
    and "(64 * (y mod 16 * 4 + z div 64) + z mod 64) mod 256 = z"
proof -
  have x: "64 * (x div 4) + x mod 4 * 16 = 16 * x"
    using mult_div_mod_eq[of 4 x] by linarith
  have "y div 16 < 16" using assms by (simp add: less_mult_imp_div_less)
  moreover have "64 * (x div 4) + (x mod 4 * 16 + y div 16) = y div 16 + 16 * x"
    using x by linarith
  ultimately show "(64 * (x div 4) + (x mod 4 * 16 + y div 16)) div 16 mod 256 = x"
    using assms by simp
  have y: "64 * (y div 16) + y mod 16 * 4 = 4 * y"
    using mult_div_mod_eq[of 16 y] by linarith
  have "z div 64 < 4" using assms by (simp add: less_mult_imp_div_less)
  moreover have "64 * (x mod 4 * 16 + y div 16) + (y mod 16 * 4 + z div 64)
      = z div 64 + 4 * (y + 256 * (x mod 4))"
    using y by simp
  ultimately have "(64 * (x mod 4 * 16 + y div 16) + (y mod 16 * 4 + z div 64)) div 4
      = y + 256 * (x mod 4)"
    by simp
  then show "(64 * (x mod 4 * 16 + y div 16) + (y mod 16 * 4 + z div 64)) div 4 mod 256 = y"
    using assms by simp
  have "64 * (y mod 16 * 4 + z div 64) = 256 * (y mod 16) + 64 * (z div 64)" by simp
  then have "64 * (y mod 16 * 4 + z div 64) + z mod 64 = z + 256 * (y mod 16)"
    using mult_div_mod_eq[of 64 z] by linarith
  then show "(64 * (y mod 16 * 4 + z div 64) + z mod 64) mod 256 = z"
    using assms by simp
qed

lemma b64_padding_skipped: "b64_skipped (CHR ''='')"
  by (simp add: b64_skipped_def)

lemma b64_digit_bounds:
  fixes x y z :: nat
  assumes "x < 256" "y < 256" "z < 256"
  shows "x div 4 < 64" "x mod 4 * 16 < 64" "x mod 4 * 16 + y div 16 < 64"
    "y mod 16 * 4 < 64" "y mod 16 * 4 + z div 64 < 64" "z mod 64 < 64"
proof -
  have "x mod 4 < 4" "y mod 16 < 16" "z mod 64 < 64" by simp_all
  moreover have "x div 4 < 64" "y div 16 < 16" "z div 64 < 4"
    using assms by (simp_all add: less_mult_imp_div_less)
  ultimately show "x div 4 < 64" "x mod 4 * 16 < 64" "x mod 4 * 16 + y div 16 < 64"
    "y mod 16 * 4 < 64" "y mod 16 * 4 + z div 64 < 64" "z mod 64 < 64"
    by linarith+
qed

lemma of_char_less_256: "(of_char c :: nat) < 256"
  by simp

lemmas b64_char_bounds = b64_digit_bounds [OF of_char_less_256 of_char_less_256 of_char_less_256]

lemma base64_loop_encode: "base64_loop (base64_encode s) buf 0 = s"
proof (induction s arbitrary: buf rule: base64_encode.induct)
  case (2 a)
  show ?case
    using b64_regroup(1)[of "of_char a" 0 0]
    by (simp add: Let_def base64_loop_digits b64_char_bounds base64_loop_skip b64_padding_skipped)
next
  case (3 a b)
  show ?case
    using b64_regroup(1,2)[of "of_char a" "of_char b" 0]
    by (simp add: Let_def base64_loop_digits b64_char_bounds base64_loop_skip b64_padding_skipped)
next
  case (4 a b c r)
  then show ?case
    using b64_regroup[of "of_char a" "of_char b" "of_char c"]
    by (simp add: Let_def base64_loop_digits b64_char_bounds)
qed simp

section \<open>JSON escaping\<close>

text \<open>The switch of \<open>json_escape\<close>, and its loop; a NULL input gives the empty string.\<close>

definition json_escape1 :: "char \<Rightarrow> string" where
  "json_escape1 c =
     (if c = DQUOTE then [BACKSLASH, DQUOTE]
      else if c = BACKSLASH then [BACKSLASH, BACKSLASH]
      else if c = LF then [BACKSLASH, CHR ''n'']
      else if c = CR then [BACKSLASH, CHR ''r'']
      else if c = TAB then [BACKSLASH, CHR ''t'']
      else [c])"

fun json_escape_loop :: "string \<Rightarrow> string" where
  "json_escape_loop [] = []"
| "json_escape_loop (c # cs) = json_escape1 c @ json_escape_loop cs"

definition json_escape :: "string option \<Rightarrow> string" where
  "json_escape src = (case src of None \<Rightarrow> [] | Some s \<Rightarrow> json_escape_loop s)"

definition json_special :: "char \<Rightarrow> bool" where
  "json_special c \<longleftrightarrow> c = DQUOTE \<or> c = BACKSLASH \<or> c = LF \<or> c = CR \<or> c = TAB"

interpretation json: text_escape json_escape1 json_escape_loop json_special 2
  by unfold_locales (auto simp: json_escape1_def json_special_def split: if_splits)

text \<open>
  The grammar of a JSON string (RFC 8259, section 7), read from the byte after the opening quote:
  the contents and the text after the closing quote, \<open>None\<close> when it is not a string. A byte below
  0x20 may not stand for itself. The \<open>\u\<close> escapes, which the program never writes, are left out.
\<close>

definition json_unescape1 :: "char \<Rightarrow> char option" where
  "json_unescape1 e =
     (if e = DQUOTE \<or> e = BACKSLASH \<or> e = CHR ''/'' then Some e
      else if e = CHR ''n'' then Some LF
      else if e = CHR ''r'' then Some CR
      else if e = CHR ''t'' then Some TAB
      else if e = CHR ''b'' then Some (CHR 0x08)
      else if e = CHR ''f'' then Some (CHR 0x0C)
      else None)"

definition json_control :: "char \<Rightarrow> bool" where
  "json_control c \<longleftrightarrow> c < CHR '' ''"

fun json_read_string :: "string \<Rightarrow> (string \<times> string) option" where
  "json_read_string [] = None"
| "json_read_string (c # r) =
     (if c = DQUOTE then Some ([], r)
      else if c = BACKSLASH then
        (case r of [] \<Rightarrow> None
         | e # r1 \<Rightarrow>
             (case json_unescape1 e of None \<Rightarrow> None
              | Some d \<Rightarrow> map_option (\<lambda>(s, t). (d # s, t)) (json_read_string r1)))
      else if json_control c then None
      else map_option (\<lambda>(s, t). (c # s, t)) (json_read_string r))"

lemma json_read_escape1:
  "json_read_string (json_escape1 c @ r) =
     (if json_control c \<and> \<not> json_special c then None
      else map_option (\<lambda>(s, t). (c # s, t)) (json_read_string r))"
proof (cases "json_special c")
  case True
  then show ?thesis
    by (auto simp: json_special_def json_escape1_def json_unescape1_def)
next
  case False
  then show ?thesis by (auto simp: json_special_def json_escape1_def)
qed

lemma json_read_escape:
  "json_read_string (json_escape_loop s @ DQUOTE # rest) =
     (if \<exists>c\<in>set s. json_control c \<and> \<not> json_special c then None else Some (s, rest))"
proof (induction s)
  case (Cons c s)
  show ?case by (simp add: json_read_escape1 Cons.IH)
qed simp

end
