(* ===== verification/Buffers.thy ===== *)
theory Buffers
  imports Prelude
begin

text \<open>
  The contract of the program's two growing byte buffers, the string builder \<open>strbuf_t\<close> of
  html_render.c and the POST body accumulator \<open>request_context_t\<close> of routes.c. The allocator is a
  parameter \<open>mem\<close>: \<open>mem n\<close> says whether an allocation of \<open>n\<close> bytes succeeds. An append keeps the
  buffer well formed and either adds the whole text or, when the allocation fails, nothing.
\<close>

type_synonym allocator = "nat \<Rightarrow> bool"

locale growing_buffer =
  fixes app :: "allocator \<Rightarrow> string \<Rightarrow> 'b \<Rightarrow> 'b"
    and content :: "'b \<Rightarrow> string"
    and invar :: "'b \<Rightarrow> bool"
  assumes invar_app: "invar b \<Longrightarrow> invar (app mem s b)"
    and content_app: "invar b \<Longrightarrow> content (app mem s b) \<in> {content b, content b @ s}"
    and content_app_ok: "invar b \<Longrightarrow> (\<And>n. mem n) \<Longrightarrow> content (app mem s b) = content b @ s"
begin

lemma invar_fold: "invar b \<Longrightarrow> invar (fold (app mem) ss b)"
  by (induction ss arbitrary: b) (auto intro: invar_app)

lemma content_fold_ok:
  "invar b \<Longrightarrow> (\<And>n. mem n) \<Longrightarrow> content (fold (app mem) ss b) = content b @ concat ss"
  by (induction ss arbitrary: b) (auto simp: invar_app content_app_ok)

text \<open>Whatever the allocator does, the contents are the concatenation of some of the texts, in order.\<close>

lemma content_fold_subseq:
  "invar b \<Longrightarrow> \<exists>ts. subseq ts ss \<and> content (fold (app mem) ss b) = content b @ concat ts"
proof (induction ss arbitrary: b)
  case (Cons s ss)
  from Cons.IH[OF invar_app[OF Cons.prems]] obtain ts where
    ts: "subseq ts ss"
    "content (fold (app mem) ss (app mem s b)) = content (app mem s b) @ concat ts" by blast
  consider "content (app mem s b) = content b" | "content (app mem s b) = content b @ s"
    using content_app[OF Cons.prems] by blast
  then show ?case
  proof cases
    case 1
    with ts show ?thesis by (auto intro!: exI[of _ ts])
  next
    case 2
    with ts show ?thesis by (auto intro!: exI[of _ "s # ts"])
  qed
qed auto

end

end
