(* ===== verification/Html_Text.thy ===== *)
theory Html_Text
  imports Util Buffers
begin

text \<open>
  The text layer of src/html_render.c: \<open>html_escape\<close>, \<open>url_encode\<close> and the string builder
  \<open>strbuf_t\<close>.
\<close>

section \<open>HTML escaping\<close>

text \<open>The switch of \<open>html_escape\<close>, and its loop; a NULL input gives the empty string.\<close>

definition html_escape1 :: "char \<Rightarrow> string" where
  "html_escape1 c =
     (if c = CHR ''<'' then ''&lt;''
      else if c = CHR ''>'' then ''&gt;''
      else if c = CHR ''&'' then ''&amp;''
      else if c = DQUOTE then ''&quot;''
      else if c = SQUOTE then ''&#39;''
      else [c])"

fun html_escape_loop :: "string \<Rightarrow> string" where
  "html_escape_loop [] = []"
| "html_escape_loop (c # cs) = html_escape1 c @ html_escape_loop cs"

definition html_escape :: "string option \<Rightarrow> string" where
  "html_escape raw = (case raw of None \<Rightarrow> [] | Some s \<Rightarrow> html_escape_loop s)"

definition html_special :: "char \<Rightarrow> bool" where
  "html_special c \<longleftrightarrow> c \<in> {CHR ''<'', CHR ''>'', CHR ''&'', DQUOTE, SQUOTE}"

interpretation html: markup_escape html_escape1 html_escape_loop html_special 6 "CHR ''&''"
  by unfold_locales (auto simp: html_escape1_def html_special_def split: if_splits)

lemma html_escape_simps [simp]:
  "html_escape None = []" "html_escape (Some s) = html_escape_loop s"
  by (simp_all add: html_escape_def)

text \<open>
  How a browser reads character references back: the five references the program writes, tried at
  every ampersand; any other byte stands for itself.
\<close>

definition html_entities :: "(string \<times> char) list" where
  "html_entities =
     [(''&lt;'', CHR ''<''), (''&gt;'', CHR ''>''), (''&amp;'', CHR ''&''),
      (''&quot;'', DQUOTE), (''&#39;'', SQUOTE)]"

definition html_entity_at :: "string \<Rightarrow> (string \<times> char) option" where
  "html_entity_at s = find (\<lambda>(e, _). prefix e s) html_entities"

function html_unescape :: "string \<Rightarrow> string" where
  "html_unescape [] = []"
| "html_unescape (c # cs) =
     (case html_entity_at (c # cs) of
        Some (e, d) \<Rightarrow> d # html_unescape (drop (length e) (c # cs))
      | None \<Rightarrow> c # html_unescape cs)"
  by pat_completeness auto
termination
  by (relation "measure length")
    (auto simp: html_entity_at_def html_entities_def split: if_splits)

lemma html_entity_at_escape1:
  "html_special c \<Longrightarrow> html_entity_at (html_escape1 c @ t) = Some (html_escape1 c, c)"
  by (auto simp: html_special_def html_escape1_def html_entity_at_def html_entities_def)

lemma html_entity_at_plain: "c \<noteq> CHR ''&'' \<Longrightarrow> html_entity_at (c # t) = None"
  by (auto simp: html_entity_at_def html_entities_def)

lemma html_unescape_entity:
  "s \<noteq> [] \<Longrightarrow> html_entity_at s = Some (e, d) \<Longrightarrow>
   html_unescape s = d # html_unescape (drop (length e) s)"
  by (cases s) auto

lemma html_unescape_escape1: "html_unescape (html_escape1 c @ t) = c # html_unescape t"
proof (cases "html_special c")
  case True
  have "html_unescape (html_escape1 c @ t)
      = c # html_unescape (drop (length (html_escape1 c)) (html_escape1 c @ t))"
    by (rule html_unescape_entity) (auto simp: html_entity_at_escape1[OF True] html.nonempty)
  then show ?thesis by simp
next
  case False
  then show ?thesis
    by (simp add: html.plain html_special_def html_entity_at_plain)
qed

declare html_unescape.simps(2) [simp del]

lemma html_unescape_append_escape: "html_unescape (html_escape_loop s @ t) = s @ html_unescape t"
  by (induction s) (auto simp: html_unescape_escape1)

lemma html_unescape_harmless: "CHR ''&'' \<notin> set s \<Longrightarrow> html_unescape (s @ t) = s @ html_unescape t"
  by (induction s) (auto simp: html_entity_at_plain html_unescape.simps(2))

section \<open>URL encoding\<close>

definition url_unreserved :: "char \<Rightarrow> bool" where
  "url_unreserved c \<longleftrightarrow>
     (CHR ''A'' \<le> c \<and> c \<le> CHR ''Z'') \<or> (CHR ''a'' \<le> c \<and> c \<le> CHR ''z'') \<or>
     (CHR ''0'' \<le> c \<and> c \<le> CHR ''9'') \<or> c = CHR ''/'' \<or> c = CHR ''-'' \<or>
     c = CHR ''_'' \<or> c = CHR ''.'' \<or> c = CHR ''~''"

text \<open>The two digits of \<open>%02X\<close>.\<close>

definition hex_upper :: "nat \<Rightarrow> char" where
  "hex_upper d = (if d < 10 then char_of (48 + d) else char_of (55 + d))"

definition url_encode1 :: "char \<Rightarrow> string" where
  "url_encode1 c =
     (if url_unreserved c then [c]
      else [CHR ''%'', hex_upper (of_char c div 16), hex_upper (of_char c mod 16)])"

fun url_encode :: "string \<Rightarrow> string" where
  "url_encode [] = []"
| "url_encode (c # cs) = url_encode1 c @ url_encode cs"

lemma hex_digit_hex_upper: "d < 16 \<Longrightarrow> hex_digit (hex_upper d) = int d"
  by (auto simp: hex_digit_def hex_upper_def less_eq_char_def)

lemma url_decode_encode1: "url_decode (url_encode1 c @ t) = c # url_decode t"
proof (cases "url_unreserved c")
  case True
  then have "c \<noteq> CHR ''%''" "c \<noteq> CHR ''+''" by (auto simp: url_unreserved_def)
  with True show ?thesis by (simp add: url_encode1_def url_decode_plain)
next
  case False
  have d: "(of_char c :: nat) div 16 < 16" "(of_char c :: nat) mod 16 < 16"
    using of_char_less_256[of c] by (simp_all add: less_mult_imp_div_less)
  have "nat (int (of_char c div 16) * 16 + int (of_char c mod 16)) = (of_char c :: nat)"
    using div_mult_mod_eq[of "of_char c :: nat" 16] by linarith
  with False d show ?thesis
    by (simp add: url_encode1_def url_decode_hex hex_digit_hex_upper)
qed

lemma url_decode_encode: "url_decode (url_encode s) = s"
  by (induction s) (auto simp: url_decode_encode1)

lemma length_url_encode_le: "length (url_encode s) \<le> 3 * length s"
  by (induction s) (auto simp: url_encode1_def)

section \<open>The string builder\<close>

record strbuf =
  sb_buf :: "string option"
  sb_len :: nat
  sb_cap :: nat

definition sb_init :: "allocator \<Rightarrow> nat \<Rightarrow> strbuf" where
  "sb_init mem initial =
     (let cap = (if initial \<noteq> 0 then initial else 4096) in
      \<lparr>sb_buf = (if mem cap then Some [] else None), sb_len = 0, sb_cap = cap\<rparr>)"

definition sb_append :: "allocator \<Rightarrow> string \<Rightarrow> strbuf \<Rightarrow> strbuf" where
  "sb_append mem s sb =
     (case sb_buf sb of None \<Rightarrow> sb
      | Some b \<Rightarrow>
          let needed = sb_len sb + length s + 1 in
          if sb_cap sb < needed then
            (if mem (needed * 2)
             then \<lparr>sb_buf = Some (take (sb_len sb) b @ s), sb_len = sb_len sb + length s,
                   sb_cap = needed * 2\<rparr>
             else sb)
          else sb\<lparr>sb_buf := Some (take (sb_len sb) b @ s), sb_len := sb_len sb + length s\<rparr>)"

text \<open>
  \<open>sb_appendf\<close>, given the formatted text. Unlike \<open>sb_append\<close> it does not test the buffer for
  NULL; \<open>None\<close> is the write through a null pointer.
\<close>

definition sb_appendf :: "allocator \<Rightarrow> string \<Rightarrow> strbuf \<Rightarrow> strbuf option" where
  "sb_appendf mem s sb =
     (let required = sb_len sb + length s + 1 in
      if sb_cap sb < required then
        (if mem (required * 2)
         then Some \<lparr>sb_buf = Some (take (sb_len sb) (case sb_buf sb of None \<Rightarrow> [] | Some b \<Rightarrow> b) @ s),
                    sb_len = sb_len sb + length s, sb_cap = required * 2\<rparr>
         else Some sb)
      else
        (case sb_buf sb of None \<Rightarrow> None
         | Some b \<Rightarrow> Some (sb\<lparr>sb_buf := Some (take (sb_len sb) b @ s),
                               sb_len := sb_len sb + length s\<rparr>)))"

definition sb_finish :: "strbuf \<Rightarrow> string option" where
  "sb_finish sb = sb_buf sb"

text \<open>Well formed: allocated, the recorded length right, and room for the closing NUL byte.\<close>

definition sb_invar :: "strbuf \<Rightarrow> bool" where
  "sb_invar sb \<longleftrightarrow> (\<exists>b. sb_buf sb = Some b \<and> sb_len sb = length b \<and> length b + 1 \<le> sb_cap sb)"

definition sb_content :: "strbuf \<Rightarrow> string" where
  "sb_content sb = (case sb_buf sb of None \<Rightarrow> [] | Some b \<Rightarrow> b)"

lemma sb_append_cases:
  assumes "sb_invar sb"
  shows "sb_invar (sb_append mem s sb)"
    and "sb_content (sb_append mem s sb) = sb_content sb @ (if mem ((sb_len sb + length s + 1) * 2) \<or>
           sb_len sb + length s + 1 \<le> sb_cap sb then s else [])"
  using assms by (auto simp: sb_append_def sb_content_def sb_invar_def Let_def)

interpretation sb: growing_buffer sb_append sb_content sb_invar
  by unfold_locales (auto simp: sb_append_cases)

lemma sb_init_invar: "mem (if initial \<noteq> 0 then initial else 4096) \<Longrightarrow> sb_invar (sb_init mem initial)"
  by (auto simp: sb_init_def sb_invar_def Let_def)

lemma sb_init_content: "sb_content (sb_init mem initial) = []"
  by (auto simp: sb_init_def sb_content_def Let_def)

lemma sb_appendf_eq_append: "sb_invar sb \<Longrightarrow> sb_appendf mem s sb = Some (sb_append mem s sb)"
  by (auto simp: sb_invar_def sb_appendf_def sb_append_def Let_def)

end
