(* ===== verification/Html_Templates.thy ===== *)
theory Html_Templates
  imports Prelude
begin

text \<open>
  The string literals of src/html_render.c and src/html_render.h, one constant for each call that
  appends one. Those of formatted appends are printf formats.
\<close>

definition stop_start_explanation_html :: string where
  \<open>stop_start_explanation_html =
     ''<div style="margin-top:6px;padding:6px 10px;background:var(--color-bg-secondary,#f6f8fa);'' @
     ''border-radius:4px;font-size:0.85em;line-height:1.5">'' @
     ''<strong>Why not just reboot from inside the VM?</strong><br>'' @
     [CHR 0xE2, CHR 0x80, CHR 0xA2] @ '' <strong>Guest reboot</strong> only restarts the OS. '' @
     ''The QEMU process keeps running with its original hardware config.<br>'' @
     [CHR 0xE2, CHR 0x80, CHR 0xA2] @ '' <strong>Stop &amp; Start</strong> (from this web UI) destroys the QEMU '' @
     ''process and creates a new one with the latest config &mdash; like powering '' @
     ''off the hardware and turning it back on with new hardware installed.</div>''\<close>

definition t_no_vms :: string where
  \<open>t_no_vms =
     ''<p class="placeholder">No virtual machines found</p>''\<close>

definition t_vm_item :: string where
  \<open>t_vm_item =
     ''<div class="vm-item" data-vm="%s" onclick="selectVm(\'%s\')">'' @ [LF] @
     ''    <div class="vm-header">'' @ [LF] @
     ''        <div class="vm-name">%s</div>'' @ [LF] @
     ''        <span class="vm-state %s">%s</span>'' @ [LF] @
     ''    </div>'' @ [LF] @
     ''    <div class="vm-meta">'' @ [LF] @
     ''        <span class="vm-info">%d vCPU '' @ [CHR 0xC2, CHR 0xB7] @ '' %lu MB</span>'' @ [LF] @
     ''    </div>'' @ [LF] @
     ''    <div class="vm-actions" onclick="event.stopPropagation()">'' @ [LF]\<close>

definition t_vm_running :: string where
  \<open>t_vm_running =
     ''        <button class="btn btn-xs btn-warning"'' @
     '' hx-post="/api/vms/%s/stop"'' @
     '' hx-target="#vm-notification"'' @
     '' hx-swap="innerHTML"'' @
     '' title="Shutdown (graceful)">'' @ [CHR 0xE2, CHR 0x8F, CHR 0xB9] @ '' Stop</button>'' @ [LF] @
     ''        <button class="btn btn-xs btn-secondary"'' @
     '' hx-post="/api/vms/%s/pause"'' @
     '' hx-target="#vm-notification"'' @
     '' hx-swap="innerHTML"'' @
     '' title="Pause">'' @ [CHR 0xE2, CHR 0x8F, CHR 0xB8] @ '' Pause</button>'' @ [LF] @
     ''        <button class="btn btn-xs btn-danger"'' @
     '' hx-post="/api/vms/%s/force-stop"'' @
     '' hx-target="#vm-notification"'' @
     '' hx-swap="innerHTML"'' @
     '' hx-confirm="Force stop %s? This may cause data loss."'' @
     '' title="Force power off">'' @ [CHR 0xE2, CHR 0x9A, CHR 0xA1] @ '' Force</button>'' @ [LF]\<close>

definition t_vm_paused :: string where
  \<open>t_vm_paused =
     ''        <button class="btn btn-xs btn-success"'' @
     '' hx-post="/api/vms/%s/resume"'' @
     '' hx-target="#vm-notification"'' @
     '' hx-swap="innerHTML"'' @
     '' title="Resume">'' @ [CHR 0xE2, CHR 0x96, CHR 0xB6] @ '' Resume</button>'' @ [LF] @
     ''        <button class="btn btn-xs btn-danger"'' @
     '' hx-post="/api/vms/%s/force-stop"'' @
     '' hx-target="#vm-notification"'' @
     '' hx-swap="innerHTML"'' @
     '' hx-confirm="Force stop %s? This may cause data loss."'' @
     '' title="Force power off">'' @ [CHR 0xE2, CHR 0x9A, CHR 0xA1] @ '' Force</button>'' @ [LF]\<close>

definition t_vm_shutoff :: string where
  \<open>t_vm_shutoff =
     ''        <button class="btn btn-xs btn-success btn-vm-start"'' @
     '' hx-post="/api/vms/%s/start"'' @
     '' hx-target="#vm-notification"'' @
     '' hx-swap="innerHTML"'' @
     '' title="Start VM">'' @ [CHR 0xE2, CHR 0x96, CHR 0xB6] @ '' Start</button>'' @ [LF]\<close>

definition t_vm_other :: string where
  \<open>t_vm_other =
     ''        <button class="btn btn-xs btn-success btn-vm-start"'' @
     '' hx-post="/api/vms/%s/start"'' @
     '' hx-target="#vm-notification"'' @
     '' hx-swap="innerHTML"'' @
     '' title="Start VM">'' @ [CHR 0xE2, CHR 0x96, CHR 0xB6] @ '' Start</button>'' @ [LF] @
     ''        <button class="btn btn-xs btn-danger"'' @
     '' hx-post="/api/vms/%s/force-stop"'' @
     '' hx-target="#vm-notification"'' @
     '' hx-swap="innerHTML"'' @
     '' hx-confirm="Force stop %s?"'' @
     '' title="Force power off">'' @ [CHR 0xE2, CHR 0x9A, CHR 0xA1] @ '' Force</button>'' @ [LF]\<close>

definition t_vm_close :: string where
  \<open>t_vm_close =
     ''    </div>'' @ [LF] @
     ''</div>'' @ [LF]\<close>

definition t_no_snapshot :: string where
  \<open>t_no_snapshot =
     ''<p class="placeholder">Snapshot not found</p>''\<close>

definition t_info_open :: string where
  \<open>t_info_open =
     ''<div class="snapshot-info">'' @ [LF]\<close>

definition t_info_title :: string where
  \<open>t_info_title =
     ''    <h3>%s</h3>'' @ [LF]\<close>

definition t_info_meta :: string where
  \<open>t_info_meta =
     ''    <div class="snapshot-meta">'' @ [LF]\<close>

definition t_info_badge :: string where
  \<open>t_info_badge =
     ''        <span class="badge %s">%s</span>'' @ [LF]\<close>

definition t_info_date :: string where
  \<open>t_info_date =
     ''        <span class="snap-date">%s</span>'' @ [LF]\<close>

definition t_div_close4 :: string where
  \<open>t_div_close4 =
     ''    </div>'' @ [LF]\<close>

definition t_info_desc :: string where
  \<open>t_info_desc =
     ''    <p class="snap-desc">%s</p>'' @ [LF]\<close>

definition t_edit_button :: string where
  \<open>t_edit_button =
     ''    <button class="btn btn-sm btn-secondary edit-desc-btn"'' @ [LF] @
     ''            hx-get="/api/vms/%s/snapshots/%s/edit"'' @ [LF] @
     ''            hx-target="#snapshot-detail"'' @ [LF] @
     ''            hx-swap="innerHTML"'' @ [LF] @
     ''            hx-indicator="#snap-action-loading">'' @ [LF] @
     ''        '' @ [CHR 0xE2, CHR 0x9C, CHR 0x8F] @ '' Edit Description'' @ [LF] @
     ''    </button>'' @ [LF]\<close>

definition t_current_badge :: string where
  \<open>t_current_badge =
     ''    <div class="snap-current">'' @ [CHR 0xE2, CHR 0x98, CHR 0x85] @ '' Current Snapshot</div>'' @ [LF]\<close>

definition t_actions_open :: string where
  \<open>t_actions_open =
     ''    <div class="snap-actions">'' @ [LF]\<close>

definition t_revert_button :: string where
  \<open>t_revert_button =
     ''        <button class="btn btn-primary"'' @ [LF] @
     ''                hx-get="/api/vms/%s/snapshots/%s/revert-confirm"'' @ [LF] @
     ''                hx-target="#snapshot-detail"'' @ [LF] @
     ''                hx-swap="innerHTML"'' @ [LF] @
     ''                hx-indicator="#snap-action-loading">'' @ [LF] @
     ''            '' @ [CHR 0xE2, CHR 0x86, CHR 0xA9] @ '' Revert'' @ [LF] @
     ''        </button>'' @ [LF]\<close>

definition t_delete_disabled :: string where
  \<open>t_delete_disabled =
     ''        <button class="btn btn-danger" disabled'' @ [LF] @
     ''                title="Shut down the VM to delete snapshots">'' @ [LF] @
     ''            '' @ [CHR 0xF0, CHR 0x9F, CHR 0x97, CHR 0x91] @ '' Delete'' @ [LF] @
     ''        </button>'' @ [LF]\<close>

definition t_delete_button :: string where
  \<open>t_delete_button =
     ''        <button class="btn btn-danger"'' @ [LF] @
     ''                hx-delete="/api/vms/%s/snapshots/%s"'' @ [LF] @
     ''                hx-target="#snapshot-tree"'' @ [LF] @
     ''                hx-swap="innerHTML"'' @ [LF] @
     ''                hx-indicator="#snap-action-loading"'' @ [LF] @
     ''                hx-confirm="Delete snapshot \'%s\'?">'' @ [LF] @
     ''            '' @ [CHR 0xF0, CHR 0x9F, CHR 0x97, CHR 0x91] @ '' Delete'' @ [LF] @
     ''        </button>'' @ [LF]\<close>

definition t_merge_disabled :: string where
  \<open>t_merge_disabled =
     ''        <button class="btn btn-warning" disabled'' @ [LF] @
     ''                title="Shut down the VM to merge snapshots">'' @ [LF] @
     ''            '' @ [CHR 0xE2, CHR 0x8A, CHR 0x95] @ '' Merge'' @ [LF] @
     ''        </button>'' @ [LF]\<close>

definition t_merge_button :: string where
  \<open>t_merge_button =
     ''        <button class="btn btn-warning"'' @ [LF] @
     ''                hx-post="/api/vms/%s/snapshots/%s/merge"'' @ [LF] @
     ''                hx-target="#snapshot-tree"'' @ [LF] @
     ''                hx-swap="innerHTML"'' @ [LF] @
     ''                hx-indicator="#snap-action-loading"'' @ [LF] @
     ''                hx-confirm="Merge snapshot \'%s\'?">'' @ [LF] @
     ''            '' @ [CHR 0xE2, CHR 0x8A, CHR 0x95] @ '' Merge'' @ [LF] @
     ''        </button>'' @ [LF]\<close>

definition t_action_loading :: string where
  \<open>t_action_loading =
     ''    <div id="snap-action-loading" class="htmx-indicator snap-action-busy">'' @ [LF] @
     ''        <span class="spinner"></span> Processing'' @ [CHR 0xE2, CHR 0x80, CHR 0xA6, LF] @
     ''    </div>'' @ [LF]\<close>

definition t_div_close :: string where
  \<open>t_div_close =
     ''</div>'' @ [LF]\<close>

definition t_modal_open :: string where
  \<open>t_modal_open =
     ''<div class="modal-overlay" onclick="this.remove()">'' @ [LF]\<close>

definition t_modal_box :: string where
  \<open>t_modal_box =
     ''    <div class="modal" onclick="event.stopPropagation()">'' @ [LF]\<close>

definition t_create_title :: string where
  \<open>t_create_title =
     ''        <h3>Create Snapshot</h3>'' @ [LF]\<close>

definition t_nvram_warning :: string where
  \<open>t_nvram_warning =
     ''        <div class="alert alert-warning" style="margin-bottom:0.75rem">'' @ [LF] @
     ''            '' @ [CHR 0xE2, CHR 0x9A, CHR 0xA0, CHR 0xEF, CHR 0xB8, CHR 0x8F] @ '' <strong>NVRAM is in raw format.</strong> '' @
     ''Internal snapshots require qcow2 NVRAM. '' @
     ''Stop the VM first, then convert.'' @ [LF] @
     ''            <div style="margin-top:0.5rem">'' @ [LF] @
     ''              <button type="button" class="btn btn-sm btn-warning"'' @ [LF] @
     ''                onclick="event.preventDefault();'' @
     ''this.closest(\'.modal-overlay\').remove();'' @
     ''htmx.ajax(\'POST\',\'/api/vms/%s/convert-nvram\','' @
     ''{target:\'#vm-notification\',swap:\'innerHTML\'})">'' @ [LF] @
     ''                '' @ [CHR 0xF0, CHR 0x9F, CHR 0x94, CHR 0xA7] @ '' Convert NVRAM to qcow2'' @ [LF] @
     ''              </button>'' @ [LF] @
     ''            </div>'' @ [LF] @
     ''        </div>'' @ [LF]\<close>

definition t_create_form :: string where
  \<open>t_create_form =
     ''        <div id="snap-form-error"></div>'' @ [LF] @
     ''        <form hx-post="/api/vms/%s/snapshots"'' @ [LF] @
     ''              hx-target="#snap-form-error"'' @ [LF] @
     ''              hx-swap="innerHTML"'' @ [LF] @
     ''              hx-indicator="#snap-creating"'' @ [LF] @
     ''              hx-on::after-request="if(event.detail.successful){'' @
     ''document.getElementById(\'vm-notification\').innerHTML=event.detail.xhr.responseText;'' @
     ''this.closest(\'.modal-overlay\').remove();}">'' @ [LF]\<close>

definition t_create_name :: string where
  \<open>t_create_name =
     ''            <div class="form-group">'' @ [LF] @
     ''                <label class="form-label">Name</label>'' @ [LF] @
     ''                <input class="form-input" name="name" placeholder="my-snapshot" required>'' @ [LF] @
     ''            </div>'' @ [LF]\<close>

definition t_create_desc :: string where
  \<open>t_create_desc =
     ''            <div class="form-group">'' @ [LF] @
     ''                <label class="form-label">Description</label>'' @ [LF] @
     ''                <textarea class="form-input" name="description" rows="3" '' @ [LF] @
     ''                          placeholder="Optional description"></textarea>'' @ [LF] @
     ''            </div>'' @ [LF]\<close>

definition t_create_type :: string where
  \<open>t_create_type =
     ''            <div class="form-group">'' @ [LF] @
     ''                <label class="form-label">Type</label>'' @ [LF] @
     ''                <select class="form-select" name="type">'' @ [LF] @
     ''                    <option value="internal">Internal</option>'' @ [LF] @
     ''                    <option value="external">External</option>'' @ [LF] @
     ''                </select>'' @ [LF] @
     ''                <p class="form-hint">'' @ [LF] @
     ''                    <strong>Internal</strong> '' @ [CHR 0xE2, CHR 0x80, CHR 0x94] @ '' saves full VM state '' @
     ''(memory + disk). Like VirtualBox &ldquo;save state&rdquo;. '' @
     ''Requires qcow2 NVRAM on UEFI VMs.<br>'' @ [LF] @
     ''                    <strong>External</strong> '' @ [CHR 0xE2, CHR 0x80, CHR 0x94] @ '' disk-only snapshot. '' @
     ''Faster, but does not capture memory. '' @
     ''Must be merged later to reclaim space.'' @ [LF] @
     ''                </p>'' @ [LF] @
     ''            </div>'' @ [LF]\<close>

definition t_create_actions :: string where
  \<open>t_create_actions =
     ''            <div class="form-actions">'' @ [LF] @
     ''                <button type="submit" class="btn btn-primary"'' @
     ''                        id="snap-create-btn">Create</button>'' @ [LF] @
     ''                <button type="button" class="btn btn-ghost" '' @ [LF] @
     ''                        onclick="this.closest(\'.modal-overlay\').remove()">Cancel</button>'' @ [LF] @
     ''            </div>'' @ [LF] @
     ''            <div id="snap-creating" class="htmx-indicator snap-loading">'' @ [LF] @
     ''                <span class="spinner"></span> Creating snapshot'' @ [CHR 0xE2, CHR 0x80, CHR 0xA6] @ '' '' @
     ''This may take a moment for running VMs.'' @ [LF] @
     ''            </div>'' @ [LF]\<close>

definition t_form_close :: string where
  \<open>t_form_close =
     ''        </form>'' @ [LF]\<close>

definition t_no_folders :: string where
  \<open>t_no_folders =
     ''<p class="placeholder">No shared folders configured</p>''\<close>

definition t_folder_notification :: string where
  \<open>t_folder_notification =
     ''<div id="folder-notification"></div>'' @ [LF]\<close>

definition t_automount_open :: string where
  \<open>t_automount_open =
     ''<div class="automount-status">'' @ [LF]\<close>

definition t_automount_active :: string where
  \<open>t_automount_active =
     ''    <span class="badge badge-mounted">'' @ [CHR 0xE2, CHR 0x9C, CHR 0x93] @ '' Auto-Mount Active</span>'' @ [LF] @
     ''    <span class="automount-hint">VirtioFS shares are automatically mounted to /media/</span>'' @ [LF]\<close>

definition t_automount_setup :: string where
  \<open>t_automount_setup =
     ''    <button class="btn btn-sm btn-primary"'' @ [LF] @
     ''            hx-post="/api/vms/%s/shared-folders/automount"'' @ [LF] @
     ''            hx-target="#folder-notification-persistent"'' @ [LF] @
     ''            hx-swap="innerHTML"'' @ [LF] @
     ''            hx-indicator="#automount-spinner"'' @ [LF] @
     ''            hx-disabled-elt="this"'' @ [LF] @
     ''            hx-confirm="Install auto-mount service in the guest VM?'' @
     '' This adds a systemd timer that mounts VirtioFS shares to /media/ automatically.">'' @ [LF] @
     ''        '' @ [CHR 0xE2, CHR 0x9A, CHR 0x99, CHR 0xEF, CHR 0xB8, CHR 0x8F] @ '' Setup Auto-Mount'' @ [LF] @
     ''    </button>'' @ [LF] @
     ''    <span id="automount-spinner" class="spinner htmx-indicator"></span>'' @ [LF]\<close>

definition t_folders_open :: string where
  \<open>t_folders_open =
     ''<div class="shared-folders-list">'' @ [LF]\<close>

definition t_folder_open :: string where
  \<open>t_folder_open =
     ''    <div class="folder-item">'' @ [LF]\<close>

definition t_folder_header :: string where
  \<open>t_folder_header =
     ''        <div class="folder-header">'' @ [LF]\<close>

definition t_folder_icon :: string where
  \<open>t_folder_icon =
     ''            <div class="folder-icon">'' @ [CHR 0xF0, CHR 0x9F, CHR 0x93, CHR 0x81] @ ''</div>'' @ [LF]\<close>

definition t_folder_info :: string where
  \<open>t_folder_info =
     ''            <div class="folder-info">'' @ [LF]\<close>

definition t_folder_tag :: string where
  \<open>t_folder_tag =
     ''                <div class="folder-tag">%s</div>'' @ [LF]\<close>

definition t_folder_path :: string where
  \<open>t_folder_path =
     ''                <div class="folder-path" title="%s">%s</div>'' @ [LF]\<close>

definition t_folder_ro :: string where
  \<open>t_folder_ro =
     ''                <span class="badge badge-readonly">Read Only</span>'' @ [LF]\<close>

definition t_folder_mounted :: string where
  \<open>t_folder_mounted =
     ''                <span class="badge badge-mounted">'' @ [CHR 0xE2, CHR 0x9C, CHR 0x93] @ '' Mounted</span>'' @ [LF]\<close>

definition t_folder_unmounted :: string where
  \<open>t_folder_unmounted =
     ''                <span class="badge badge-unmounted">Not Mounted</span>'' @ [LF]\<close>

definition t_hint_9p :: string where
  \<open>t_hint_9p =
     ''                <div class="folder-mount-hint">'' @
     ''<code>sudo mkdir -p /media/%s &amp;&amp; sudo mount -t 9p -o trans=virtio %s /media/%s</code></div>'' @ [LF]\<close>

definition t_hint_virtiofs :: string where
  \<open>t_hint_virtiofs =
     ''                <div class="folder-mount-hint">'' @
     ''<code>sudo mkdir -p /media/%s &amp;&amp; sudo mount -t virtiofs %s /media/%s</code></div>'' @ [LF]\<close>

definition t_div_close12 :: string where
  \<open>t_div_close12 =
     ''            </div>'' @ [LF]\<close>

definition t_div_close8 :: string where
  \<open>t_div_close8 =
     ''        </div>'' @ [LF]\<close>

definition t_folder_actions :: string where
  \<open>t_folder_actions =
     ''        <div class="folder-actions">'' @ [LF]\<close>

definition t_folder_restart :: string where
  \<open>t_folder_restart =
     ''            <span class="badge badge-warning">'' @
     [CHR 0xE2, CHR 0x9A, CHR 0xA0, CHR 0xEF, CHR 0xB8, CHR 0x8F] @ '' Stop &amp; Start from web UI to activate</span>'' @ [LF] @
     ''            '' @
     stop_start_explanation_html @
     [LF]\<close>

definition t_detach :: string where
  \<open>t_detach =
     ''        <button class="btn btn-sm btn-danger"'' @ [LF] @
     ''                hx-delete="/api/vms/%s/shared-folders/%s"'' @ [LF] @
     ''                hx-target="#folder-notification-persistent"'' @ [LF] @
     ''                hx-swap="innerHTML"'' @ [LF] @
     ''                hx-confirm="Detach shared folder \'%s\'? (Files on host are not deleted)">'' @ [LF] @
     ''            '' @ [CHR 0xE2, CHR 0x9C, CHR 0x96] @ '' Detach'' @ [LF] @
     ''        </button>'' @ [LF]\<close>

definition t_mount_disabled :: string where
  \<open>t_mount_disabled =
     ''            <button class="btn btn-sm btn-success" disabled'' @ [LF] @
     ''                    title="Already mounted inside guest">'' @ [LF] @
     ''                '' @ [CHR 0xE2, CHR 0xAC, CHR 0x86, CHR 0xEF, CHR 0xB8, CHR 0x8F] @ '' Mounted'' @ [LF] @
     ''            </button>'' @ [LF]\<close>

definition t_mount :: string where
  \<open>t_mount =
     ''            <button class="btn btn-sm btn-success"'' @ [LF] @
     ''                    hx-post="/api/vms/%s/shared-folders/%s/mount"'' @ [LF] @
     ''                    hx-target="#folder-notification-persistent"'' @ [LF] @
     ''                    hx-swap="innerHTML"'' @ [LF] @
     ''                    hx-confirm="Mount %s inside the guest VM?"'' @ [LF] @
     ''                    title="Mount inside guest via QEMU Guest Agent">'' @ [LF] @
     ''                '' @ [CHR 0xE2, CHR 0xAC, CHR 0x86, CHR 0xEF, CHR 0xB8, CHR 0x8F] @ '' Mount'' @ [LF] @
     ''            </button>'' @ [LF]\<close>

definition t_unmount :: string where
  \<open>t_unmount =
     ''            <button class="btn btn-sm btn-warning"'' @ [LF] @
     ''                    hx-post="/api/vms/%s/shared-folders/%s/unmount"'' @ [LF] @
     ''                    hx-target="#folder-notification-persistent"'' @ [LF] @
     ''                    hx-swap="innerHTML"'' @ [LF] @
     ''                    hx-confirm="Unmount %s from the guest VM?"'' @ [LF] @
     ''                    title="Unmount inside guest via QEMU Guest Agent">'' @ [LF] @
     ''                '' @ [CHR 0xE2, CHR 0xAC, CHR 0x87, CHR 0xEF, CHR 0xB8, CHR 0x8F] @ '' Unmount'' @ [LF] @
     ''            </button>'' @ [LF]\<close>

definition t_unmount_disabled :: string where
  \<open>t_unmount_disabled =
     ''            <button class="btn btn-sm btn-warning" disabled'' @ [LF] @
     ''                    title="Not currently mounted">'' @ [LF] @
     ''                '' @ [CHR 0xE2, CHR 0xAC, CHR 0x87, CHR 0xEF, CHR 0xB8, CHR 0x8F] @ '' Unmount'' @ [LF] @
     ''            </button>'' @ [LF]\<close>

definition t_add_title :: string where
  \<open>t_add_title =
     ''        <h3>Add Shared Folder</h3>'' @ [LF]\<close>

definition t_add_form :: string where
  \<open>t_add_form =
     ''        <form hx-post="/api/vms/%s/shared-folders"'' @ [LF] @
     ''              hx-target="#folder-notification-persistent"'' @ [LF] @
     ''              hx-swap="innerHTML"'' @ [LF] @
     ''              hx-on::after-request="this.closest(\'.modal-overlay\').remove()">'' @ [LF]\<close>

definition t_add_source :: string where
  \<open>t_add_source =
     ''            <div class="form-group">'' @ [LF] @
     ''                <label class="form-label">Source Directory (host path)</label>'' @ [LF] @
     ''                <div class="input-with-button">'' @ [LF] @
     ''                    <input class="form-input" name="source_dir" id="sf-source-dir"'' @ [LF] @
     ''                           placeholder="/home/user/Documents" required'' @ [LF] @
     ''                           oninput="var p=this.value.replace(/'' @ [BACKSLASH] @ ''/$/,'' @ [SQUOTE, SQUOTE] @ ''); '' @
     ''var n=p.split(\'/\').pop()||\'share\'; '' @
     ''document.getElementById(\'sf-mount-tag\').value=\'sf_\'+n.replace(/[^a-zA-Z0-9_-]/g,\'_\');">'' @ [LF] @
     ''                    <button type="button" class="btn btn-sm" onclick="openDirBrowser()">Browse...</button>'' @ [LF] @
     ''                </div>'' @ [LF] @
     ''                <small class="form-hint">Full path on the host machine (e.g. /home/user/Downloads)</small>'' @ [LF] @
     ''            </div>'' @ [LF]\<close>

definition t_add_tag :: string where
  \<open>t_add_tag =
     ''            <div class="form-group">'' @ [LF] @
     ''                <label class="form-label">Mount Tag</label>'' @ [LF] @
     ''                <input class="form-input" name="mount_tag" id="sf-mount-tag"'' @ [LF] @
     ''                       placeholder="sf_Downloads" required>'' @ [LF] @
     ''                <small class="form-hint">Auto-generated from directory name. Used to mount inside VM.</small>'' @ [LF] @
     ''            </div>'' @ [LF]\<close>

definition t_add_type :: string where
  \<open>t_add_type =
     ''            <div class="form-group">'' @ [LF] @
     ''                <label class="form-label">Filesystem Type</label>'' @ [LF] @
     ''                <select class="form-select" name="fs_type">'' @ [LF] @
     ''                    <option value="virtiofs">virtiofs</option>'' @ [LF] @
     ''                    <option value="9p">9p</option>'' @ [LF] @
     ''                </select>'' @ [LF] @
     ''            </div>'' @ [LF]\<close>

definition t_add_ro :: string where
  \<open>t_add_ro =
     ''            <div class="form-group">'' @ [LF] @
     ''                <label class="form-label">'' @ [LF] @
     ''                    <input type="checkbox" name="read_only" value="1"> Read Only'' @ [LF] @
     ''                </label>'' @ [LF] @
     ''            </div>'' @ [LF]\<close>

definition t_add_actions :: string where
  \<open>t_add_actions =
     ''            <div class="form-actions">'' @ [LF] @
     ''                <button type="submit" class="btn btn-primary">Add Folder</button>'' @ [LF] @
     ''                <button type="button" class="btn btn-ghost"'' @ [LF] @
     ''                        onclick="this.closest(\'.modal-overlay\').remove()">Cancel</button>'' @ [LF] @
     ''            </div>'' @ [LF]\<close>

definition t_dir_open :: string where
  \<open>t_dir_open =
     ''<div class="dir-browser">'' @ [LF]\<close>

definition t_dir_path :: string where
  \<open>t_dir_path =
     ''    <div class="dir-current-path">'' @ [CHR 0xF0, CHR 0x9F, CHR 0x93, CHR 0x81] @ '' %s</div>'' @ [LF]\<close>

definition t_dir_list :: string where
  \<open>t_dir_list =
     ''    <div class="dir-list">'' @ [LF]\<close>

definition t_dir_entry :: string where
  \<open>t_dir_entry =
     ''        <div class="dir-entry" '' @
     ''hx-get="/api/browse?path=%s" '' @
     ''hx-target="#dir-browser-content" '' @
     ''hx-swap="innerHTML">'' @
     ''%s %s</div>'' @ [LF]\<close>

definition t_dir_up_icon :: string where
  \<open>t_dir_up_icon =
     [CHR 0xE2, CHR 0xAC, CHR 0x86, CHR 0xEF, CHR 0xB8, CHR 0x8F]\<close>

definition t_dir_icon :: string where
  \<open>t_dir_icon =
     [CHR 0xF0, CHR 0x9F, CHR 0x93, CHR 0x82]\<close>

definition t_dir_actions :: string where
  \<open>t_dir_actions =
     ''    <div class="dir-actions">'' @ [LF] @
     ''        <button class="btn btn-primary" '' @
     ''onclick="selectDirectory(&#39;%s&#39;)">Select This Folder</button>'' @ [LF] @
     ''        <button class="btn btn-ghost" '' @
     ''onclick="document.getElementById(&#39;dir-browser-modal&#39;).remove()">Cancel</button>'' @ [LF] @
     ''    </div>'' @ [LF]\<close>

definition t_success :: string where
  \<open>t_success =
     ''<div class="alert alert-success">'' @ [CHR 0xE2, CHR 0x9C, CHR 0x93] @ '' %s</div>''\<close>

definition t_error :: string where
  \<open>t_error =
     ''<div class="alert alert-error">'' @ [CHR 0xE2, CHR 0x9C, CHR 0x97] @ '' %s</div>''\<close>

definition t_orphan_open :: string where
  \<open>t_orphan_open =
     ''<div class="orphan-warning">'' @ [LF] @
     ''  <div class="orphan-header">'' @ [LF] @
     ''    <span class="orphan-icon">'' @ [CHR 0xE2, CHR 0x9A, CHR 0xA0, CHR 0xEF, CHR 0xB8, CHR 0x8F] @ ''</span>'' @ [LF]\<close>

definition t_orphan_count :: string where
  \<open>t_orphan_count =
     ''    <strong>Found %d orphaned snapshot%s in disk files</strong>'' @ [LF]\<close>

definition t_orphan_list :: string where
  \<open>t_orphan_list =
     ''  </div>'' @ [LF] @
     ''  <p class="orphan-detail">These waste disk space and may cause naming '' @
     ''conflicts when creating new snapshots.</p>'' @ [LF] @
     ''  <details class="orphan-list-details">'' @ [LF] @
     ''    <summary>Show orphan names</summary>'' @ [LF] @
     ''    <ul class="orphan-list">'' @ [LF]\<close>

definition t_orphan_item :: string where
  \<open>t_orphan_item =
     ''      <li>%s</li>'' @ [LF]\<close>

definition t_orphan_close :: string where
  \<open>t_orphan_close =
     ''    </ul>'' @ [LF] @
     ''  </details>'' @ [LF]\<close>

definition t_orphan_button :: string where
  \<open>t_orphan_button =
     ''  <button class="btn btn-sm btn-warning"'' @ [LF] @
     ''          hx-post="/api/vms/%s/orphan-cleanup"'' @ [LF] @
     ''          hx-target="#orphan-check"'' @ [LF] @
     ''          hx-swap="innerHTML"'' @ [LF] @
     ''          hx-confirm="Delete %d orphaned snapshot%s from disk files?">'' @ [LF] @
     ''    '' @ [CHR 0xF0, CHR 0x9F, CHR 0xA7, CHR 0xB9] @ '' Clean Up'' @ [LF] @
     ''  </button>'' @ [LF] @
     ''</div>'' @ [LF]\<close>

definition t_agent_open :: string where
  \<open>t_agent_open =
     ''<div class="alert alert-error">'' @ [LF] @
     ''  <strong>'' @ [CHR 0xE2, CHR 0x9C, CHR 0x97] @ '' ''\<close>

definition t_agent_failed :: string where
  \<open>t_agent_failed =
     ''Failed to %s</strong>''\<close>

definition t_agent_detail :: string where
  \<open>t_agent_detail =
     ''<br><code style="font-size:0.85em">%s</code>''\<close>

definition t_agent_intro :: string where
  \<open>t_agent_intro =
     ''<br><br>'' @
     ''  This feature uses the <strong>QEMU Guest Agent</strong> to run commands '' @
     ''inside the VM. The guest agent must be installed and running in the guest OS.'' @ [LF] @
     ''  <br><br>'' @ [LF]\<close>

definition t_agent_details :: string where
  \<open>t_agent_details =
     ''  <details%s>'' @ [LF]\<close>

definition t_agent_linux :: string where
  \<open>t_agent_linux =
     ''    <summary><strong>'' @ [CHR 0xF0, CHR 0x9F, CHR 0x90, CHR 0xA7] @ '' Linux</strong></summary>'' @ [LF] @
     ''    <div style="padding:8px 0 4px 16px">'' @ [LF] @
     ''      <details>'' @ [LF] @
     ''        <summary>Fedora / RHEL / CentOS</summary>'' @ [LF] @
     ''        <pre style="margin:4px 0">sudo dnf install qemu-guest-agent'' @ [LF] @
     ''sudo systemctl enable --now qemu-guest-agent</pre>'' @ [LF] @
     ''      </details>'' @ [LF] @
     ''      <details>'' @ [LF] @
     ''        <summary>Ubuntu / Debian</summary>'' @ [LF] @
     ''        <pre style="margin:4px 0">sudo apt install qemu-guest-agent'' @ [LF] @
     ''sudo systemctl enable --now qemu-guest-agent</pre>'' @ [LF] @
     ''      </details>'' @ [LF] @
     ''      <details>'' @ [LF] @
     ''        <summary>Arch Linux</summary>'' @ [LF] @
     ''        <pre style="margin:4px 0">sudo pacman -S qemu-guest-agent'' @ [LF] @
     ''sudo systemctl enable --now qemu-guest-agent</pre>'' @ [LF] @
     ''      </details>'' @ [LF] @
     ''      <details>'' @ [LF] @
     ''        <summary>Alpine Linux</summary>'' @ [LF] @
     ''        <pre style="margin:4px 0">apk add qemu-guest-agent'' @ [LF] @
     ''rc-update add qemu-guest-agent'' @ [LF] @
     ''rc-service qemu-guest-agent start</pre>'' @ [LF] @
     ''      </details>'' @ [LF] @
     ''      <details>'' @ [LF] @
     ''        <summary>openSUSE</summary>'' @ [LF] @
     ''        <pre style="margin:4px 0">sudo zypper install qemu-guest-agent'' @ [LF] @
     ''sudo systemctl enable --now qemu-guest-agent</pre>'' @ [LF] @
     ''      </details>'' @ [LF] @
     ''    </div>'' @ [LF] @
     ''  </details>'' @ [LF]\<close>

definition t_agent_windows :: string where
  \<open>t_agent_windows =
     ''    <summary><strong>'' @ [CHR 0xF0, CHR 0x9F, CHR 0xAA, CHR 0x9F] @ '' Windows</strong></summary>'' @ [LF] @
     ''    <div style="padding:8px 0 4px 16px">'' @ [LF] @
     ''      Download and install the <a href="https://fedorapeople.org/groups/virt/virtio-win/direct-downloads/stable-virtio/" '' @
     ''target="_blank">VirtIO guest tools (virtio-win)</a>.<br>'' @ [LF] @
     ''      The QEMU Guest Agent is included in the installer.'' @ [LF] @
     ''    </div>'' @ [LF] @
     ''  </details>'' @ [LF]\<close>

definition t_agent_freebsd :: string where
  \<open>t_agent_freebsd =
     ''    <summary><strong>'' @ [CHR 0xF0, CHR 0x9F, CHR 0x98, CHR 0x88] @ '' FreeBSD</strong></summary>'' @ [LF] @
     ''    <div style="padding:8px 0 4px 16px">'' @ [LF] @
     ''      <pre style="margin:4px 0">pkg install qemu-guest-agent'' @ [LF] @
     ''sysrc qemu_guest_agent_enable=YES'' @ [LF] @
     ''service qemu-guest-agent start</pre>'' @ [LF] @
     ''    </div>'' @ [LF] @
     ''  </details>'' @ [LF] @
     ''  <br>'' @ [LF] @
     ''  <details>'' @ [LF] @
     ''    <summary><strong>'' @ [CHR 0xF0, CHR 0x9F, CHR 0x94, CHR 0x92] @ '' SELinux issue?</strong> (Fedora/RHEL)</summary>'' @ [LF] @
     ''    <div style="padding:8px 0 4px 16px">'' @ [LF] @
     ''      If the agent is installed but operations still fail, SELinux may be blocking it:'' @ [LF] @
     ''      <pre style="margin:4px 0">sudo semanage permissive -a virt_qemu_ga_t</pre>'' @ [LF] @
     ''      Requires: <code>sudo dnf install policycoreutils-python-utils</code>'' @ [LF] @
     ''    </div>'' @ [LF] @
     ''  </details>'' @ [LF] @
     ''</div>'' @ [LF]\<close>

end
