(* ===== verification/Json.thy ===== *)
theory Json
  imports Prelude
begin

text \<open>
  The values of the JSON library (jansson) as the program builds and reads them. The printer and
  the parser of the library are parameters of the definitions that use them, and so is its UTF-8
  check: \<open>json_string\<close> gives NULL for a text that is not valid UTF-8, and \<open>json_object_set_new\<close>
  with a NULL value leaves the object as it was.
\<close>

datatype json =
    JNull
  | JBool bool
  | JInt int
  | JReal
  | JString string
  | JArray "json list"
  | JObject "(string \<times> json) list"

type_synonym utf8_check = "string \<Rightarrow> bool"

definition json_string :: "utf8_check \<Rightarrow> string \<Rightarrow> json option" where
  "json_string utf8 s = (if utf8 s then Some (JString s) else None)"

definition json_object :: json where
  "json_object = JObject []"

definition json_is_object :: "json \<Rightarrow> bool" where
  "json_is_object j = (case j of JObject _ \<Rightarrow> True | _ \<Rightarrow> False)"

definition json_string_value :: "json option \<Rightarrow> string option" where
  "json_string_value j = (case j of Some (JString s) \<Rightarrow> Some s | _ \<Rightarrow> None)"

text \<open>Setting a key replaces its value where the object has the key, and appends it otherwise.\<close>

fun assoc_set :: "'k \<Rightarrow> 'v \<Rightarrow> ('k \<times> 'v) list \<Rightarrow> ('k \<times> 'v) list" where
  "assoc_set k v [] = [(k, v)]"
| "assoc_set k v ((k', v') # ps) =
     (if k = k' then (k, v) # ps else (k', v') # assoc_set k v ps)"

definition json_object_set_new :: "string \<Rightarrow> json option \<Rightarrow> json \<Rightarrow> json" where
  "json_object_set_new k v obj =
     (case (v, obj) of (Some v, JObject ps) \<Rightarrow> JObject (assoc_set k v ps) | _ \<Rightarrow> obj)"

definition json_object_get :: "json \<Rightarrow> string \<Rightarrow> json option" where
  "json_object_get obj k = (case obj of JObject ps \<Rightarrow> map_of ps k | _ \<Rightarrow> None)"

lemma map_of_assoc_set: "map_of (assoc_set k v ps) = (map_of ps)(k \<mapsto> v)"
  by (induction k v ps rule: assoc_set.induct) (auto simp: fun_eq_iff)

lemma keys_assoc_set: "set (map fst (assoc_set k v ps)) = insert k (set (map fst ps))"
  by (induction k v ps rule: assoc_set.induct) auto

lemma distinct_assoc_set: "distinct (map fst ps) \<Longrightarrow> distinct (map fst (assoc_set k v ps))"
  by (induction k v ps rule: assoc_set.induct) (auto simp: keys_assoc_set[simplified])

lemma json_object_get_set:
  "json_object_get (json_object_set_new k (Some v) (JObject ps)) k' =
     (if k' = k then Some v else json_object_get (JObject ps) k')"
  by (simp add: json_object_get_def json_object_set_new_def map_of_assoc_set)

lemma json_object_set_new_None [simp]: "json_object_set_new k None obj = obj"
  by (simp add: json_object_set_new_def)

lemma json_object_set_new_Some [simp]:
  "json_object_set_new k (Some v) (JObject ps) = JObject (assoc_set k v ps)"
  by (simp add: json_object_set_new_def)

end
