(* ===== verification/Snapshot.thy ===== *)
theory Snapshot
  imports Util Json "HOL-Library.Multiset"
begin

text \<open>
  src/snapshot.c and src/snapshot.h: the snapshot tree. Nodes live in a heap, a list whose index is
  the address, because the code links them by pointers and adds children to nodes that are already
  in the tree. The recursive functions take fuel, the depth to which they may descend; \<open>None\<close> is
  running out of it, which the refinement lemmas exclude for every heap that holds a tree.
\<close>

section \<open>Nodes and the heap\<close>

datatype snap_type = SNAP_INTERNAL | SNAP_EXTERNAL | SNAP_CURRENT_STATE

type_synonym addr = nat

record snapshot_node =
  node_id :: "string option"
  node_description :: "string option"
  node_creation_time :: "string option"
  node_type :: snap_type
  is_current :: bool
  is_dirty :: bool
  parent :: "addr option"
  children :: "addr list"
  child_capacity :: nat

type_synonym heap = "snapshot_node list"

definition INITIAL_CHILD_CAPACITY :: nat where
  "INITIAL_CHILD_CAPACITY = 4"

text \<open>A new node goes at the end of the heap; the result is its address.\<close>

definition snapshot_node_new ::
  "string option \<Rightarrow> string option \<Rightarrow> string option \<Rightarrow> snap_type \<Rightarrow> bool \<Rightarrow> heap \<Rightarrow> addr \<times> heap" where
  "snapshot_node_new i desc time ty cur h =
     (length h,
      h @ [\<lparr>node_id = i, node_description = desc, node_creation_time = time, node_type = ty,
            is_current = cur, is_dirty = False, parent = None, children = [],
            child_capacity = INITIAL_CHILD_CAPACITY\<rparr>])"

definition snapshot_node_add_child :: "addr \<Rightarrow> addr \<Rightarrow> heap \<Rightarrow> heap" where
  "snapshot_node_add_child p c h =
     (let n = h ! p;
          cap = (if length (children n) = child_capacity n then child_capacity n * 2
                 else child_capacity n);
          h1 = h[p := n\<lparr>children := children n @ [c], child_capacity := cap\<rparr>]
      in h1[c := (h1 ! c)\<lparr>parent := Some p\<rparr>])"

section \<open>Traversals\<close>

text \<open>The loop of the recursive searches: the first child that yields something.\<close>

fun first_found :: "('a \<Rightarrow> 'b option option) \<Rightarrow> 'a list \<Rightarrow> 'b option option" where
  "first_found f [] = Some None"
| "first_found f (x # xs) =
     (case f x of None \<Rightarrow> None
      | Some (Some y) \<Rightarrow> Some (Some y)
      | Some None \<Rightarrow> first_found f xs)"

fun snapshot_tree_find :: "nat \<Rightarrow> heap \<Rightarrow> addr \<Rightarrow> string option \<Rightarrow> addr option option" where
  "snapshot_tree_find 0 h root i = None"
| "snapshot_tree_find (Suc k) h root i =
     (if i = None then Some None
      else if str_eq (node_id (h ! root)) i then Some (Some root)
      else first_found (\<lambda>c. snapshot_tree_find k h c i) (children (h ! root)))"

text \<open>Running a fallible action on every element, in order.\<close>

fun traverse :: "('a \<Rightarrow> 'b option) \<Rightarrow> 'a list \<Rightarrow> 'b list option" where
  "traverse f [] = Some []"
| "traverse f (x # xs) =
     (case f x of None \<Rightarrow> None
      | Some y \<Rightarrow> (case traverse f xs of None \<Rightarrow> None | Some ys \<Rightarrow> Some (y # ys)))"

fun snapshot_tree_count :: "nat \<Rightarrow> heap \<Rightarrow> addr \<Rightarrow> nat option" where
  "snapshot_tree_count 0 h root = None"
| "snapshot_tree_count (Suc k) h root =
     map_option (\<lambda>ns. 1 + sum_list ns)
       (traverse (snapshot_tree_count k h) (children (h ! root)))"

text \<open>The addresses \<open>snapshot_tree_free\<close> releases, in the order it does: children first.\<close>

fun snapshot_tree_free :: "nat \<Rightarrow> heap \<Rightarrow> addr \<Rightarrow> addr list option" where
  "snapshot_tree_free 0 h root = None"
| "snapshot_tree_free (Suc k) h root =
     map_option (\<lambda>fs. concat fs @ [root])
       (traverse (snapshot_tree_free k h) (children (h ! root)))"

definition or_empty :: "string option \<Rightarrow> string" where
  "or_empty s = (case s of None \<Rightarrow> [] | Some t \<Rightarrow> t)"

definition snap_type_str :: "snap_type \<Rightarrow> string" where
  "snap_type_str t =
     (case t of SNAP_INTERNAL \<Rightarrow> ''internal'' | SNAP_EXTERNAL \<Rightarrow> ''external''
      | SNAP_CURRENT_STATE \<Rightarrow> ''current-state'')"

definition node_fields :: "utf8_check \<Rightarrow> snapshot_node \<Rightarrow> json" where
  "node_fields utf8 n =
     (let o1 = json_object_set_new ''id'' (json_string utf8 (or_empty (node_id n))) json_object;
          o2 = json_object_set_new ''name'' (json_string utf8 (or_empty (node_id n))) o1;
          o3 = json_object_set_new ''description''
                 (json_string utf8 (or_empty (node_description n))) o2;
          o4 = json_object_set_new ''date''
                 (json_string utf8 (or_empty (node_creation_time n))) o3;
          o5 = json_object_set_new ''type'' (json_string utf8 (snap_type_str (node_type n))) o4;
          o6 = json_object_set_new ''isCurrent'' (Some (JBool (is_current n))) o5
      in if node_type n = SNAP_CURRENT_STATE
         then json_object_set_new ''isDirty'' (Some (JBool (is_dirty n))) o6 else o6)"

fun node_to_json :: "utf8_check \<Rightarrow> nat \<Rightarrow> heap \<Rightarrow> addr \<Rightarrow> json option" where
  "node_to_json utf8 0 h a = None"
| "node_to_json utf8 (Suc k) h a =
     map_option
       (\<lambda>js. json_object_set_new ''children'' (Some (JArray js)) (node_fields utf8 (h ! a)))
       (traverse (node_to_json utf8 k h) (children (h ! a)))"

definition snapshot_tree_to_json ::
  "utf8_check \<Rightarrow> (json \<Rightarrow> string option) \<Rightarrow> nat \<Rightarrow> heap \<Rightarrow> addr \<Rightarrow> string option option" where
  "snapshot_tree_to_json utf8 dumps k h root = map_option dumps (node_to_json utf8 k h root)"

section \<open>The current-state node\<close>

text \<open>
  The stack of the depth-first search, top first. It has 256 slots and the code stops pushing when
  255 are in use.
\<close>

fun push_children :: "addr list \<Rightarrow> addr list \<Rightarrow> addr list" where
  "push_children [] st = st"
| "push_children (c # cs) st =
     (if length st < 255 then push_children cs (c # st) else st)"

fun find_current :: "nat \<Rightarrow> heap \<Rightarrow> addr list \<Rightarrow> addr option option" where
  "find_current k h [] = Some None"
| "find_current 0 h (n # st) = None"
| "find_current (Suc k) h (n # st) =
     (if is_current (h ! n) then Some (Some n)
      else find_current k h (push_children (children (h ! n)) st))"

text \<open>
  The first loop asks \<open>snapshot_tree_find\<close> for the NULL name in every child of the root and keeps
  the last answer.
\<close>

fun find_null_loop :: "nat \<Rightarrow> heap \<Rightarrow> addr list \<Rightarrow> addr option \<Rightarrow> addr option option" where
  "find_null_loop k h [] cur = Some cur"
| "find_null_loop k h (c # cs) cur =
     (case snapshot_tree_find k h c None of None \<Rightarrow> None
      | Some r \<Rightarrow> find_null_loop k h cs r)"

definition current_node :: "nat \<Rightarrow> heap \<Rightarrow> addr \<Rightarrow> addr option option" where
  "current_node k h root =
     (case (if is_current (h ! root) then Some (Some root)
            else find_null_loop k h (children (h ! root)) None) of
        None \<Rightarrow> None
      | Some (Some cur) \<Rightarrow> Some (Some cur)
      | Some None \<Rightarrow> find_current k h [root])"

definition current_state_desc :: "string \<Rightarrow> bool \<Rightarrow> string" where
  "current_state_desc st dirty =
     snprintf_buf 128 (if dirty then st @ '' (modified)'' else st)"

definition snapshot_tree_add_current_state ::
  "nat \<Rightarrow> heap \<Rightarrow> addr \<Rightarrow> string \<Rightarrow> bool \<Rightarrow> heap option" where
  "snapshot_tree_add_current_state k h root vm_state dirty =
     (case current_node k h root of
        None \<Rightarrow> None
      | Some None \<Rightarrow> Some h
      | Some (Some cur) \<Rightarrow>
          let (s, h1) = snapshot_node_new (Some ''__current_state__'')
                (Some (current_state_desc vm_state dirty)) (Some []) SNAP_CURRENT_STATE False h;
              h2 = h1[s := (h1 ! s)\<lparr>is_dirty := dirty\<rparr>]
          in Some (snapshot_node_add_child cur s h2))"

section \<open>The trees a heap holds\<close>

datatype atree = ANode (root_of: addr) (subtrees: "atree list")

fun addrs :: "atree \<Rightarrow> addr list" where
  "addrs (ANode a ts) = a # concat (map addrs ts)"

fun postorder :: "atree \<Rightarrow> addr list" where
  "postorder (ANode a ts) = concat (map postorder ts) @ [a]"

fun height :: "atree \<Rightarrow> nat" where
  "height (ANode a ts) = Suc (foldr max (map height ts) 0)"

fun holds :: "heap \<Rightarrow> atree \<Rightarrow> bool" where
  "holds h (ANode a ts) \<longleftrightarrow>
     a < length h \<and> children (h ! a) = map root_of ts \<and> (\<forall>t\<in>set ts. holds h t)"

fun json_of :: "utf8_check \<Rightarrow> heap \<Rightarrow> atree \<Rightarrow> json" where
  "json_of utf8 h (ANode a ts) =
     json_object_set_new ''children'' (Some (JArray (map (json_of utf8 h) ts)))
       (node_fields utf8 (h ! a))"

lemma height_child: "t \<in> set ts \<Longrightarrow> height (ANode a ts) \<le> Suc k \<Longrightarrow> height t \<le> k"
proof -
  have "t \<in> set ts \<Longrightarrow> height t \<le> foldr max (map height ts) 0" by (induction ts) auto
  then show "t \<in> set ts \<Longrightarrow> height (ANode a ts) \<le> Suc k \<Longrightarrow> height t \<le> k" by auto
qed

lemma height_pos: "0 < height t"
  by (cases t) simp

lemma root_in_addrs: "root_of t \<in> set (addrs t)"
  by (cases t) simp

lemma length_addrs_pos: "0 < length (addrs t)"
  by (cases t) simp

lemma height_le_length_addrs: "height t \<le> length (addrs t)"
proof (induction t)
  case (ANode a ts)
  have "foldr max (map height ts) 0 \<le> length (concat (map addrs ts))"
    using ANode.IH by (induction ts) (auto, fastforce)
  then show ?case by simp
qed

lemma mset_postorder: "mset (postorder t) = mset (addrs t)"
proof (induction t)
  case (ANode a ts)
  have "mset (concat (map postorder ts)) = mset (concat (map addrs ts))"
    using ANode.IH by (induction ts) auto
  then show ?case by simp
qed

lemma holds_addrs: "holds h t \<Longrightarrow> a \<in> set (addrs t) \<Longrightarrow> a < length h"
  by (induction h t rule: holds.induct) auto

lemma traverse_map:
  "(\<And>t. t \<in> set ts \<Longrightarrow> f (r t) = Some (g t)) \<Longrightarrow> traverse f (map r ts) = Some (map g ts)"
  by (induction ts) auto

lemma first_found_map:
  "(\<And>t. t \<in> set ts \<Longrightarrow> f (r t) = Some (find P (g t))) \<Longrightarrow>
   first_found f (map r ts) = Some (find P (concat (map g ts)))"
proof (induction ts)
  case (Cons t ts)
  have "find P (xs @ ys) = (case find P xs of None \<Rightarrow> find P ys | Some y \<Rightarrow> Some y)" for xs ys
    by (induction xs) auto
  with Cons show ?case by (auto split: option.splits)
qed simp

lemma snapshot_tree_find_refines:
  "holds h t \<Longrightarrow> height t \<le> k \<Longrightarrow>
   snapshot_tree_find k h (root_of t) (Some i) = Some (find (\<lambda>a. node_id (h ! a) = Some i) (addrs t))"
proof (induction t arbitrary: k)
  case (ANode a ts)
  then obtain k' where k: "k = Suc k'" by (cases k) auto
  have "first_found (\<lambda>c. snapshot_tree_find k' h c (Some i)) (map root_of ts)
      = Some (find (\<lambda>a. node_id (h ! a) = Some i) (concat (map addrs ts)))"
    using ANode k by (intro first_found_map ANode.IH) (auto dest: height_child simp del: height.simps)
  with ANode.prems k show ?case by (simp add: str_eq_iff)
qed

lemma snapshot_tree_find_NULL: "0 < k \<Longrightarrow> snapshot_tree_find k h a None = Some None"
  by (cases k) auto

lemma snapshot_tree_count_refines:
  "holds h t \<Longrightarrow> height t \<le> k \<Longrightarrow> snapshot_tree_count k h (root_of t) = Some (length (addrs t))"
proof (induction t arbitrary: k)
  case (ANode a ts)
  then obtain k' where k: "k = Suc k'" by (cases k) auto
  have "traverse (snapshot_tree_count k' h) (map root_of ts) = Some (map (\<lambda>t. length (addrs t)) ts)"
    using ANode k by (intro traverse_map ANode.IH) (auto dest: height_child simp del: height.simps)
  with ANode.prems k show ?case by (simp add: length_concat comp_def)
qed

lemma snapshot_tree_free_refines:
  "holds h t \<Longrightarrow> height t \<le> k \<Longrightarrow> snapshot_tree_free k h (root_of t) = Some (postorder t)"
proof (induction t arbitrary: k)
  case (ANode a ts)
  then obtain k' where k: "k = Suc k'" by (cases k) auto
  have "traverse (snapshot_tree_free k' h) (map root_of ts) = Some (map postorder ts)"
    using ANode k by (intro traverse_map ANode.IH) (auto dest: height_child simp del: height.simps)
  with ANode.prems k show ?case by simp
qed

lemma node_to_json_refines:
  "holds h t \<Longrightarrow> height t \<le> k \<Longrightarrow> node_to_json utf8 k h (root_of t) = Some (json_of utf8 h t)"
proof (induction t arbitrary: k)
  case (ANode a ts)
  then obtain k' where k: "k = Suc k'" by (cases k) auto
  have "traverse (node_to_json utf8 k' h) (map root_of ts) = Some (map (json_of utf8 h) ts)"
    using ANode k by (intro traverse_map ANode.IH) (auto dest: height_child simp del: height.simps)
  with ANode.prems k show ?case by simp
qed

section \<open>The search for the current node\<close>

lemma push_children_take: "push_children cs st = rev (take (255 - length st) cs) @ st"
proof (induction cs arbitrary: st)
  case (Cons c cs)
  show ?case
  proof (cases "length st < 255")
    case True
    then have "255 - length st = Suc (255 - length (c # st))" by simp
    with True Cons.IH[of "c # st"] show ?thesis by simp
  qed simp
qed simp

definition weight :: "atree list \<Rightarrow> nat" where
  "weight ts = sum_list (map (\<lambda>t. length (addrs t)) ts)"

lemma length_le_weight: "length ts \<le> weight ts"
proof (induction ts)
  case (Cons t ts)
  have "1 \<le> length (addrs t)" by (cases t) simp
  with Cons show ?case by (simp add: weight_def del: length_greater_0_conv)
qed simp

lemma weight_simps:
  "weight [] = 0" "weight (ANode a us # ts) = Suc (weight us + weight ts)"
  "weight (rev us @ ts) = weight us + weight ts"
  by (simp_all add: weight_def length_concat comp_def rev_map[symmetric] sum_list_rev)

text \<open>
  On a stack of trees with at most 256 nodes in all the search never hits its limit: it finds a
  current node if the trees have one, and says so if they have none.
\<close>

lemma find_current_correct:
  assumes "\<forall>t\<in>set ts. holds h t" "weight ts \<le> 256" "weight ts \<le> k"
  shows "\<exists>r. find_current k h (map root_of ts) = Some r \<and>
    (case r of None \<Rightarrow> \<forall>t\<in>set ts. \<forall>a\<in>set (addrs t). \<not> is_current (h ! a)
     | Some a \<Rightarrow> is_current (h ! a) \<and> (\<exists>t\<in>set ts. a \<in> set (addrs t)))"
  using assms
proof (induction k arbitrary: ts)
  case 0
  with length_le_weight[of ts] show ?case by simp
next
  case (Suc k)
  show ?case
  proof (cases ts)
    case Nil
    then show ?thesis by simp
  next
    case (Cons t ts')
    obtain a us where t: "t = ANode a us" by (cases t)
    show ?thesis
    proof (cases "is_current (h ! a)")
      case True
      with Cons t show ?thesis by simp
    next
      case False
      have w: "weight (rev us @ ts') \<le> 255" "weight (rev us @ ts') \<le> k"
        using Suc.prems Cons t by (auto simp: weight_simps)
      have "length us + length ts' \<le> 255"
        using length_le_weight[of "rev us @ ts'"] w by simp
      then have push: "push_children (map root_of us) (map root_of ts') = map root_of (rev us @ ts')"
        by (simp add: push_children_take rev_map)
      have "\<forall>t\<in>set (rev us @ ts'). holds h t" using Suc.prems Cons t by auto
      with Suc.IH[of "rev us @ ts'"] w obtain r where
        r: "find_current k h (map root_of (rev us @ ts')) = Some r"
        "case r of None \<Rightarrow> \<forall>t\<in>set (rev us @ ts'). \<forall>a\<in>set (addrs t). \<not> is_current (h ! a)
         | Some a \<Rightarrow> is_current (h ! a) \<and> (\<exists>t\<in>set (rev us @ ts'). a \<in> set (addrs t))"
        by auto
      have "children (h ! a) = map root_of us" using Suc.prems Cons t by simp
      with r(1) push False Cons t have "find_current (Suc k) h (map root_of ts) = Some r" by simp
      with r(2) False show ?thesis
        by (intro exI[of _ r]) (auto simp: Cons t split: option.splits)
    qed
  qed
qed

text \<open>The search ends on every heap that holds trees, and finds only nodes of them.\<close>

lemma weight_rev_take: "weight (rev (take m us) @ ts) \<le> weight us + weight ts"
proof -
  have "weight us = weight (take m us @ drop m us)" by simp
  then show ?thesis unfolding weight_def map_append sum_list_append rev_map[symmetric] sum_list_rev
    by (simp add: sum_list_rev flip: rev_map)
qed

lemma find_current_total:
  "\<forall>t\<in>set ts. holds h t \<Longrightarrow> weight ts \<le> k \<Longrightarrow>
   \<exists>r. find_current k h (map root_of ts) = Some r \<and>
     (\<forall>a. r = Some a \<longrightarrow> (\<exists>t\<in>set ts. a \<in> set (addrs t)))"
proof (induction k arbitrary: ts)
  case 0
  with length_le_weight[of ts] show ?case by simp
next
  case (Suc k)
  show ?case
  proof (cases ts)
    case Nil
    then show ?thesis by simp
  next
    case (Cons t ts')
    obtain a us where t: "t = ANode a us" by (cases t)
    show ?thesis
    proof (cases "is_current (h ! a)")
      case True
      with Cons t show ?thesis by simp
    next
      case False
      define vs where "vs = rev (take (255 - length ts') us) @ ts'"
      have sub: "set vs \<subseteq> set us \<union> set ts'" by (auto simp: vs_def dest: in_set_takeD)
      have w: "weight vs \<le> k"
        using weight_rev_take[of "255 - length ts'" us ts'] Suc.prems Cons t
        by (simp add: vs_def weight_simps)
      have push: "push_children (map root_of us) (map root_of ts') = map root_of vs"
        by (simp add: vs_def push_children_take rev_map take_map)
      have "\<forall>t\<in>set vs. holds h t" using sub Suc.prems Cons t by auto
      from Suc.IH[OF this w] obtain r where
        r: "find_current k h (map root_of vs) = Some r"
          "\<forall>a. r = Some a \<longrightarrow> (\<exists>t\<in>set vs. a \<in> set (addrs t))" by blast
      have "children (h ! a) = map root_of us" using Suc.prems Cons t by simp
      with r(1) push False Cons t have "find_current (Suc k) h (map root_of ts) = Some r" by simp
      with r(2) sub show ?thesis by (intro exI[of _ r]) (simp add: Cons t, blast)
    qed
  qed
qed

text \<open>Without the bound on the size, what the search returns is still a current node of the trees.\<close>

lemma find_current_sound:
  "find_current k h st = Some (Some a) \<Longrightarrow> is_current (h ! a)"
  by (induction k h st rule: find_current.induct) (auto split: if_splits)

section \<open>Well-formed heaps\<close>

text \<open>
  The child array is never overrun and can always be doubled, and every child of a node is a node
  whose parent pointer leads back.
\<close>

definition node_ok :: "snapshot_node \<Rightarrow> bool" where
  "node_ok n \<longleftrightarrow> length (children n) \<le> child_capacity n \<and> 0 < child_capacity n"

definition heap_ok :: "heap \<Rightarrow> bool" where
  "heap_ok h \<longleftrightarrow> (\<forall>p<length h. node_ok (h ! p) \<and>
     (\<forall>c\<in>set (children (h ! p)). c < length h \<and> parent (h ! c) = Some p))"

lemma heap_ok_Nil: "heap_ok []"
  by (simp add: heap_ok_def)

lemma snapshot_node_new_ok: "heap_ok h \<Longrightarrow> heap_ok (snd (snapshot_node_new i d t ty cur h))"
  by (auto simp: heap_ok_def node_ok_def snapshot_node_new_def INITIAL_CHILD_CAPACITY_def
      nth_append less_Suc_eq)

lemma length_add_child [simp]: "length (snapshot_node_add_child p c h) = length h"
  by (simp add: snapshot_node_add_child_def Let_def)

lemma nth_add_child:
  assumes "p < length h" "c < length h" "p \<noteq> c"
  shows "snapshot_node_add_child p c h ! a =
    (if a = c then (h ! c)\<lparr>parent := Some p\<rparr>
     else if a = p then (h ! p)\<lparr>children := children (h ! p) @ [c],
       child_capacity := (if length (children (h ! p)) = child_capacity (h ! p)
         then child_capacity (h ! p) * 2 else child_capacity (h ! p))\<rparr>
     else h ! a)"
  using assms by (auto simp: snapshot_node_add_child_def Let_def nth_list_update)

text \<open>
  Adding a child keeps the heap well formed when the new child has no parent yet.
\<close>

lemma snapshot_node_add_child_ok:
  assumes ok: "heap_ok h" and b: "p < length h" "c < length h" "p \<noteq> c"
    and fresh: "parent (h ! c) = None"
  shows "heap_ok (snapshot_node_add_child p c h)"
  unfolding heap_ok_def
proof (intro allI impI)
  fix q assume "q < length (snapshot_node_add_child p c h)"
  then have q: "q < length h" by simp
  have no: "c \<notin> set (children (h ! r))" if "r < length h" for r
    using ok fresh that by (auto simp: heap_ok_def)
  show "node_ok (snapshot_node_add_child p c h ! q) \<and>
    (\<forall>d\<in>set (children (snapshot_node_add_child p c h ! q)).
       d < length (snapshot_node_add_child p c h) \<and>
       parent (snapshot_node_add_child p c h ! d) = Some q)"
    using ok q no[OF q] b unfolding heap_ok_def node_ok_def
    by (auto simp: nth_add_child)
qed

fun attach :: "addr \<Rightarrow> addr \<Rightarrow> atree \<Rightarrow> atree" where
  "attach p c (ANode a ts) =
     ANode a (map (attach p c) ts @ (if a = p then [ANode c []] else []))"

lemma root_of_attach [simp]: "root_of (attach p c t) = root_of t"
  by (cases t) simp

lemma holds_add_child:
  assumes "p < length h" "c < length h" "p \<noteq> c" "children (h ! c) = []"
  shows "holds h t \<Longrightarrow> c \<notin> set (addrs t) \<Longrightarrow>
    holds (snapshot_node_add_child p c h) (attach p c t)"
proof (induction t)
  case (ANode a ts)
  have "\<forall>t\<in>set ts. holds (snapshot_node_add_child p c h) (attach p c t)"
    using ANode by auto
  moreover have "holds (snapshot_node_add_child p c h) (ANode c [])"
    using assms by (simp add: nth_add_child)
  ultimately show ?case
    using ANode.prems assms by (auto simp: nth_add_child comp_def)
qed

lemma holds_append: "holds h t \<Longrightarrow> holds (h @ h') t"
  by (induction t) (auto simp: nth_append)

lemma find_null_loop_None: "0 < k \<Longrightarrow> find_null_loop k h cs None = Some None"
  by (induction cs) (auto simp: snapshot_tree_find_NULL)

lemma current_node_correct:
  assumes "holds h t" "length (addrs t) \<le> 256" "length (addrs t) \<le> k"
  shows "\<exists>r. current_node k h (root_of t) = Some r \<and>
    (case r of None \<Rightarrow> \<forall>a\<in>set (addrs t). \<not> is_current (h ! a)
     | Some a \<Rightarrow> is_current (h ! a) \<and> a \<in> set (addrs t))"
proof (cases "is_current (h ! root_of t)")
  case True
  then show ?thesis by (auto simp: current_node_def root_in_addrs)
next
  case False
  have k: "0 < k" using assms(3) length_addrs_pos[of t] by linarith
  from find_current_correct[of "[t]" h k] assms show ?thesis
    using False by (auto simp: current_node_def find_null_loop_None[OF k] weight_def split: option.splits)
qed

definition the_state_node :: "string \<Rightarrow> bool \<Rightarrow> addr \<Rightarrow> snapshot_node" where
  "the_state_node vm_state dirty cur =
     \<lparr>node_id = Some ''__current_state__'',
      node_description = Some (current_state_desc vm_state dirty), node_creation_time = Some [],
      node_type = SNAP_CURRENT_STATE, is_current = False, is_dirty = dirty, parent = Some cur,
      children = [], child_capacity = 4\<rparr>"

lemma add_current_state_Some:
  assumes "current_node k h root = Some (Some cur)" "cur < length h"
  shows "snapshot_tree_add_current_state k h root vm_state dirty =
    Some (snapshot_node_add_child cur (length h)
      (h @ [(the_state_node vm_state dirty cur)\<lparr>parent := None\<rparr>]))"
  using assms
  by (simp add: snapshot_tree_add_current_state_def snapshot_node_new_def the_state_node_def
      INITIAL_CHILD_CAPACITY_def)

lemma heap_ok_snoc:
  "heap_ok h \<Longrightarrow> children n = [] \<Longrightarrow> 0 < child_capacity n \<Longrightarrow> heap_ok (h @ [n])"
  by (auto simp: heap_ok_def node_ok_def nth_append less_Suc_eq)

lemma add_current_state_attach:
  assumes "current_node k h (root_of t) = Some (Some cur)" "cur < length h" "holds h t" "heap_ok h"
  shows "\<exists>h'. snapshot_tree_add_current_state k h (root_of t) vm_state dirty = Some h' \<and>
    heap_ok h' \<and> holds h' (attach cur (length h) t) \<and>
    h' ! length h = the_state_node vm_state dirty cur"
proof (intro exI conjI)
  let ?n = "(the_state_node vm_state dirty cur)\<lparr>parent := None\<rparr>"
  let ?h = "snapshot_node_add_child cur (length h) (h @ [?n])"
  show "snapshot_tree_add_current_state k h (root_of t) vm_state dirty = Some ?h"
    by (rule add_current_state_Some[OF assms(1,2)])
  have b: "cur < length (h @ [?n])" "length h < length (h @ [?n])" "cur \<noteq> length h"
    using assms(2) by auto
  show "heap_ok ?h"
    using assms by (intro snapshot_node_add_child_ok b heap_ok_snoc) (auto simp: the_state_node_def)
  have "length h \<notin> set (addrs t)" using holds_addrs[OF assms(3)] by auto
  then show "holds ?h (attach cur (length h) t)"
    using holds_append[OF assms(3)] b
    by (intro holds_add_child) (auto simp: the_state_node_def)
  show "?h ! length h = the_state_node vm_state dirty cur"
    using b by (simp add: nth_add_child the_state_node_def)
qed

lemma height_le_iff: "height (ANode a ts) \<le> Suc k \<longleftrightarrow> (\<forall>t\<in>set ts. height t \<le> k)"
  by (induction ts) auto

lemma height_attach: "height (attach p c t) \<le> Suc (height t)"
proof (induction t)
  case (ANode a ts)
  have "height t \<le> foldr max (map height ts) 0" if "t \<in> set ts" for t
    using height_child[OF that, of a "foldr max (map height ts) 0"] by simp
  with ANode have "height (attach p c t) \<le> Suc (foldr max (map height ts) 0)" if "t \<in> set ts" for t
    using that by fastforce
  then show ?case by (auto simp: height_le_iff simp del: height.simps) simp_all
qed

lemma add_current_state_total:
  assumes "holds h t" "heap_ok h" "length (addrs t) \<le> k"
  shows "\<exists>h' t'. snapshot_tree_add_current_state k h (root_of t) vm_state dirty = Some h' \<and>
    holds h' t' \<and> root_of t' = root_of t \<and> height t' \<le> Suc (height t) \<and> length h \<le> length h'"
proof -
  have k: "0 < k" using assms(3) length_addrs_pos[of t] by linarith
  have "\<exists>r. current_node k h (root_of t) = Some r \<and> (\<forall>a. r = Some a \<longrightarrow> a \<in> set (addrs t))"
    using find_current_total[of "[t]" h k] assms
    by (auto simp: current_node_def find_null_loop_None[OF k] weight_def root_in_addrs)
  then obtain r where r: "current_node k h (root_of t) = Some r" "\<forall>a. r = Some a \<longrightarrow> a \<in> set (addrs t)"
    by blast
  show ?thesis
  proof (cases r)
    case None
    with r assms show ?thesis
      by (intro exI[of _ h] exI[of _ t]) (simp add: snapshot_tree_add_current_state_def)
  next
    case (Some a)
    with r have a: "current_node k h (root_of t) = Some (Some a)" "a < length h"
      using holds_addrs[OF assms(1)] by auto
    from add_current_state_attach[OF a assms(1,2)] obtain h' where
      "snapshot_tree_add_current_state k h (root_of t) vm_state dirty = Some h'"
      "holds h' (attach a (length h) t)" by blast
    moreover from this(1) add_current_state_Some[OF a, of vm_state dirty] have "length h' = Suc (length h)"
      by auto
    ultimately show ?thesis using height_attach by (intro exI[of _ h'] exI[of _ "attach a (length h) t"]) auto
  qed
qed

text \<open>The new node is the only one added, and no other node changes its name.\<close>

lemma attach_notin: "p \<notin> set (addrs t) \<Longrightarrow> attach p c t = t"
  by (induction t) (auto simp: map_idI)

lemma map_attach_notin: "p \<notin> set (concat (map addrs ts)) \<Longrightarrow> map (attach p c) ts = ts"
  by (rule map_idI) (auto intro: attach_notin)

lemma mset_attach:
  "distinct (addrs t) \<Longrightarrow> p \<in> set (addrs t) \<Longrightarrow> mset (addrs (attach p c t)) = add_mset c (mset (addrs t))"
proof (induction t)
  case (ANode a ts)
  show ?case
  proof (cases "p = a")
    case True
    with ANode.prems(1) have "map (attach p c) ts = ts" by (intro map_attach_notin) simp
    with True show ?thesis by simp
  next
    case False
    with ANode.prems(2) obtain t where "t \<in> set ts" "p \<in> set (addrs t)" by auto
    then obtain us vs where ts: "ts = us @ t # vs" by (auto dest: split_list)
    with ANode.prems(1) \<open>p \<in> set (addrs t)\<close> have
      out: "p \<notin> set (concat (map addrs us))" "p \<notin> set (concat (map addrs vs))" and "distinct (addrs t)"
      by auto
    with ANode.IH[of t] \<open>p \<in> set (addrs t)\<close> ts have
      "mset (addrs (attach p c t)) = add_mset c (mset (addrs t))" by simp
    with False show ?thesis by (simp add: ts map_attach_notin[OF out(1)] map_attach_notin[OF out(2)])
  qed
qed

lemma add_current_state_ids:
  assumes "current_node k h root = Some (Some cur)" "cur < length h"
    "snapshot_tree_add_current_state k h root vm_state dirty = Some h'"
  shows "a < length h \<Longrightarrow> node_id (h' ! a) = node_id (h ! a)"
    "node_id (h' ! length h) = Some ''__current_state__''"
  using add_current_state_Some[OF assms(1,2)] assms(2,3)
  by (auto simp: nth_add_child nth_append the_state_node_def)

section \<open>Reading the served document back\<close>

text \<open>
  What a client sees: the names of the nodes of a served tree, parents before their children.
\<close>

fun json_names :: "json \<Rightarrow> string list" where
  "json_names (JObject ps) =
     (case map_of ps ''id'' of Some (JString s) \<Rightarrow> [s] | _ \<Rightarrow> []) @
     concat (map (\<lambda>(k, v). if k = ''children'' then
        (case v of JArray js \<Rightarrow> concat (map json_names js) | _ \<Rightarrow> []) else []) ps)"
| "json_names _ = []"

definition fields_ok :: "json option \<Rightarrow> json \<Rightarrow> bool" where
  "fields_ok i obj \<longleftrightarrow> (\<exists>ps. obj = JObject ps \<and> ''children'' \<notin> set (map fst ps) \<and>
     distinct (map fst ps) \<and> map_of ps ''id'' = i)"

lemma fields_ok_id: "fields_ok v (json_object_set_new ''id'' v json_object)"
  by (cases v) (simp_all add: fields_ok_def json_object_def)

lemma fields_ok_set:
  "fields_ok i obj \<Longrightarrow> k \<noteq> ''id'' \<Longrightarrow> k \<noteq> ''children'' \<Longrightarrow> fields_ok i (json_object_set_new k v obj)"
  by (cases v) (auto simp: fields_ok_def keys_assoc_set[simplified] distinct_assoc_set map_of_assoc_set)

lemma node_fields_ok: "fields_ok (json_string utf8 (or_empty (node_id n))) (node_fields utf8 n)"
  unfolding node_fields_def Let_def
  by (auto intro!: fields_ok_set fields_ok_id)

lemma assoc_set_new: "k \<notin> set (map fst ps) \<Longrightarrow> assoc_set k v ps = ps @ [(k, v)]"
  by (induction ps) auto

lemma concat_map_Nil: "(\<And>x. x \<in> set xs \<Longrightarrow> f x = []) \<Longrightarrow> concat (map f xs) = []"
  by (induction xs) auto

lemma json_names_json_of:
  "(\<And>a. a \<in> set (addrs t) \<Longrightarrow> utf8 (or_empty (node_id (h ! a)))) \<Longrightarrow>
   json_names (json_of utf8 h t) = map (\<lambda>a. or_empty (node_id (h ! a))) (addrs t)"
proof (induction t)
  case (ANode a ts)
  obtain ps where ps: "node_fields utf8 (h ! a) = JObject ps" "''children'' \<notin> set (map fst ps)"
    "map_of ps ''id'' = json_string utf8 (or_empty (node_id (h ! a)))"
    using node_fields_ok[of utf8 "h ! a"] unfolding fields_ok_def by blast
  have "json_names (json_of utf8 h t) = map (\<lambda>a. or_empty (node_id (h ! a))) (addrs t)"
    if "t \<in> set ts" for t
    using ANode.prems that by (intro ANode.IH) auto
  then have "concat (map json_names (map (json_of utf8 h) ts))
      = concat (map (\<lambda>t. map (\<lambda>a. or_empty (node_id (h ! a))) (addrs t)) ts)"
    by (auto intro!: arg_cong[of _ _ concat])
  moreover have "concat (map (\<lambda>(k, v). if k = ''children'' then
      (case v of JArray js \<Rightarrow> concat (map json_names js) | _ \<Rightarrow> []) else []) ps) = []"
    using ps(2) by (intro concat_map_Nil) force
  ultimately show ?case
    using ps ANode.prems[of a]
    by (simp add: assoc_set_new json_string_def map_concat comp_def)
qed

section \<open>Properties\<close>

text \<open>A heap with three snapshots: \<open>base\<close>, its child \<open>work\<close>, which is current, and a second child.\<close>

definition demo_heap :: heap where
  "demo_heap =
     (let (a, h1) = snapshot_node_new (Some ''base'') (Some []) (Some []) SNAP_INTERNAL False [];
          (b, h2) = snapshot_node_new (Some ''work'') (Some []) (Some []) SNAP_EXTERNAL True h1;
          (c, h3) = snapshot_node_new (Some ''old'') (Some []) (Some []) SNAP_INTERNAL False h2
      in snapshot_node_add_child a c (snapshot_node_add_child a b h3))"

definition demo_tree :: atree where
  "demo_tree = ANode 0 [ANode 1 [], ANode 2 []]"

lemma demo_holds: "holds demo_heap demo_tree" "heap_ok demo_heap"
  by (simp_all add: demo_heap_def demo_tree_def snapshot_node_new_def snapshot_node_add_child_def
      Let_def heap_ok_def node_ok_def INITIAL_CHILD_CAPACITY_def All_less_Suc numeral_2_eq_2)

lemma demo_addrs: "addrs demo_tree = [0, 1, 2]" "height demo_tree = 2" "root_of demo_tree = 0"
  by (simp_all add: demo_tree_def)

lemma demo_nodes:
  "map node_id demo_heap = [Some ''base'', Some ''work'', Some ''old'']"
  "map is_current demo_heap = [False, True, False]" "length demo_heap = 3"
  "is_current (demo_heap ! 0) = False" "is_current (demo_heap ! Suc 0) = True"
  "is_current (demo_heap ! 2) = False" "node_id (demo_heap ! 0) = Some ''base''"
  "node_id (demo_heap ! Suc 0) = Some ''work''" "node_id (demo_heap ! 2) = Some ''old''"
  by (simp_all add: demo_heap_def snapshot_node_new_def snapshot_node_add_child_def Let_def)

text \<open>C23: for every heap that holds a tree, and fuel of at least its height,
  \<open>snapshot_tree_find\<close> returns the first node in depth-first order that carries the name, and NULL
  exactly when no node of the tree does.\<close>

theorem snapshot_tree_find_first:
  assumes "holds h t" "height t \<le> k"
  shows "snapshot_tree_find k h (root_of t) (Some i) =
    Some (find (\<lambda>a. node_id (h ! a) = Some i) (addrs t)) \<and>
    (snapshot_tree_find k h (root_of t) (Some i) = Some None \<longleftrightarrow>
       (\<forall>a\<in>set (addrs t). node_id (h ! a) \<noteq> Some i))"
  using snapshot_tree_find_refines[OF assms] by (auto simp: find_None_iff)

theorem snapshot_tree_find_first_witness:
  "snapshot_tree_find 2 demo_heap 0 (Some ''old'') = Some (Some 2)"
  using snapshot_tree_find_first[of demo_heap demo_tree 2 "''old''"]
  by (simp add: demo_holds demo_addrs demo_nodes)

text \<open>C24: the document that \<open>node_to_json\<close> builds names every node of the tree exactly once, parents
  before children and siblings in their order, provided the names are valid UTF-8; and
  \<open>snapshot_tree_count\<close> is the number of them.\<close>

theorem snapshot_json_names:
  assumes "holds h t" "height t \<le> k"
    and "\<forall>a\<in>set (addrs t). utf8 (or_empty (node_id (h ! a)))"
  shows "\<exists>j. node_to_json utf8 k h (root_of t) = Some j \<and>
    json_names j = map (\<lambda>a. or_empty (node_id (h ! a))) (addrs t) \<and>
    snapshot_tree_count k h (root_of t) = Some (length (json_names j))"
  using node_to_json_refines[OF assms(1,2), of utf8] snapshot_tree_count_refines[OF assms(1,2)]
    json_names_json_of[of t utf8 h] assms(3)
  by auto

theorem snapshot_json_names_witness:
  "\<exists>j. node_to_json (\<lambda>_. True) 2 demo_heap 0 = Some j \<and>
     json_names j = [''base'', ''work'', ''old''] \<and> snapshot_tree_count 2 demo_heap 0 = Some 3"
  using snapshot_json_names[of demo_heap demo_tree 2 "\<lambda>_. True"]
  by (auto simp: demo_holds demo_addrs demo_nodes or_empty_def)

text \<open>C22: on a well-formed heap that holds a tree of at most 256 nodes,
  \<open>snapshot_tree_add_current_state\<close> adds one node, as the last child of a node that is current, with
  the text of the VM state and the dirty flag; the heap stays well formed (the child array of the
  node is grown before it overflows). When no node is current the heap is unchanged.\<close>

theorem current_state_attached:
  assumes "holds h t" "heap_ok h" "length (addrs t) \<le> 256" "length (addrs t) \<le> k"
  shows "if \<exists>a\<in>set (addrs t). is_current (h ! a)
    then \<exists>a h'. a \<in> set (addrs t) \<and> is_current (h ! a) \<and>
      snapshot_tree_add_current_state k h (root_of t) vm_state dirty = Some h' \<and> heap_ok h' \<and>
      holds h' (attach a (length h) t) \<and> h' ! length h = the_state_node vm_state dirty a
    else snapshot_tree_add_current_state k h (root_of t) vm_state dirty = Some h"
proof -
  from current_node_correct[OF assms(1,3,4)] obtain r where
    r: "current_node k h (root_of t) = Some r"
      "case r of None \<Rightarrow> \<forall>a\<in>set (addrs t). \<not> is_current (h ! a)
       | Some a \<Rightarrow> is_current (h ! a) \<and> a \<in> set (addrs t)" by blast
  show ?thesis
  proof (cases r)
    case None
    with r show ?thesis by (simp add: snapshot_tree_add_current_state_def)
  next
    case (Some a)
    with r have a: "is_current (h ! a)" "a \<in> set (addrs t)" by auto
    from add_current_state_attach[of k h t a] holds_addrs[OF assms(1) a(2)] r Some assms(1,2) a
    show ?thesis by auto
  qed
qed

theorem current_state_attached_witness:
  "\<exists>h'. snapshot_tree_add_current_state 3 demo_heap 0 ''running'' True = Some h' \<and>
     holds h' (ANode 0 [ANode 1 [ANode 3 []], ANode 2 []]) \<and>
     node_description (h' ! 3) = Some ''running (modified)''"
proof -
  have "length demo_heap = 3" by (simp add: demo_nodes)
  obtain a h' where a: "a \<in> set (addrs demo_tree)" "is_current (demo_heap ! a)"
    and h': "snapshot_tree_add_current_state 3 demo_heap 0 ''running'' True = Some h'"
      "holds h' (attach a 3 demo_tree)" "h' ! 3 = the_state_node ''running'' True a"
    using current_state_attached[of demo_heap demo_tree 3 "''running''" True]
    by (auto simp: demo_holds demo_addrs demo_nodes simp del: holds.simps attach.simps)
  from a have "a = 1" by (auto simp: demo_addrs demo_nodes)
  with h' show ?thesis
    by (intro exI[of _ h'])
      (simp add: demo_tree_def the_state_node_def current_state_desc_def snprintf_buf_def)
qed

text \<open>The limit of the search's stack is real. When the root is not current and its children
  are leaves, only the first 255 of them are looked at (the last of these first), so a current node
  that comes later is missed and the tree is shown without its current state.\<close>

theorem flat_tree_search_limit:
  assumes "\<not> is_current (h ! root)" "children (h ! root) = cs"
    "\<forall>c\<in>set cs. children (h ! c) = []" "256 \<le> k"
  shows "current_node k h root = Some (find (\<lambda>c. is_current (h ! c)) (rev (take 255 cs)))"
proof -
  have leaves: "find_current k h st = Some (find (\<lambda>c. is_current (h ! c)) st)"
    if "length st \<le> k" "\<forall>c\<in>set st. children (h ! c) = []" for k st
    using that
  proof (induction st arbitrary: k)
    case (Cons c st)
    then show ?case by (cases k) auto
  qed simp
  obtain k' where k: "k = Suc k'" "255 \<le> k'" using assms(4) by (cases k) auto
  have "\<forall>c\<in>set (rev (take 255 cs)). children (h ! c) = []"
    using assms(3) by (auto dest: in_set_takeD)
  with leaves[of "rev (take 255 cs)" k'] k have
    "find_current k h [root] = Some (find (\<lambda>c. is_current (h ! c)) (rev (take 255 cs)))"
    using assms by (simp add: push_children_take)
  then show ?thesis
    using assms k by (simp add: current_node_def find_null_loop_None)
qed

text \<open>A root with 255 idle snapshots and a current one after them.\<close>

definition wide_node :: "bool \<Rightarrow> addr list \<Rightarrow> snapshot_node" where
  "wide_node cur cs =
     \<lparr>node_id = Some ''s'', node_description = None, node_creation_time = None,
      node_type = SNAP_INTERNAL, is_current = cur, is_dirty = False, parent = None,
      children = cs, child_capacity = 256\<rparr>"

definition wide_heap :: heap where
  "wide_heap = wide_node False [1..<257] # replicate 255 (wide_node False []) @ [wide_node True []]"

lemma wide_heap_nth:
  "wide_heap ! 0 = wide_node False [1..<257]"
  "1 \<le> c \<Longrightarrow> c < 256 \<Longrightarrow> wide_heap ! c = wide_node False []"
  "wide_heap ! 256 = wide_node True []"
  by (auto simp: wide_heap_def nth_Cons' nth_append)

theorem flat_tree_search_limit_witness:
  "is_current (wide_heap ! 256) \<and> 256 \<in> set (children (wide_heap ! 0)) \<and>
   current_node 256 wide_heap 0 = Some None"
proof -
  have "wide_heap ! c = wide_node False []" if "c \<in> set [1..<256]" for c
    using that by (auto intro: wide_heap_nth)
  then have none: "find (\<lambda>c. is_current (wide_heap ! c)) (rev [1..<256]) = None"
    by (auto simp: find_None_iff wide_node_def)
  have "\<forall>c\<in>set [1..<257]. children (wide_heap ! c) = []"
  proof
    fix c assume "c \<in> set [1..<257::nat]"
    then have "c = 256 \<or> 1 \<le> c \<and> c < 256" by auto
    then show "children (wide_heap ! c) = []"
      using wide_heap_nth(2)[of c] wide_heap_nth(3) by (auto simp: wide_node_def)
  qed
  moreover have "take 255 [1..<257] = [1..<256::nat]" by (simp add: take_upt)
  ultimately have "current_node 256 wide_heap 0
      = Some (find (\<lambda>c. is_current (wide_heap ! c)) (rev [1..<256]))"
    using flat_tree_search_limit[of wide_heap 0 "[1..<257]" 256]
    by (simp add: wide_heap_nth wide_node_def)
  with none show ?thesis by (simp add: wide_heap_nth wide_node_def)
qed

end
