(* ===== verification/Backend.thy ===== *)
theory Backend
  imports Snapshot
begin

text \<open>
  src/vm_backend.h and src/vm_backend.c: the data types that the backends, the routes and the
  dirty-state tracker share, the table of backend operations, and the registry of the active one.
\<close>

datatype vm_state = VM_RUNNING | VM_PAUSED | VM_SHUTOFF | VM_OTHER

definition vm_state_str :: "vm_state \<Rightarrow> string" where
  "vm_state_str s =
     (case s of VM_RUNNING \<Rightarrow> ''running'' | VM_PAUSED \<Rightarrow> ''paused''
      | VM_SHUTOFF \<Rightarrow> ''shut off'' | VM_OTHER \<Rightarrow> ''other'')"

record vm_info =
  vm_name :: string
  vm_uuid :: string
  vm_state_of :: vm_state
  vm_vcpus :: int
  vm_memory_kb :: nat

record shared_folder =
  sf_source_dir :: string
  sf_mount_tag :: string
  sf_fs_type :: string
  sf_read_only :: bool
  sf_mounted :: int
  sf_needs_restart :: bool

datatype guest_os =
    GUEST_OS_LINUX_SYSTEMD | GUEST_OS_LINUX_OPENRC | GUEST_OS_LINUX_OTHER | GUEST_OS_WINDOWS
  | GUEST_OS_FREEBSD | GUEST_OS_MACOS | GUEST_OS_UNKNOWN

lemma vm_state_str_inj: "vm_state_str s = vm_state_str t \<Longrightarrow> s = t"
  by (cases s; cases t) (simp_all add: vm_state_str_def)

section \<open>The table of operations\<close>

text \<open>
  A backend works on a state \<open>'s\<close>. An operation that lists gives \<open>None\<close> for a non-zero result; the
  operations that the routes test for NULL are optional. Freeing a list has no effect in the model.
\<close>

record 's vm_backend =
  be_name :: string
  be_connect :: "string \<Rightarrow> 's \<Rightarrow> int \<times> 's"
  be_disconnect :: "'s \<Rightarrow> 's"
  be_list_vms :: "'s \<Rightarrow> vm_info list option \<times> 's"
  be_vm_start :: "string \<Rightarrow> 's \<Rightarrow> int \<times> 's"
  be_vm_stop :: "string \<Rightarrow> 's \<Rightarrow> int \<times> 's"
  be_vm_force_stop :: "(string \<Rightarrow> 's \<Rightarrow> int \<times> 's) option"
  be_vm_pause :: "string \<Rightarrow> 's \<Rightarrow> int \<times> 's"
  be_vm_resume :: "(string \<Rightarrow> 's \<Rightarrow> int \<times> 's) option"
  be_list_snapshots :: "string \<Rightarrow> 's \<Rightarrow> (addr option \<times> heap) option \<times> 's"
  be_create_snapshot :: "string \<Rightarrow> string \<Rightarrow> string \<Rightarrow> snap_type \<Rightarrow> 's \<Rightarrow> int \<times> 's"
  be_delete_snapshot :: "string \<Rightarrow> string \<Rightarrow> bool \<Rightarrow> 's \<Rightarrow> int \<times> 's"
  be_revert_snapshot :: "string \<Rightarrow> string \<Rightarrow> 's \<Rightarrow> int \<times> 's"
  be_merge_snapshot :: "string \<Rightarrow> string \<Rightarrow> 's \<Rightarrow> int \<times> 's"
  be_list_shared_folders :: "string \<Rightarrow> 's \<Rightarrow> shared_folder list option \<times> 's"
  be_add_shared_folder :: "string \<Rightarrow> string \<Rightarrow> string \<Rightarrow> bool \<Rightarrow> string \<Rightarrow> 's \<Rightarrow> int \<times> 's"
  be_remove_shared_folder :: "string \<Rightarrow> string \<Rightarrow> 's \<Rightarrow> int \<times> 's"
  be_mount_shared_folder :: "(string \<Rightarrow> string \<Rightarrow> string \<Rightarrow> 's \<Rightarrow> int \<times> 's) option"
  be_unmount_shared_folder :: "(string \<Rightarrow> string \<Rightarrow> 's \<Rightarrow> int \<times> 's) option"
  be_check_mount_status :: "(string \<Rightarrow> shared_folder list \<Rightarrow> 's \<Rightarrow> shared_folder list \<times> 's) option"
  be_check_automount_status :: "(string \<Rightarrow> 's \<Rightarrow> int \<times> 's) option"
  be_setup_automount :: "(string \<Rightarrow> 's \<Rightarrow> (int \<times> string option) \<times> 's) option"
  be_detect_guest_os :: "(string \<Rightarrow> 's \<Rightarrow> guest_os \<times> 's) option"

text \<open>The registry: one variable, NULL at the start.\<close>

type_synonym 's registry = "'s vm_backend option"

definition backend_get :: "'s registry \<Rightarrow> 's vm_backend option" where
  "backend_get r = r"

definition backend_set :: "'s vm_backend option \<Rightarrow> 's registry \<Rightarrow> 's registry" where
  "backend_set be r = be"

end
