(* ===== verification/Html_Render.thy ===== *)
theory Html_Render
  imports Html_Text Html_Templates Backend Snapshot
begin

text \<open>
  The renderers of src/html_render.c. Each is the concatenation of the texts it appends to its
  string builder, in the code's order; the growing-buffer theorems of \<open>Html_Text\<close> say that this is
  what the builder holds when its allocations succeed.
\<close>

definition state_css_class :: "vm_state \<Rightarrow> string" where
  "state_css_class s =
     (case s of VM_RUNNING \<Rightarrow> ''state-running'' | VM_PAUSED \<Rightarrow> ''state-paused''
      | VM_SHUTOFF \<Rightarrow> ''state-shutoff'' | VM_OTHER \<Rightarrow> ''state-other'')"

section \<open>Virtual machines\<close>

definition render_vm_actions :: "vm_state \<Rightarrow> string \<Rightarrow> string" where
  "render_vm_actions s n =
     (case s of
        VM_RUNNING \<Rightarrow> fmt t_vm_running [n, n, n, n]
      | VM_PAUSED \<Rightarrow> fmt t_vm_paused [n, n, n]
      | VM_SHUTOFF \<Rightarrow> fmt t_vm_shutoff [n]
      | VM_OTHER \<Rightarrow> fmt t_vm_other [n, n, n])"

definition render_vm_item :: "vm_info \<Rightarrow> string" where
  "render_vm_item vm =
     (let n = html_escape (Some (vm_name vm)) in
      concat
       [fmt t_vm_item
          [n, n, n, state_css_class (vm_state_of vm), vm_state_str (vm_state_of vm),
           dec_int (vm_vcpus vm), dec_nat (vm_memory_kb vm div 1024)],
        render_vm_actions (vm_state_of vm) n,
        fmt t_vm_close []])"

text \<open>A NULL element of the list is skipped.\<close>

definition render_vm_list :: "vm_info option list \<Rightarrow> string" where
  "render_vm_list vms =
     (if vms = [] then t_no_vms
      else concat (map (\<lambda>v. case v of None \<Rightarrow> [] | Some vm \<Rightarrow> render_vm_item vm) vms))"

section \<open>Snapshots\<close>

definition render_snapshot_detail :: "string option \<Rightarrow> snapshot_node option \<Rightarrow> vm_state \<Rightarrow> string" where
  "render_snapshot_detail vm snap st =
     (case snap of
        None \<Rightarrow> t_no_snapshot
      | Some n \<Rightarrow>
         (let active = (st = VM_RUNNING \<or> st = VM_PAUSED);
              v = html_escape vm; i = html_escape (node_id n);
              d = html_escape (node_description n); t = html_escape (node_creation_time n);
              cls = (if node_type n = SNAP_INTERNAL then ''badge-internal'' else ''badge-external'');
              badge = (if node_type n = SNAP_INTERNAL then ''Internal'' else ''External'')
          in concat
           [t_info_open,
            fmt t_info_title [i],
            t_info_meta,
            fmt t_info_badge [cls, badge],
            fmt t_info_date [t],
            t_div_close4,
            fmt t_info_desc [d],
            fmt t_edit_button [v, i],
            if is_current n then t_current_badge else [],
            t_actions_open,
            fmt t_revert_button [v, i],
            if active then fmt t_delete_disabled [] else fmt t_delete_button [v, i, i],
            if node_type n = SNAP_EXTERNAL
              then (if active then t_merge_disabled else fmt t_merge_button [v, i, i]) else [],
            t_div_close4,
            t_action_loading,
            t_div_close]))"

text \<open>\<open>nvram\<close> is the answer of the NVRAM check: 0 for raw, 1 for qcow2, -1 for none.\<close>

definition render_create_snapshot_form :: "string option \<Rightarrow> int \<Rightarrow> string" where
  "render_create_snapshot_form vm nvram =
     (let v = html_escape vm in
      concat
       [t_modal_open, t_modal_box, t_create_title,
        if nvram = 0 then fmt t_nvram_warning [v] else [],
        fmt t_create_form [v],
        t_create_name, t_create_desc, t_create_type, t_create_actions,
        t_form_close, t_div_close4, t_div_close])"

section \<open>Shared folders\<close>

definition render_folder_buttons :: "string \<Rightarrow> string \<Rightarrow> shared_folder \<Rightarrow> string" where
  "render_folder_buttons v tag f =
     (if sf_needs_restart f
      then concat [t_folder_restart, fmt t_detach [v, tag, tag]]
      else concat
       [if sf_mounted f = 1 then t_mount_disabled else fmt t_mount [v, tag, tag],
        if sf_mounted f = 1 then fmt t_unmount [v, tag, tag]
        else if sf_mounted f = 0 then t_unmount_disabled
        else fmt t_unmount [v, tag, tag],
        fmt t_detach [v, tag, tag]])"

definition render_folder_item :: "string \<Rightarrow> shared_folder \<Rightarrow> string" where
  "render_folder_item v f =
     (let tag = html_escape (Some (sf_mount_tag f)); path = html_escape (Some (sf_source_dir f)) in
      concat
       [t_folder_open, t_folder_header, fmt t_folder_icon [], t_folder_info,
        fmt t_folder_tag [tag],
        fmt t_folder_path [path, path],
        if sf_read_only f then t_folder_ro else [],
        if sf_mounted f = 1 then t_folder_mounted
        else if sf_mounted f = 0 then t_folder_unmounted else [],
        if sf_fs_type f = ''9p'' then fmt t_hint_9p [tag, tag, tag]
        else fmt t_hint_virtiofs [tag, tag, tag],
        t_div_close12, t_div_close8,
        t_folder_actions,
        render_folder_buttons v tag f,
        t_div_close8, t_div_close4])"

definition render_shared_folders :: "string option \<Rightarrow> shared_folder list \<Rightarrow> int \<Rightarrow> string" where
  "render_shared_folders vm folders automount =
     (if folders = [] then t_no_folders
      else
       (let v = html_escape vm in
        concat
         [t_folder_notification, t_automount_open,
          if automount = 1 then t_automount_active
          else if automount = 0 then fmt t_automount_setup [v] else [],
          t_div_close,
          t_folders_open,
          concat (map (render_folder_item v) folders),
          t_div_close]))"

definition render_add_shared_folder_form :: "string option \<Rightarrow> string" where
  "render_add_shared_folder_form vm =
     concat
      [t_modal_open, t_modal_box, t_add_title,
       fmt t_add_form [html_escape vm],
       t_add_source, t_add_tag, t_add_type, t_add_ro, t_add_actions,
       t_form_close, t_div_close4, t_div_close]"

section \<open>The directory browser\<close>

text \<open>The path that an entry of the listing leads to, in a buffer of 4096 bytes.\<close>

definition dir_entry_path :: "string \<Rightarrow> string \<Rightarrow> string" where
  "dir_entry_path cur e =
     (if e = ''..'' then
        (case strrchr cur (CHR ''/'') of
           Some slash \<Rightarrow>
             if length slash \<noteq> length cur then snprintf_buf 4096 (before cur slash)
             else snprintf_buf 4096 ''/''
         | None \<Rightarrow> snprintf_buf 4096 ''/'')
      else if cur = ''/'' then snprintf_buf 4096 (CHR ''/'' # e)
      else snprintf_buf 4096 (cur @ ''/'' @ e))"

definition render_dir_entry :: "string \<Rightarrow> string \<Rightarrow> string" where
  "render_dir_entry cur e =
     fmt t_dir_entry
       [url_encode (dir_entry_path cur e), if e = ''..'' then t_dir_up_icon else t_dir_icon,
        html_escape (Some e)]"

definition render_directory_listing :: "string \<Rightarrow> string list \<Rightarrow> string" where
  "render_directory_listing cur entries =
     concat
      [t_dir_open,
       fmt t_dir_path [html_escape (Some cur)],
       t_dir_list,
       concat (map (render_dir_entry cur) entries),
       t_div_close4,
       fmt t_dir_actions [html_escape (Some cur)],
       t_div_close]"

section \<open>Messages\<close>

definition render_success :: "string option \<Rightarrow> string" where
  "render_success message = fmt t_success [html_escape message]"

definition render_error :: "string option \<Rightarrow> string" where
  "render_error message = fmt t_error [html_escape message]"

definition render_error_html :: "string \<Rightarrow> string" where
  "render_error_html html = fmt t_error [html]"

definition render_orphan_warning :: "string option \<Rightarrow> string list \<Rightarrow> string" where
  "render_orphan_warning vm orphans =
     (if orphans = [] then []
      else
       (let plural = (if length orphans = 1 then [] else ''s'') in
        concat
         [t_orphan_open,
          fmt t_orphan_count [dec_nat (length orphans), plural],
          t_orphan_list,
          concat (map (\<lambda>o1. fmt t_orphan_item [html_escape (Some o1)]) orphans),
          t_orphan_close,
          fmt t_orphan_button [html_escape vm, dec_nat (length orphans), plural]]))"

text \<open>The detail is appended twice, as the code has it.\<close>

definition render_guest_agent_help :: "string option \<Rightarrow> string option \<Rightarrow> guest_os \<Rightarrow> string" where
  "render_guest_agent_help operation detail os =
     (let show_detail =
            (case detail of None \<Rightarrow> [] | Some d \<Rightarrow> fmt t_agent_detail [html_escape (Some d)]);
          linux_open = (os = GUEST_OS_LINUX_SYSTEMD \<or> os = GUEST_OS_LINUX_OPENRC \<or>
                        os = GUEST_OS_LINUX_OTHER);
          open_if = (\<lambda>b. if b then '' open'' else [])
      in concat
       [t_agent_open,
        fmt t_agent_failed [html_escape operation],
        show_detail,
        show_detail,
        t_agent_intro,
        fmt t_agent_details [open_if linux_open], t_agent_linux,
        fmt t_agent_details [open_if (os = GUEST_OS_WINDOWS)], t_agent_windows,
        fmt t_agent_details [open_if (os = GUEST_OS_FREEBSD)], t_agent_freebsd])"

section \<open>The markup of a page\<close>

text \<open>
  The bytes that open and close tags and attribute values. What they spell out in a rendered page is
  its structure.
\<close>

definition is_markup :: "char \<Rightarrow> bool" where
  "is_markup c \<longleftrightarrow> c \<in> {CHR ''<'', CHR ''>'', DQUOTE, SQUOTE}"

definition markup_of :: "string \<Rightarrow> string" where
  "markup_of s = filter is_markup s"

text \<open>The markup of a formatted text, from the markup of its arguments.\<close>

definition fmt_markup :: "string \<Rightarrow> string list \<Rightarrow> string" where
  "fmt_markup f ms = markup_of (fmt f ms)"

named_theorems markup_simps

lemma markup_of_fmt [markup_simps]: "markup_of (fmt f as) = fmt_markup f (map markup_of as)"
  unfolding fmt_markup_def markup_of_def by (rule filter_fmt_cong) (simp add: comp_def)

lemma markup_of_html_escape_loop [markup_simps]: "markup_of (html_escape_loop s) = []"
  by (auto simp: markup_of_def is_markup_def html_special_def intro!: html.filter_esc_empty)

lemma markup_of_html_escape [markup_simps]: "markup_of (html_escape s) = []"
  by (cases s) (simp_all add: markup_of_html_escape_loop, simp add: markup_of_def)

lemma markup_of_append [markup_simps]: "markup_of (a @ b) = markup_of a @ markup_of b"
  by (simp add: markup_of_def)

lemma markup_of_concat [markup_simps]: "markup_of (concat xs) = concat (map markup_of xs)"
  by (simp add: markup_of_def[abs_def] filter_concat)

lemma markup_of_Nil [markup_simps]: "markup_of [] = []"
  by (simp add: markup_of_def)

lemma markup_of_dec_nat [markup_simps]: "markup_of (dec_nat n) = []"
  by (auto simp: markup_of_def filter_empty_conv is_markup_def isdigit_def dest!: dec_nat_digits)

lemma markup_of_dec_int [markup_simps]: "markup_of (dec_int i) = []"
proof -
  have "markup_of (CHR ''-'' # s) = markup_of s" for s by (simp add: markup_of_def is_markup_def)
  then show ?thesis by (simp add: dec_int_def markup_of_dec_nat)
qed

lemma not_markup_url_encode1: "c \<in> set (url_encode1 d) \<Longrightarrow> \<not> is_markup c"
proof -
  have "\<not> is_markup (hex_upper n)" if "n < 16" for n
    using that by (auto simp: is_markup_def hex_upper_def char_of_eq_iff take_bit_nat_eq_self)
  moreover have "(of_char d :: nat) div 16 < 16" "(of_char d :: nat) mod 16 < 16"
    using of_char_less_256[of d] by (simp_all add: less_mult_imp_div_less)
  ultimately show "c \<in> set (url_encode1 d) \<Longrightarrow> \<not> is_markup c"
    by (auto simp: url_encode1_def url_unreserved_def is_markup_def split: if_splits)
qed

lemma markup_of_url_encode [markup_simps]: "markup_of (url_encode s) = []"
  by (induction s) (auto simp: markup_of_def filter_empty_conv dest: not_markup_url_encode1)

text \<open>
  The same data with every text emptied that a user, a guest or the host's file system chose.
\<close>

definition blank_vm :: "vm_info \<Rightarrow> vm_info" where
  "blank_vm vm = vm\<lparr>vm_name := [], vm_uuid := [], vm_vcpus := 0, vm_memory_kb := 0\<rparr>"

definition blank_snap :: "snapshot_node \<Rightarrow> snapshot_node" where
  "blank_snap n = n\<lparr>node_id := None, node_description := None, node_creation_time := None\<rparr>"

definition blank_folder :: "shared_folder \<Rightarrow> shared_folder" where
  "blank_folder f =
     f\<lparr>sf_source_dir := [], sf_mount_tag := [],
       sf_fs_type := (if sf_fs_type f = ''9p'' then ''9p'' else [])\<rparr>"

definition blank_entry :: "string \<Rightarrow> string" where
  "blank_entry e = (if e = ''..'' then ''..'' else [])"

lemma markup_of_vm_item: "markup_of (render_vm_item (blank_vm vm)) = markup_of (render_vm_item vm)"
  by (cases "vm_state_of vm")
    (simp_all add: render_vm_item_def render_vm_actions_def blank_vm_def Let_def markup_simps)

lemma markup_of_folder_item:
  "markup_of (render_folder_item v (blank_folder f)) =
   markup_of (render_folder_item (html_escape vm) f)" if "markup_of v = []"
  using that
  by (simp add: render_folder_item_def render_folder_buttons_def blank_folder_def Let_def markup_simps)

lemma markup_of_dir_entry:
  "markup_of (render_dir_entry cur' (blank_entry e)) = markup_of (render_dir_entry cur e)"
  by (simp add: render_dir_entry_def blank_entry_def markup_simps)

section \<open>Properties\<close>

text \<open>C25: no text of a virtual machine or a snapshot can add markup to the pages. The angle brackets
  and quotes of the machine list are those of the list for the same machines with their names
  emptied, and those of the snapshot panel are the ones it has for the same snapshot without name,
  description and date: whatever the texts, tags and attribute values begin and end where the
  program wrote them.\<close>

theorem vm_and_snapshot_markup:
  "markup_of (render_vm_list vms) = markup_of (render_vm_list (map (map_option blank_vm) vms)) \<and>
   markup_of (render_snapshot_detail vm snap st) =
     markup_of (render_snapshot_detail None (map_option blank_snap snap) st)"
proof
  let ?item = "\<lambda>v. case v of None \<Rightarrow> [] | Some vm \<Rightarrow> render_vm_item vm"
  have item: "markup_of (?item (map_option blank_vm v)) = markup_of (?item v)" for v
    by (cases v) (simp_all add: markup_of_vm_item)
  show "markup_of (render_vm_list vms) = markup_of (render_vm_list (map (map_option blank_vm) vms))"
    by (cases "vms = []", simp add: render_vm_list_def)
      (simp only: render_vm_list_def markup_of_concat map_map comp_def item map_is_Nil_conv if_False)
  show "markup_of (render_snapshot_detail vm snap st) =
     markup_of (render_snapshot_detail None (map_option blank_snap snap) st)"
    by (cases snap)
      (simp_all add: render_snapshot_detail_def blank_snap_def Let_def markup_simps if_distrib)
qed

text \<open>C26: the same for the other pages. The markup of the shared folders, of the directory
  browser, of the orphan warning, of the forms and of the messages does not depend on any mount
  tag, path, file name, snapshot name or message.\<close>

theorem other_pages_markup:
  "markup_of (render_shared_folders vm folders am) =
     markup_of (render_shared_folders None (map blank_folder folders) am) \<and>
   markup_of (render_directory_listing cur entries) =
     markup_of (render_directory_listing [] (map blank_entry entries)) \<and>
   markup_of (render_orphan_warning vm orphans) =
     markup_of (render_orphan_warning None (map (\<lambda>_. []) orphans)) \<and>
   markup_of (render_create_snapshot_form vm nvram) = markup_of (render_create_snapshot_form None nvram) \<and>
   markup_of (render_add_shared_folder_form vm) = markup_of (render_add_shared_folder_form None) \<and>
   markup_of (render_success msg) = markup_of (render_success None) \<and>
   markup_of (render_error msg) = markup_of (render_error None) \<and>
   markup_of (render_guest_agent_help opn detail os) =
     markup_of (render_guest_agent_help None (map_option (\<lambda>_. []) detail) os)"
proof (intro conjI)
  have "map (\<lambda>f. markup_of (render_folder_item (html_escape vm) f)) folders
      = map (\<lambda>f. markup_of (render_folder_item (html_escape None) (blank_folder f))) folders"
    by (auto simp: markup_of_folder_item[of _ _ vm] markup_of_Nil)
  then show "markup_of (render_shared_folders vm folders am) =
     markup_of (render_shared_folders None (map blank_folder folders) am)"
    by (simp add: render_shared_folders_def Let_def markup_simps comp_def cong: map_cong)
  show "markup_of (render_directory_listing cur entries) =
     markup_of (render_directory_listing [] (map blank_entry entries))"
    by (simp add: render_directory_listing_def markup_simps comp_def
        markup_of_dir_entry[of "[]" _ cur])
qed (simp_all add: render_orphan_warning_def render_create_snapshot_form_def
    render_add_shared_folder_form_def render_success_def render_error_def
    render_guest_agent_help_def Let_def markup_simps comp_def split: option.split)

definition t_alert_open :: "string \<Rightarrow> char \<Rightarrow> string" where
  \<open>t_alert_open cls mark =
     ''<div class="alert alert-'' @ cls @ ''">'' @ [CHR 0xE2, CHR 0x9C, mark] @ '' ''\<close>

text \<open>What a reader sees in a message is the message. Once the browser has replaced the
  character references of the success and error messages, the text is the one given to the
  renderer, byte for byte, between the fixed tags.\<close>

theorem messages_are_shown_verbatim:
  "html_unescape (render_success (Some msg)) = t_alert_open ''success'' (CHR 0x93) @ msg @ ''</div>''"
  "html_unescape (render_error (Some msg)) = t_alert_open ''error'' (CHR 0x97) @ msg @ ''</div>''"
proof -
  have div: "html_unescape ''</div>'' = ''</div>''"
    using html_unescape_harmless[of "''</div>''" "[]"] by simp
  have alert:
    "html_unescape (t_alert_open ''success'' (CHR 0x93) @ t) = t_alert_open ''success'' (CHR 0x93) @ html_unescape t"
    "html_unescape (t_alert_open ''error'' (CHR 0x97) @ t) = t_alert_open ''error'' (CHR 0x97) @ html_unescape t" for t
    by (rule html_unescape_harmless, simp add: t_alert_open_def)+
  have "render_success (Some msg) = t_alert_open ''success'' (CHR 0x93) @ html_escape_loop msg @ ''</div>''"
    by (simp add: render_success_def t_success_def t_alert_open_def)
  then show "html_unescape (render_success (Some msg)) = t_alert_open ''success'' (CHR 0x93) @ msg @ ''</div>''"
    by (simp only: alert html_unescape_append_escape div)
  have "render_error (Some msg) = t_alert_open ''error'' (CHR 0x97) @ html_escape_loop msg @ ''</div>''"
    by (simp add: render_error_def t_error_def t_alert_open_def)
  then show "html_unescape (render_error (Some msg)) = t_alert_open ''error'' (CHR 0x97) @ msg @ ''</div>''"
    by (simp only: alert html_unescape_append_escape div)
qed

text \<open>HTML escaping does not protect the script in an attribute. The machine's name also goes
  into the text of the \<open>onclick\<close> handler, and the browser decodes the attribute before it runs the
  script: the script it runs holds the name as it is, quotes included.\<close>

theorem onclick_holds_raw_name:
  \<open>\<exists>script post.
     render_vm_item vm =
       ''<div class="vm-item" data-vm="'' @ html_escape (Some (vm_name vm)) @
       ''" onclick="'' @ script @ ''">'' @ post \<and>
     html_unescape script = ''selectVm('' @ [SQUOTE] @ vm_name vm @ [SQUOTE] @ '')''\<close>
proof -
  let ?n = "html_escape_loop (vm_name vm)"
  obtain rest where rest:
    \<open>t_vm_item = ''<div class="vm-item" data-vm="%s" onclick="selectVm('' @ SQUOTE # ''%s'' @ SQUOTE # '')">'' @ rest\<close>
    by (simp add: t_vm_item_def)
  have f: \<open>fmt t_vm_item (?n # ?n # as) =
      ''<div class="vm-item" data-vm="'' @ ?n @ ''" onclick="'' @
      (''selectVm('' @ SQUOTE # ?n @ SQUOTE # '')'') @ ''">'' @ fmt rest as\<close> for as
    unfolding rest by (simp add: fmt_Cons_plain)
  have u: "html_unescape (''selectVm('' @ SQUOTE # ?n @ SQUOTE # '')'')
      = ''selectVm('' @ [SQUOTE] @ vm_name vm @ [SQUOTE] @ '')''"
    using html_unescape_harmless[of "''selectVm('' @ [SQUOTE]" "?n @ SQUOTE # '')''"]
      html_unescape_append_escape[of "vm_name vm" "SQUOTE # '')''"]
      html_unescape_harmless[of "SQUOTE # '')''" "[]"]
    by simp
  have r: \<open>render_vm_item vm =
       ''<div class="vm-item" data-vm="'' @ html_escape (Some (vm_name vm)) @
       ''" onclick="'' @ (''selectVm('' @ SQUOTE # ?n @ SQUOTE # '')'') @ ''">'' @ post\<close>
    if "post = fmt rest
         [?n, state_css_class (vm_state_of vm), vm_state_str (vm_state_of vm),
          dec_int (vm_vcpus vm), dec_nat (vm_memory_kb vm div 1024)] @
       render_vm_actions (vm_state_of vm) ?n @ fmt t_vm_close []" for post
    unfolding render_vm_item_def Let_def html_escape_simps f that by simp
  from r[OF refl] u show ?thesis by blast
qed

end
