(* ===== verification/Route_Templates.thy ===== *)
theory Route_Templates
  imports Html_Templates
begin

text \<open>
  The longer string literals of src/routes.c, one constant for each use.
\<close>

definition t_404 :: string where
  \<open>t_404 =
     ''<html><body><h1>404 Not Found</h1></body></html>''\<close>

definition t_405 :: string where
  \<open>t_405 =
     ''<html><body><h1>405 Method Not Allowed</h1></body></html>''\<close>

definition t_nvram_already :: string where
  \<open>t_nvram_already =
     ''NVRAM is already in qcow2 format '' @ [CHR 0xE2, CHR 0x80, CHR 0x94] @ '' no conversion needed''\<close>

definition t_nvram_done :: string where
  \<open>t_nvram_done =
     [CHR 0xE2, CHR 0x9C, CHR 0x93] @ '' NVRAM converted to qcow2. You can now start the VM and take internal snapshots.''\<close>

definition t_tree_error :: string where
  \<open>t_tree_error =
     ''{"id":"error","name":"Error",'' @
     ''"description":"Failed to load snapshots",'' @
     ''"date":"","type":"internal",'' @
     ''"isCurrent":false,"children":[]}''\<close>

definition t_tree_empty :: string where
  \<open>t_tree_empty =
     ''{"id":"empty","name":"No Snapshots",'' @
     ''"description":"Create your first snapshot",'' @
     ''"date":"","type":"internal",'' @
     ''"isCurrent":false,"children":[]}''\<close>

definition t_need_qcow2 :: string where
  \<open>t_need_qcow2 =
     ''Internal snapshot requires QCOW2 NVRAM format. '' @
     ''Stop the VM and click Convert NVRAM, then start it again.'' @
     ''<div style="margin-top:8px">'' @
     ''<button class="btn btn-sm btn-primary"'' @
     '' hx-post="/api/vms/%s/convert-nvram"'' @
     '' hx-target="#vm-notification"'' @
     '' hx-swap="innerHTML"'' @
     '' hx-confirm="Convert NVRAM from raw to qcow2? '' @
     ''This is safe and required for internal snapshots on UEFI VMs. '' @
     ''Your data will NOT be lost."'' @
     ''>'' @ [CHR 0xF0, CHR 0x9F, CHR 0x94, CHR 0xA7] @ '' Convert NVRAM</button>'' @
     ''</div>''\<close>

definition t_bad_job :: string where
  \<open>t_bad_job =
     ''Failed to create snapshot: QEMU rejected the snapshot name. '' @
     ''Try a simpler name without special characters.''\<close>

definition t_edit_form :: string where
  \<open>t_edit_form =
     ''<div class=\'edit-snapshot-form\'>'' @
     ''<h3>Edit Description</h3>'' @
     ''<p class=\'edit-snap-name\'><strong>%s</strong></p>'' @
     ''<form hx-put=\'/api/vms/%s/snapshots/%s'' @ [SQUOTE] @
     ''      hx-target=\'#snapshot-detail'' @ [SQUOTE] @
     ''      hx-swap=\'innerHTML\'>'' @
     ''<textarea name=\'description\' rows=\'4\' '' @
     ''placeholder=\'Enter description...\'>%s</textarea>'' @
     ''<div class=\'form-actions\'>'' @
     ''<button type=\'submit\' class=\'btn btn-sm btn-primary\'>Save</button>'' @
     ''<button type=\'button\' class=\'btn btn-sm btn-secondary'' @ [SQUOTE] @
     ''        hx-get=\'/api/vms/%s/snapshots/%s'' @ [SQUOTE] @
     ''        hx-target=\'#snapshot-detail'' @ [SQUOTE] @
     ''        hx-swap=\'innerHTML\'>Cancel</button>'' @
     ''</div>'' @
     ''</form>'' @
     ''</div>''\<close>

definition t_edit_done :: string where
  \<open>t_edit_done =
     ''<div class=\'alert success\'>'' @ [CHR 0xE2, CHR 0x9C, CHR 0x85] @ '' Description updated</div>%s''\<close>

definition t_delete_blocked :: string where
  \<open>t_delete_blocked =
     ''Cannot delete snapshots while VM is running or paused. '' @
     ''Please shut down the VM first to fully remove snapshot data.''\<close>

definition t_revert_running :: string where
  \<open>t_revert_running =
     ''<div class="revert-confirm">'' @ [LF] @
     ''  <h3>'' @ [CHR 0xE2, CHR 0x9A, CHR 0xA0, CHR 0xEF, CHR 0xB8, CHR 0x8F] @ '' VM is running</h3>'' @ [LF] @
     ''  <p>Please shut down or pause the VM before reverting to a snapshot.</p>'' @ [LF] @
     ''  <div class="snap-actions">'' @ [LF] @
     ''    <button class="btn btn-ghost"'' @ [LF] @
     ''            hx-get="/api/vms/%s/snapshots/%s"'' @ [LF] @
     ''            hx-target="#snapshot-detail"'' @ [LF] @
     ''            hx-swap="innerHTML">'' @ [LF] @
     ''      OK'' @ [LF] @
     ''    </button>'' @ [LF] @
     ''  </div>'' @ [LF] @
     ''</div>'' @ [LF]\<close>

definition t_revert_dirty :: string where
  \<open>t_revert_dirty =
     ''<div class="revert-confirm">'' @ [LF] @
     ''  <h3>'' @ [CHR 0xE2, CHR 0x9A, CHR 0xA0, CHR 0xEF, CHR 0xB8, CHR 0x8F] @ '' Current state has unsaved changes</h3>'' @ [LF] @
     ''  <p>The VM state has changed since the last snapshot. '' @
     ''You can save the current state before reverting.</p>'' @ [LF] @
     ''  <div class="snap-actions">'' @ [LF] @
     ''    <button class="btn btn-primary"'' @ [LF] @
     ''            hx-post="/api/vms/%s/snapshots/%s/revert?save_current=1"'' @ [LF] @
     ''            hx-target="#snapshot-detail"'' @ [LF] @
     ''            hx-swap="innerHTML"'' @ [LF] @
     ''            hx-indicator="#revert-loading">'' @ [LF] @
     ''      '' @ [CHR 0xF0, CHR 0x9F, CHR 0x92, CHR 0xBE] @ '' Save &amp; Revert'' @ [LF] @
     ''    </button>'' @ [LF] @
     ''    <button class="btn btn-danger"'' @ [LF] @
     ''            hx-post="/api/vms/%s/snapshots/%s/revert"'' @ [LF] @
     ''            hx-target="#snapshot-detail"'' @ [LF] @
     ''            hx-swap="innerHTML"'' @ [LF] @
     ''            hx-indicator="#revert-loading">'' @ [LF] @
     ''      '' @ [CHR 0xE2, CHR 0x86, CHR 0xA9] @ '' Revert Without Saving'' @ [LF] @
     ''    </button>'' @ [LF] @
     ''    <button class="btn btn-ghost"'' @ [LF] @
     ''            hx-get="/api/vms/%s/snapshots/%s"'' @ [LF] @
     ''            hx-target="#snapshot-detail"'' @ [LF] @
     ''            hx-swap="innerHTML">'' @ [LF] @
     ''      Cancel'' @ [LF] @
     ''    </button>'' @ [LF] @
     ''  </div>'' @ [LF] @
     ''  <div id="revert-loading" class="htmx-indicator snap-action-busy">'' @ [LF] @
     ''    <span class="spinner"></span> Reverting'' @ [CHR 0xE2, CHR 0x80, CHR 0xA6, LF] @
     ''  </div>'' @ [LF] @
     ''</div>'' @ [LF]\<close>

definition t_revert_clean :: string where
  \<open>t_revert_clean =
     ''<div class="revert-confirm">'' @ [LF] @
     ''  <h3>Revert to snapshot \'%s\'?</h3>'' @ [LF] @
     ''  <p>This will restore the VM to the state when this snapshot was taken.</p>'' @ [LF] @
     ''  <div class="snap-actions">'' @ [LF] @
     ''    <button class="btn btn-primary"'' @ [LF] @
     ''            hx-post="/api/vms/%s/snapshots/%s/revert"'' @ [LF] @
     ''            hx-target="#snapshot-detail"'' @ [LF] @
     ''            hx-swap="innerHTML"'' @ [LF] @
     ''            hx-indicator="#revert-loading">'' @ [LF] @
     ''      '' @ [CHR 0xE2, CHR 0x86, CHR 0xA9] @ '' Revert'' @ [LF] @
     ''    </button>'' @ [LF] @
     ''    <button class="btn btn-ghost"'' @ [LF] @
     ''            hx-get="/api/vms/%s/snapshots/%s"'' @ [LF] @
     ''            hx-target="#snapshot-detail"'' @ [LF] @
     ''            hx-swap="innerHTML">'' @ [LF] @
     ''      Cancel'' @ [LF] @
     ''    </button>'' @ [LF] @
     ''  </div>'' @ [LF] @
     ''  <div id="revert-loading" class="htmx-indicator snap-action-busy">'' @ [LF] @
     ''    <span class="spinner"></span> Reverting'' @ [CHR 0xE2, CHR 0x80, CHR 0xA6, LF] @
     ''  </div>'' @ [LF] @
     ''</div>'' @ [LF]\<close>

definition t_revert_blocked :: string where
  \<open>t_revert_blocked =
     ''Cannot revert while VM is running. '' @
     ''Please shut down or pause the VM first.''\<close>

definition t_shared_memory :: string where
  \<open>t_shared_memory =
     [CHR 0xE2, CHR 0x9A, CHR 0xA0, CHR 0xEF, CHR 0xB8, CHR 0x8F] @ '' VirtioFS requires <strong>shared memory</strong> '' @
     ''to be enabled on this VM. This modifies the VM configuration.'' @
     ''<br><small>A <strong>Stop &amp; Start</strong> from the web UI will be '' @
     ''required afterwards to activate the change.</small>'' @
     stop_start_explanation_html @
     ''<div style="margin-top:8px">'' @
     ''<form hx-post="/api/vms/%s/shared-folders"'' @
     '' hx-target="#folder-notification-persistent"'' @
     '' hx-swap="innerHTML">'' @
     ''<input type="hidden" name="source_dir" value="%s">'' @
     ''<input type="hidden" name="mount_tag" value="%s">'' @
     ''<input type="hidden" name="fs_type" value="%s">'' @
     ''<input type="hidden" name="read_only" value="%d">'' @
     ''<input type="hidden" name="confirm_shared_memory" value="1">'' @
     ''<button class="btn btn-sm btn-primary" type="submit">'' @
     [CHR 0xE2, CHR 0x9C, CHR 0x85] @ '' Enable Shared Memory &amp; Add Folder</button>'' @
     '' <button type="button" class="btn btn-sm btn-ghost"'' @
     '' onclick="this.closest(\'.alert\').remove()">'' @
     ''Cancel</button>'' @
     ''</form></div>''\<close>

definition t_folder_saved :: string where
  \<open>t_folder_saved =
     ''<div class="alert alert-success">'' @
     [CHR 0xE2, CHR 0x9C, CHR 0x93] @ '' Shared folder saved to VM config.'' @
     ''<br>'' @ [CHR 0xE2, CHR 0x9A, CHR 0xA0, CHR 0xEF, CHR 0xB8, CHR 0x8F] @ '' <strong>Stop &amp; Start</strong> the VM '' @
     ''from this web UI to activate (shared memory was just enabled).'' @
     stop_start_explanation_html @
     ''<div style="margin-top:8px">'' @
     ''<button class="btn btn-sm btn-danger"'' @
     '' hx-post="/api/vms/%s/stop"'' @
     '' hx-target="#vm-notification"'' @
     '' hx-swap="innerHTML"'' @
     '' title="Stop VM first, then start it">'' @
     [CHR 0xE2, CHR 0x96, CHR 0xA0] @ '' Stop</button> '' @
     ''</div></div>''\<close>

end
