(* ===== verification/Posix.thy ===== *)
theory Posix
  imports Prelude
begin

text \<open>
  The file system calls of the program. A call may fail at any time: \<open>fault\<close> decides from the calls
  made so far, and for a write it says how many bytes still reached the file. The state keeps the
  calls and, for statements about crashes, the contents of the files after each of them.
\<close>

datatype sys_call =
    Sys_mkdir string
  | Sys_access string
  | Sys_open string
  | Sys_write string string
  | Sys_close string
  | Sys_rename string string
  | Sys_unlink string

datatype errno = ENOENT | EEXIST | EOTHER

type_synonym files = "string \<Rightarrow> string option"
type_synonym fault = "sys_call list \<Rightarrow> sys_call \<Rightarrow> nat option"

record os =
  os_files :: files
  os_dirs :: "string \<Rightarrow> bool"
  os_calls :: "sys_call list"
  os_seen :: "files list"

definition os_record :: "sys_call \<Rightarrow> files \<Rightarrow> os \<Rightarrow> os" where
  "os_record c f os =
     os\<lparr>os_files := f, os_calls := c # os_calls os, os_seen := f # os_seen os\<rparr>"

definition os_fails :: "fault \<Rightarrow> sys_call \<Rightarrow> os \<Rightarrow> bool" where
  "os_fails flt c os \<longleftrightarrow> flt (os_calls os) c \<noteq> None"

definition sys_mkdir :: "fault \<Rightarrow> string \<Rightarrow> os \<Rightarrow> errno option \<times> os" where
  "sys_mkdir flt p os =
     (let os1 = os_record (Sys_mkdir p) (os_files os) os in
      if os_fails flt (Sys_mkdir p) os then (Some EOTHER, os1)
      else if os_dirs os p \<or> os_files os p \<noteq> None then (Some EEXIST, os1)
      else (None, os1\<lparr>os_dirs := (os_dirs os)(p := True)\<rparr>))"

definition sys_access :: "fault \<Rightarrow> string \<Rightarrow> os \<Rightarrow> errno option \<times> os" where
  "sys_access flt p os =
     (let os1 = os_record (Sys_access p) (os_files os) os in
      if os_fails flt (Sys_access p) os then (Some EOTHER, os1)
      else if os_files os p = None \<and> \<not> os_dirs os p then (Some ENOENT, os1)
      else (None, os1))"

text \<open>Opening for writing truncates the file.\<close>

definition sys_open_w :: "fault \<Rightarrow> string \<Rightarrow> os \<Rightarrow> bool \<times> os" where
  "sys_open_w flt p os =
     (if os_fails flt (Sys_open p) os \<or> os_dirs os p
      then (False, os_record (Sys_open p) (os_files os) os)
      else (True, os_record (Sys_open p) ((os_files os)(p := Some [])) os))"

definition sys_write :: "fault \<Rightarrow> string \<Rightarrow> string \<Rightarrow> os \<Rightarrow> bool \<times> os" where
  "sys_write flt p s os =
     (let old = (case os_files os p of None \<Rightarrow> [] | Some t \<Rightarrow> t) in
      case flt (os_calls os) (Sys_write p s) of
        Some n \<Rightarrow> (False, os_record (Sys_write p s) ((os_files os)(p := Some (old @ take n s))) os)
      | None \<Rightarrow> (True, os_record (Sys_write p s) ((os_files os)(p := Some (old @ s))) os))"

definition sys_close :: "fault \<Rightarrow> string \<Rightarrow> os \<Rightarrow> bool \<times> os" where
  "sys_close flt p os =
     (\<not> os_fails flt (Sys_close p) os, os_record (Sys_close p) (os_files os) os)"

definition sys_rename :: "fault \<Rightarrow> string \<Rightarrow> string \<Rightarrow> os \<Rightarrow> bool \<times> os" where
  "sys_rename flt p q os =
     (if os_fails flt (Sys_rename p q) os \<or> os_dirs os q
      then (False, os_record (Sys_rename p q) (os_files os) os)
      else (True, os_record (Sys_rename p q) ((os_files os)(q := os_files os p, p := None)) os))"

definition sys_unlink :: "fault \<Rightarrow> string \<Rightarrow> os \<Rightarrow> os" where
  "sys_unlink flt p os =
     (if os_fails flt (Sys_unlink p) os then os_record (Sys_unlink p) (os_files os) os
      else os_record (Sys_unlink p) ((os_files os)(p := None)) os)"

lemmas sys_defs =
  sys_mkdir_def sys_access_def sys_open_w_def sys_write_def sys_close_def sys_rename_def sys_unlink_def

text \<open>
  \<open>quiet p os os'\<close>: between the two states, and at every moment in between, the file \<open>p\<close> was as it
  was at first.
\<close>

definition quiet :: "string \<Rightarrow> os \<Rightarrow> os \<Rightarrow> bool" where
  "quiet p os os' \<longleftrightarrow> (\<exists>new. os_seen os' = new @ os_seen os \<and>
     (\<forall>f\<in>set new. f p = os_files os p) \<and> os_files os' p = os_files os p)"

lemma quiet_refl [simp]: "quiet p os os"
  by (simp add: quiet_def)

lemma quiet_trans: "quiet p os1 os2 \<Longrightarrow> quiet p os2 os3 \<Longrightarrow> quiet p os1 os3"
  unfolding quiet_def by force

lemma quiet_record: "f p = os_files os p \<Longrightarrow> quiet p os (os_record c f os)"
  by (auto simp: quiet_def os_record_def)

lemma quiet_dirs: "quiet p os os' \<Longrightarrow> quiet p os (os'\<lparr>os_dirs := d\<rparr>)"
  by (auto simp: quiet_def)

lemma quiet_mkdir: "quiet p os (snd (sys_mkdir flt q os))"
  by (auto simp: sys_mkdir_def Let_def intro!: quiet_record quiet_dirs)

lemma quiet_access: "quiet p os (snd (sys_access flt q os))"
  by (auto simp: sys_access_def Let_def intro!: quiet_record)

lemma quiet_open: "q \<noteq> p \<Longrightarrow> quiet p os (snd (sys_open_w flt q os))"
  by (auto simp: sys_open_w_def intro!: quiet_record)

lemma quiet_write: "q \<noteq> p \<Longrightarrow> quiet p os (snd (sys_write flt q s os))"
  by (auto simp: sys_write_def Let_def intro!: quiet_record split: option.split)

lemma quiet_close: "quiet p os (snd (sys_close flt q os))"
  by (auto simp: sys_close_def intro!: quiet_record)

lemma quiet_unlink: "q \<noteq> p \<Longrightarrow> quiet p os (sys_unlink flt q os)"
  by (auto simp: sys_unlink_def intro!: quiet_record)

text \<open>The directories made on the way never overlap a file.\<close>

lemma os_files_mkdir [simp]: "os_files (snd (sys_mkdir flt q os)) = os_files os"
  by (simp add: sys_mkdir_def Let_def os_record_def)

end
