(* ===== verification/Tracker.thy ===== *)
theory Tracker
  imports Main
begin

text \<open>
  What the routes rely on when they record whether a virtual machine has changed since its
  snapshot: marking a machine that the tracker accepts sets its status; marking a machine with a
  valid name leaves the status of every other machine alone; a machine that has a status is
  accepted.
\<close>

locale vm_tracker =
  fixes mark :: "string \<Rightarrow> bool \<Rightarrow> 's \<Rightarrow> 's"
    and status :: "'s \<Rightarrow> string \<Rightarrow> bool option"
    and valid :: "string \<Rightarrow> bool"
    and accepts :: "'s \<Rightarrow> string \<Rightarrow> bool"
    and inv :: "'s \<Rightarrow> bool"
  assumes inv_mark: "inv s \<Longrightarrow> inv (mark n b s)"
    and status_mark_same: "inv s \<Longrightarrow> accepts s n \<Longrightarrow> status (mark n b s) n = Some b"
    and status_mark_other: "inv s \<Longrightarrow> valid n \<Longrightarrow> m \<noteq> n \<Longrightarrow> status (mark n b s) m = status s m"
    and accepts_tracked: "inv s \<Longrightarrow> status s n = Some b \<Longrightarrow> accepts s n"
begin

definition mark_all :: "(string \<times> bool) list \<Rightarrow> 's \<Rightarrow> 's" where
  "mark_all ms s = fold (\<lambda>(n, b). mark n b) ms s"

lemma inv_mark_all: "inv s \<Longrightarrow> inv (mark_all ms s)"
  unfolding mark_all_def by (induction ms arbitrary: s) (auto intro: inv_mark)

lemma tracked_mark: "inv s \<Longrightarrow> valid m \<Longrightarrow> status s n = Some b \<Longrightarrow> \<exists>b'. status (mark m c s) n = Some b'"
  using status_mark_same[of s m c] status_mark_other[of s m n c] accepts_tracked[of s n b]
  by (cases "m = n") auto

text \<open>The status of a tracked machine after any sequence of marks is the last mark it got.\<close>

lemma status_mark_all:
  "inv s \<Longrightarrow> status s n = Some b \<Longrightarrow> \<forall>(m, _)\<in>set ms. valid m \<Longrightarrow>
   status (mark_all ms s) n = Some (last (b # map snd (filter (\<lambda>(m, _). m = n) ms)))"
proof (induction ms arbitrary: s b)
  case Nil
  then show ?case by (simp add: mark_all_def)
next
  case (Cons mc ms)
  obtain m c where mc: "mc = (m, c)" by (cases mc)
  have "status (mark m c s) n = Some (if m = n then c else b)"
    using Cons.prems status_mark_same[of s m c] status_mark_other[of s m n c]
      accepts_tracked[of s n b] mc by auto
  from Cons.IH[OF inv_mark[OF Cons.prems(1)] this] Cons.prems(3) show ?case
    by (simp add: mark_all_def mc)
qed

end

end
