(* ===== verification/Dirty_State.thy ===== *)
theory Dirty_State
  imports Backend Json Posix Tracker
begin

text \<open>
  src/dirty_state.c: the persistent table that says which virtual machines are clean since their
  snapshot. The table is a list of the used entries, in order. The JSON printer and parser are
  parameters, collected in \<open>ds_env\<close> with the file system's faults.
\<close>

section \<open>State\<close>

record ds_env =
  env_utf8 :: utf8_check
  env_dumps :: "json \<Rightarrow> string option"
  env_loads :: "string \<Rightarrow> json option"
  env_fault :: fault

record dirty_state =
  ds_table :: "(string \<times> bool) list"
  ds_path :: string
  ds_os :: os

abbreviation MAX_TRACKED_VMS :: nat where "MAX_TRACKED_VMS \<equiv> 128"
abbreviation PATH_MAX :: nat where "PATH_MAX \<equiv> 4096"

text \<open>The index of the first entry with the name.\<close>

fun dirty_state_find :: "(string \<times> bool) list \<Rightarrow> string \<Rightarrow> nat option" where
  "dirty_state_find [] name = None"
| "dirty_state_find ((n, b) # t) name =
     (if n = name then Some 0 else map_option Suc (dirty_state_find t name))"

definition dirty_state_clear :: "dirty_state \<Rightarrow> dirty_state" where
  "dirty_state_clear s = s\<lparr>ds_table := []\<rparr>"

definition dirty_state_shutdown :: "dirty_state \<Rightarrow> dirty_state" where
  "dirty_state_shutdown s = (dirty_state_clear s)\<lparr>ds_path := []\<rparr>"

section \<open>Saving\<close>

text \<open>One \<open>mkdir\<close> that tolerates an existing directory.\<close>

definition mkdir_ok :: "fault \<Rightarrow> string \<Rightarrow> os \<Rightarrow> bool \<times> os" where
  "mkdir_ok flt p os =
     (case sys_mkdir flt p os of (e, os1) \<Rightarrow> (e = None \<or> e = Some EEXIST, os1))"

text \<open>
  The loop over the directory part: \<open>pre\<close> is what lies before the pointer, the second argument what
  is at and after it.
\<close>

fun ensure_parent_loop :: "fault \<Rightarrow> string \<Rightarrow> string \<Rightarrow> os \<Rightarrow> bool \<times> os" where
  "ensure_parent_loop flt pre [] os = mkdir_ok flt pre os"
| "ensure_parent_loop flt pre (c # cs) os =
     (if c \<noteq> CHR ''/'' then ensure_parent_loop flt (pre @ [c]) cs os
      else (case mkdir_ok flt pre os of
              (False, os1) \<Rightarrow> (False, os1)
            | (True, os1) \<Rightarrow> ensure_parent_loop flt (pre @ [c]) cs os1))"

definition ensure_parent_dir :: "fault \<Rightarrow> string \<Rightarrow> os \<Rightarrow> bool \<times> os" where
  "ensure_parent_dir flt path os =
     (if path = [] then (True, os)
      else if PATH_MAX \<le> length path then (False, os)
      else (case strrchr path (CHR ''/'') of
              None \<Rightarrow> (True, os)
            | Some slash \<Rightarrow>
                (case before path slash of
                   [] \<Rightarrow> (True, os)
                 | c # cs \<Rightarrow> ensure_parent_loop flt [c] cs os)))"

text \<open>One entry; \<open>None\<close> when the name is not valid UTF-8, which makes the save fail.\<close>

definition dirty_entry_json :: "utf8_check \<Rightarrow> string \<times> bool \<Rightarrow> json option" where
  "dirty_entry_json utf8 e =
     (case json_string utf8 (fst e) of
        None \<Rightarrow> None
      | Some n \<Rightarrow> Some (json_object_set_new ''is_clean'' (Some (JBool (snd e)))
                         (json_object_set_new ''name'' (Some n) json_object)))"

fun dirty_entries_json :: "utf8_check \<Rightarrow> (string \<times> bool) list \<Rightarrow> json list option" where
  "dirty_entries_json utf8 [] = Some []"
| "dirty_entries_json utf8 (e # es) =
     (case dirty_entry_json utf8 e of
        None \<Rightarrow> None
      | Some j \<Rightarrow> map_option ((#) j) (dirty_entries_json utf8 es))"

text \<open>
  Writing the document: to a temporary file, which then replaces the target. Every failure after
  the file was opened removes it again.
\<close>

definition write_document :: "ds_env \<Rightarrow> string \<Rightarrow> json \<Rightarrow> os \<Rightarrow> bool \<times> os" where
  "write_document env path root os =
     (let flt = env_fault env; tmp = path @ ''.tmp'' in
      case sys_open_w flt tmp os of
        (False, os1) \<Rightarrow> (False, os1)
      | (True, os1) \<Rightarrow>
         (case (case env_dumps env root of None \<Rightarrow> (False, os1) | Some d \<Rightarrow> sys_write flt tmp d os1) of
            (False, os2) \<Rightarrow> (False, sys_unlink flt tmp (snd (sys_close flt tmp os2)))
          | (True, os2) \<Rightarrow>
             (case sys_write flt tmp [LF] os2 of
                (False, os3) \<Rightarrow> (False, sys_unlink flt tmp (snd (sys_close flt tmp os3)))
              | (True, os3) \<Rightarrow>
                 (case sys_close flt tmp os3 of
                    (False, os4) \<Rightarrow> (False, sys_unlink flt tmp os4)
                  | (True, os4) \<Rightarrow>
                     (case sys_rename flt tmp path os4 of
                        (False, os5) \<Rightarrow> (False, sys_unlink flt tmp os5)
                      | (True, os5) \<Rightarrow> (True, os5))))))"

definition dirty_state_save :: "ds_env \<Rightarrow> dirty_state \<Rightarrow> int \<times> dirty_state" where
  "dirty_state_save env s =
     (if ds_path s = [] then (0, s)
      else (case ensure_parent_dir (env_fault env) (ds_path s) (ds_os s) of
        (False, os1) \<Rightarrow> (- 1, s\<lparr>ds_os := os1\<rparr>)
      | (True, os1) \<Rightarrow>
          if PATH_MAX \<le> length (ds_path s) + 4 then (- 1, s\<lparr>ds_os := os1\<rparr>)
          else (case dirty_entries_json (env_utf8 env) (ds_table s) of
            None \<Rightarrow> (- 1, s\<lparr>ds_os := os1\<rparr>)
          | Some es \<Rightarrow>
              (case write_document env (ds_path s) (JArray es) os1 of
                 (ok, os2) \<Rightarrow> (if ok then 0 else - 1, s\<lparr>ds_os := os2\<rparr>)))))"

section \<open>Updates and queries\<close>

definition dirty_state_set :: "ds_env \<Rightarrow> string option \<Rightarrow> bool \<Rightarrow> dirty_state \<Rightarrow> int \<times> dirty_state" where
  "dirty_state_set env name is_clean s =
     (case name of
        None \<Rightarrow> (- 1, s)
      | Some [] \<Rightarrow> (- 1, s)
      | Some (c # cs) \<Rightarrow>
         (let n = c # cs in
          case dirty_state_find (ds_table s) n of
            Some i \<Rightarrow>
              if snd (ds_table s ! i) = is_clean then (0, s)
              else dirty_state_save env
                     (s\<lparr>ds_table := (ds_table s)[i := (fst (ds_table s ! i), is_clean)]\<rparr>)
          | None \<Rightarrow>
              if MAX_TRACKED_VMS \<le> length (ds_table s) then (- 1, s)
              else dirty_state_save env
                     (s\<lparr>ds_table := ds_table s @ [(snprintf_buf 256 n, is_clean)]\<rparr>)))"

definition dirty_state_mark_clean :: "ds_env \<Rightarrow> string option \<Rightarrow> dirty_state \<Rightarrow> dirty_state" where
  "dirty_state_mark_clean env name s = snd (dirty_state_set env name True s)"

definition dirty_state_mark_dirty :: "ds_env \<Rightarrow> string option \<Rightarrow> dirty_state \<Rightarrow> dirty_state" where
  "dirty_state_mark_dirty env name s = snd (dirty_state_set env name False s)"

definition dirty_state_is_dirty ::
  "ds_env \<Rightarrow> string \<Rightarrow> vm_state \<Rightarrow> dirty_state \<Rightarrow> bool \<times> dirty_state" where
  "dirty_state_is_dirty env name st s =
     (if st = VM_RUNNING then (True, dirty_state_mark_dirty env (Some name) s)
      else (case dirty_state_find (ds_table s) name of
              Some i \<Rightarrow> (\<not> snd (ds_table s ! i), s)
            | None \<Rightarrow> if st = VM_PAUSED then (True, dirty_state_mark_dirty env (Some name) s)
                      else (False, s)))"

section \<open>Loading\<close>

text \<open>The two checks that skip a malformed or an invalid entry.\<close>

definition dirty_entry_of :: "json \<Rightarrow> (string \<times> bool) option" where
  "dirty_entry_of e =
     (if \<not> json_is_object e then None
      else (case json_object_get e ''name'' of
        Some (JString n) \<Rightarrow>
          (case json_object_get e ''is_clean'' of Some (JBool b) \<Rightarrow> Some (n, b) | _ \<Rightarrow> None)
      | _ \<Rightarrow> None))"

text \<open>The loop over the loaded array, with its skips and the capacity check.\<close>

fun dirty_state_load :: "json list \<Rightarrow> (string \<times> bool) list \<Rightarrow> (string \<times> bool) list" where
  "dirty_state_load [] t = t"
| "dirty_state_load (e # es) t =
     (case dirty_entry_of e of
        None \<Rightarrow> dirty_state_load es t
      | Some (n, b) \<Rightarrow>
          if MAX_TRACKED_VMS \<le> length t then t
          else if n = [] then dirty_state_load es t
          else dirty_state_load es (t @ [(snprintf_buf 256 n, b)]))"

definition dirty_state_init :: "ds_env \<Rightarrow> string option \<Rightarrow> dirty_state \<Rightarrow> int \<times> dirty_state" where
  "dirty_state_init env path s0 =
     (let s = dirty_state_shutdown s0 in
      case path of
        None \<Rightarrow> (0, s)
      | Some p \<Rightarrow>
         (if p = [] then (0, s)
          else if PATH_MAX \<le> length p then (- 1, s)
          else
            (let s1 = s\<lparr>ds_path := p\<rparr> in
             case sys_access (env_fault env) p (ds_os s1) of
               (Some ENOENT, os1) \<Rightarrow> (0, s1\<lparr>ds_os := os1\<rparr>)
             | (Some _, os1) \<Rightarrow> (- 1, s1\<lparr>ds_os := os1\<rparr>)
             | (None, os1) \<Rightarrow>
                (case Option.bind (os_files os1 p) (env_loads env) of
                   None \<Rightarrow> (- 1, s1\<lparr>ds_os := os1\<rparr>)
                 | Some (JArray es) \<Rightarrow>
                     (0, s1\<lparr>ds_os := os1, ds_table := dirty_state_load es []\<rparr>)
                 | Some _ \<Rightarrow> (- 1, s1\<lparr>ds_os := os1\<rparr>)))))"

section \<open>The table as a map\<close>

definition ds_ok :: "dirty_state \<Rightarrow> bool" where
  "ds_ok s \<longleftrightarrow> length (ds_table s) \<le> MAX_TRACKED_VMS \<and>
     (\<forall>(n, b)\<in>set (ds_table s). n \<noteq> [] \<and> length n < 256)"

definition ds_status :: "dirty_state \<Rightarrow> string \<Rightarrow> bool option" where
  "ds_status s n = map_of (ds_table s) n"

definition ds_valid :: "string \<Rightarrow> bool" where
  "ds_valid n \<longleftrightarrow> n \<noteq> [] \<and> length n < 256"

definition ds_accepts :: "dirty_state \<Rightarrow> string \<Rightarrow> bool" where
  "ds_accepts s n \<longleftrightarrow> ds_valid n \<and>
     (ds_status s n \<noteq> None \<or> length (ds_table s) < MAX_TRACKED_VMS)"

lemma find_None_iff_map_of: "dirty_state_find t n = None \<longleftrightarrow> map_of t n = None"
  by (induction t n rule: dirty_state_find.induct) auto

lemma find_SomeD:
  "dirty_state_find t n = Some i \<Longrightarrow> i < length t \<and> fst (t ! i) = n \<and> map_of t n = Some (snd (t ! i))"
  by (induction t n arbitrary: i rule: dirty_state_find.induct) (auto split: if_splits)

lemma map_of_update_found:
  "dirty_state_find t n = Some i \<Longrightarrow> map_of (t[i := (n, b)]) = (map_of t)(n \<mapsto> b)"
  by (induction t n arbitrary: i rule: dirty_state_find.induct) (auto simp: fun_eq_iff split: if_splits)

lemma map_of_append_new:
  "map_of t n = None \<Longrightarrow> map_of (t @ [(n, b)]) = (map_of t)(n \<mapsto> b)"
  by (auto simp: map_add_def fun_eq_iff split: option.split)

lemma save_keeps [simp]:
  "ds_table (snd (dirty_state_save env s)) = ds_table s"
  "ds_path (snd (dirty_state_save env s)) = ds_path s"
  by (auto simp: dirty_state_save_def split: prod.split bool.split option.split)

text \<open>What an update does to the table, whatever happens to the file.\<close>

lemma dirty_state_set_table:
  "ds_table (snd (dirty_state_set env (Some n) b s)) =
     (if n = [] then ds_table s
      else case dirty_state_find (ds_table s) n of
        Some i \<Rightarrow> (ds_table s)[i := (n, b)]
      | None \<Rightarrow> if MAX_TRACKED_VMS \<le> length (ds_table s) then ds_table s
                else ds_table s @ [(snprintf_buf 256 n, b)])"
proof (cases "dirty_state_find (ds_table s) n")
  case None
  then show ?thesis by (auto simp: dirty_state_set_def split: list.split)
next
  case (Some i)
  from find_SomeD[OF Some] have i: "i < length (ds_table s)" "fst (ds_table s ! i) = n" by auto
  have "(ds_table s)[i := (n, b)] = ds_table s" if "snd (ds_table s ! i) = b"
  proof -
    have "(n, b) = ds_table s ! i" using i that by (simp add: prod_eq_iff)
    then show ?thesis by (simp add: list_update_id)
  qed
  with Some i show ?thesis by (auto simp: dirty_state_set_def split: list.split)
qed

lemma ds_ok_set: "ds_ok s \<Longrightarrow> ds_ok (snd (dirty_state_set env (Some n) b s))"
  using length_snprintf_buf[of 256 n]
  unfolding ds_ok_def dirty_state_set_table
  by (auto split: option.split dest!: find_SomeD set_update_subset_insert[THEN subsetD] nth_mem
      simp: snprintf_buf_def)

lemma ds_status_set:
  assumes "ds_accepts s n"
  shows "ds_status (snd (dirty_state_set env (Some n) b s)) = (ds_status s)(n \<mapsto> b)"
  using assms map_of_update_found[of "ds_table s" n _ b] map_of_append_new[of "ds_table s" n b]
  by (auto simp: ds_status_def fun_eq_iff dirty_state_set_table ds_accepts_def ds_valid_def
      snprintf_buf_fits find_None_iff_map_of split: option.split)

lemma ds_status_set_rejected:
  assumes "ds_valid n" "\<not> ds_accepts s n"
  shows "ds_status (snd (dirty_state_set env (Some n) b s)) = ds_status s"
  using assms
  by (auto simp: ds_status_def dirty_state_set_table ds_accepts_def ds_valid_def
      find_None_iff_map_of[THEN iffD2])

interpretation ds: vm_tracker "\<lambda>n b s. snd (dirty_state_set env (Some n) b s)" ds_status ds_valid
    ds_accepts ds_ok
proof unfold_locales
  show "ds_ok (snd (dirty_state_set env (Some n) b s))" if "ds_ok s" for s n b
    using that by (rule ds_ok_set)
  show "ds_status (snd (dirty_state_set env (Some n) b s)) n = Some b" if "ds_accepts s n" for s n b
    using that by (simp add: ds_status_set)
  show "ds_status (snd (dirty_state_set env (Some n) b s)) m = ds_status s m"
    if "ds_valid n" "m \<noteq> n" for s n b m
    using that by (cases "ds_accepts s n") (simp_all add: ds_status_set ds_status_set_rejected)
  show "ds_accepts s n" if "ds_ok s" "ds_status s n = Some b" for s n b
    using that by (auto simp: ds_accepts_def ds_valid_def ds_ok_def ds_status_def dest: map_of_SomeD)
qed

lemma is_dirty_status:
  "fst (dirty_state_is_dirty env n st s) =
     (st = VM_RUNNING \<or> (case ds_status s n of Some clean \<Rightarrow> \<not> clean | None \<Rightarrow> st = VM_PAUSED))"
proof (cases "dirty_state_find (ds_table s) n")
  case None
  then have "map_of (ds_table s) n = None" by (simp only: find_None_iff_map_of)
  with None show ?thesis by (auto simp: dirty_state_is_dirty_def ds_status_def)
next
  case (Some i)
  with find_SomeD[OF Some] show ?thesis by (auto simp: dirty_state_is_dirty_def ds_status_def)
qed

section \<open>The file\<close>

text \<open>
  \<open>replaced p doc os os'\<close>: at every moment between the two states the file \<open>p\<close> held what it held
  at first or the whole of \<open>doc\<close>, and at the end it holds \<open>doc\<close>.
\<close>

definition replaced :: "string \<Rightarrow> string \<Rightarrow> os \<Rightarrow> os \<Rightarrow> bool" where
  "replaced p doc os os' \<longleftrightarrow> (\<exists>new. os_seen os' = new @ os_seen os \<and>
     (\<forall>f\<in>set new. f p = os_files os p \<or> f p = Some doc) \<and> os_files os' p = Some doc)"

lemma quiet_replaced: "quiet p os1 os2 \<Longrightarrow> replaced p doc os2 os3 \<Longrightarrow> replaced p doc os1 os3"
  unfolding quiet_def replaced_def by force

lemma quiet_mkdir_ok: "quiet p os (snd (mkdir_ok flt q os))"
  using quiet_mkdir[of p os flt q] by (cases "sys_mkdir flt q os") (simp add: mkdir_ok_def)

lemma quiet_ensure_parent_loop: "quiet p os (snd (ensure_parent_loop flt pre rest os))"
proof (induction flt pre rest os rule: ensure_parent_loop.induct)
  case (1 flt pre os)
  show ?case by (simp add: quiet_mkdir_ok)
next
  case (2 flt pre c cs os)
  show ?case
  proof (cases "c = CHR ''/''")
    case False
    with 2 show ?thesis by simp
  next
    case True
    obtain ok os1 where mk: "mkdir_ok flt pre os = (ok, os1)" by fastforce
    then have q: "quiet p os os1" using quiet_mkdir_ok[of p os flt pre] by simp
    show ?thesis
    proof (cases ok)
      case True
      with 2(2) \<open>c = CHR ''/''\<close> mk have "quiet p os1 (snd (ensure_parent_loop flt (pre @ [c]) cs os1))"
        by simp
      with q True \<open>c = CHR ''/''\<close> mk show ?thesis by (simp add: quiet_trans)
    qed (use q mk \<open>c = CHR ''/''\<close> in simp)
  qed
qed

lemma quiet_ensure_parent_dir: "quiet p os (snd (ensure_parent_dir flt path os))"
  by (auto simp: ensure_parent_dir_def quiet_ensure_parent_loop split: option.split list.split)

text \<open>The calls that do not touch the target, chained with the unlinking of the temporary file.\<close>

lemmas quiet_calls = quiet_open quiet_write quiet_close quiet_unlink

lemma write_document_target:
  assumes "write_document env p root os = (ok, os')"
  shows "if ok then \<exists>d. env_dumps env root = Some d \<and> replaced p (d @ [LF]) os os' \<and> \<not> os_dirs os' p
    else quiet p os os'"
proof -
  let ?flt = "env_fault env"
  define tmp where "tmp = p @ ''.tmp''"
  have ne: "tmp \<noteq> p" by (simp add: tmp_def)
  note qs = quiet_open[OF ne] quiet_write[OF ne] quiet_close quiet_unlink[OF ne]
  obtain ok1 os1 where 1: "sys_open_w ?flt tmp os = (ok1, os1)" by fastforce
  then have q1: "quiet p os os1" using qs(1)[of os ?flt] by simp
  show ?thesis
  proof (cases "ok1 \<and> env_dumps env root \<noteq> None")
    case False
    with assms 1 q1 show ?thesis
      by (auto simp: write_document_def Let_def tmp_def[symmetric] intro!: quiet_trans[OF q1]
          intro: quiet_trans[OF qs(3) qs(4)] split: bool.splits)
  next
    case True
    then obtain d where ok1 and d: "env_dumps env root = Some d" by auto
    then have f1: "os_files os1 tmp = Some []" using 1 by (auto simp: sys_open_w_def os_record_def split: if_splits)
    obtain ok2 os2 where 2: "sys_write ?flt tmp d os1 = (ok2, os2)" by fastforce
    then have q2: "quiet p os os2" using quiet_trans[OF q1 qs(2)[of os1 ?flt d]] by simp
    obtain ok3 os3 where 3: "sys_write ?flt tmp [LF] os2 = (ok3, os3)" by fastforce
    then have q3: "quiet p os os3" using quiet_trans[OF q2 qs(2)[of os2 ?flt "[LF]"]] by simp
    obtain ok4 os4 where 4: "sys_close ?flt tmp os3 = (ok4, os4)" by fastforce
    then have q4: "quiet p os os4" using quiet_trans[OF q3 qs(3)[of p os3 ?flt tmp]] by simp
    obtain ok5 os5 where 5: "sys_rename ?flt tmp p os4 = (ok5, os5)" by fastforce
    note steps = assms 1 d 2 3 4 5 \<open>ok1\<close>
    show ?thesis
    proof (cases "ok2 \<and> ok3 \<and> ok4 \<and> ok5")
      case True
      have f2: "os_files os2 tmp = Some d" using 2 f1 True
        by (auto simp: sys_write_def os_record_def split: option.splits)
      have f3: "os_files os3 tmp = Some (d @ [LF])" using 3 f2 True
        by (auto simp: sys_write_def os_record_def split: option.splits)
      have f4: "os_files os4 tmp = Some (d @ [LF])" using 4 f3 by (auto simp: sys_close_def os_record_def)
      have "replaced p (d @ [LF]) os4 os5" "\<not> os_dirs os5 p" using 5 f4 True ne
        by (auto simp: sys_rename_def replaced_def os_record_def split: if_splits)
      moreover have "ok" "os' = os5" using steps True by (auto simp: write_document_def Let_def tmp_def)
      ultimately show ?thesis using d quiet_replaced[OF q4] by auto
    next
      case False
      have q5: "quiet p os os5" if "\<not> ok5"
        using 5 that quiet_trans[OF q4, of "os_record (Sys_rename tmp p) (os_files os4) os4"]
        by (auto simp: sys_rename_def intro: quiet_record split: if_splits)
      have "\<not> ok" "os' = sys_unlink ?flt tmp (snd (sys_close ?flt tmp os2)) \<or>
          os' = sys_unlink ?flt tmp (snd (sys_close ?flt tmp os3)) \<or>
          os' = sys_unlink ?flt tmp os4 \<or> \<not> ok5 \<and> os' = sys_unlink ?flt tmp os5"
        using steps False
        by (cases ok2; cases ok3; cases ok4; cases ok5;
            simp add: write_document_def Let_def tmp_def[symmetric])+
      then show ?thesis
        using quiet_trans[OF q2 quiet_trans[OF qs(3) qs(4)]] quiet_trans[OF q3 quiet_trans[OF qs(3) qs(4)]]
          quiet_trans[OF q4 qs(4)] quiet_trans[OF q5 qs(4)] by auto
    qed
  qed
qed

lemma dirty_state_save_cases:
  assumes "dirty_state_save env s = (rc, s')"
  obtains (no_path) "rc = 0" "ds_path s = []" "s' = s"
    | (saved) es d where "rc = 0" "ds_path s \<noteq> []"
        "dirty_entries_json (env_utf8 env) (ds_table s) = Some es"
        "env_dumps env (JArray es) = Some d"
        "replaced (ds_path s) (d @ [LF]) (ds_os s) (ds_os s')" "\<not> os_dirs (ds_os s') (ds_path s)"
    | (failed) "rc = - 1" "quiet (ds_path s) (ds_os s) (ds_os s')"
proof (cases "ds_path s = []")
  case True
  with assms show ?thesis by (intro no_path) (simp_all add: dirty_state_save_def)
next
  case path: False
  obtain ok1 os1 where 1: "ensure_parent_dir (env_fault env) (ds_path s) (ds_os s) = (ok1, os1)"
    by fastforce
  then have q: "quiet (ds_path s) (ds_os s) os1"
    using quiet_ensure_parent_dir[of "ds_path s" "ds_os s"] by (metis snd_conv)
  show ?thesis
  proof (cases "ok1 \<and> length (ds_path s) + 4 < PATH_MAX \<and>
      dirty_entries_json (env_utf8 env) (ds_table s) \<noteq> None")
    case False
    with assms 1 path have "rc = - 1" "ds_os s' = os1"
      by (auto simp: dirty_state_save_def split: bool.splits if_splits)
    with q failed show ?thesis by simp
  next
    case True
    then obtain es where es: "dirty_entries_json (env_utf8 env) (ds_table s) = Some es" by auto
    obtain ok os2 where 2: "write_document env (ds_path s) (JArray es) os1 = (ok, os2)" by fastforce
    with assms 1 path True es have rc: "rc = (if ok then 0 else - 1)" "ds_os s' = os2"
      by (auto simp: dirty_state_save_def)
    show ?thesis
    proof (cases ok)
      case True
      with write_document_target[OF 2] obtain d where
        "env_dumps env (JArray es) = Some d" "replaced (ds_path s) (d @ [LF]) os1 os2"
        "\<not> os_dirs os2 (ds_path s)" by auto
      with saved[OF _ path es] rc True quiet_replaced[OF q] show ?thesis by simp
    next
      case False
      with write_document_target[OF 2] have "quiet (ds_path s) os1 os2" by simp
      with failed rc False quiet_trans[OF q] show ?thesis by simp
    qed
  qed
qed

text \<open>What is written can be read back.\<close>

lemma dirty_entry_json_Some:
  "dirty_entry_json utf8 (n, b) = Some j \<Longrightarrow>
   dirty_entry_of j = Some (n, b)"
  by (auto simp: dirty_entry_json_def dirty_entry_of_def json_string_def json_object_def json_is_object_def
      json_object_get_def split: option.splits if_splits)

lemma dirty_state_load_entries:
  "dirty_entries_json utf8 tab = Some es \<Longrightarrow> length t0 + length tab \<le> MAX_TRACKED_VMS \<Longrightarrow>
   \<forall>(n, b)\<in>set tab. n \<noteq> [] \<and> length n < 256 \<Longrightarrow> dirty_state_load es t0 = t0 @ tab"
proof (induction utf8 tab arbitrary: es t0 rule: dirty_entries_json.induct)
  case (2 utf8 e tab)
  obtain n b where e: "e = (n, b)" by (cases e)
  from "2.prems"(1) obtain j js where j: "dirty_entry_json utf8 (n, b) = Some j"
    "dirty_entries_json utf8 tab = Some js" "es = j # js"
    by (auto simp: e split: option.splits)
  have "dirty_state_load es t0 = dirty_state_load js (t0 @ [(n, b)])"
    using "2.prems" e by (simp add: j(3) dirty_entry_json_Some[OF j(1)] snprintf_buf_fits)
  also have "\<dots> = t0 @ e # tab"
    using "2.IH"[of j js "t0 @ [(n, b)]"] "2.prems" j e by simp
  finally show ?case .
qed simp

text \<open>The file holds the table: a restart would load exactly what is in memory.\<close>

definition persisted :: "ds_env \<Rightarrow> dirty_state \<Rightarrow> bool" where
  "persisted env s \<longleftrightarrow> ds_path s = [] \<or>
     (case os_files (ds_os s) (ds_path s) of
        None \<Rightarrow> ds_table s = [] \<and> \<not> os_dirs (ds_os s) (ds_path s)
      | Some bytes \<Rightarrow> \<exists>es. env_loads env bytes = Some (JArray es) \<and> dirty_state_load es [] = ds_table s)"

text \<open>Documented behaviour of the JSON library: a printed array is read back.\<close>

definition json_reads_back :: "ds_env \<Rightarrow> bool" where
  "json_reads_back env \<longleftrightarrow>
     (\<forall>es d. env_dumps env (JArray es) = Some d \<longrightarrow> env_loads env (d @ [LF]) = Some (JArray es))"

lemma persisted_save:
  assumes "json_reads_back env" "ds_ok s" "dirty_state_save env s = (0, s')"
  shows "persisted env s'"
  using assms(3)
proof (cases rule: dirty_state_save_cases)
  case no_path
  then show ?thesis by (simp add: persisted_def)
next
  case (saved es d)
  have "dirty_state_load es [] = ds_table s"
    using dirty_state_load_entries[OF saved(3), of "[]"] assms(2) by (simp add: ds_ok_def)
  moreover have "env_loads env (d @ [LF]) = Some (JArray es)"
    using assms(1) saved(4) by (simp add: json_reads_back_def)
  ultimately show ?thesis
    using saved assms(3) save_keeps[of env s] by (auto simp: persisted_def replaced_def)
next
  case failed
  then show ?thesis by simp
qed

lemma dirty_state_set_cases:
  assumes "dirty_state_set env (Some n) b s = (rc, s')"
  shows "s' = s \<or> (\<exists>t. dirty_state_save env (s\<lparr>ds_table := t\<rparr>) = (rc, s'))"
proof (cases n)
  case (Cons c cs)
  show ?thesis
  proof (cases "dirty_state_find (ds_table s) n")
    case None
    with Cons assms show ?thesis
      by (cases "MAX_TRACKED_VMS \<le> length (ds_table s)") (auto simp: dirty_state_set_def)
  next
    case (Some i)
    with Cons assms show ?thesis
      by (cases "snd (ds_table s ! i) = b") (auto simp: dirty_state_set_def)
  qed
qed (use assms in \<open>simp add: dirty_state_set_def\<close>)

lemma persisted_set:
  assumes "json_reads_back env" "ds_ok s" "persisted env s"
    and "dirty_state_set env (Some n) b s = (0, s')"
  shows "persisted env s'"
proof -
  have table: "ds_table s' = ds_table (snd (dirty_state_set env (Some n) b s))" using assms(4) by simp
  from dirty_state_set_cases[OF assms(4)]
  consider "s' = s" | s1 where "dirty_state_save env s1 = (0, s')" by blast
  then show ?thesis
  proof cases
    case 1
    with assms(3) show ?thesis by simp
  next
    case (2 s1)
    then have "ds_table s1 = ds_table s'" using save_keeps(1)[of env s1] by simp
    then have "ds_ok s1" using ds_ok_set[OF assms(2), of env n b] assms(4) by (simp add: ds_ok_def)
    from persisted_save[OF assms(1) this 2] show ?thesis .
  qed
qed

lemma dirty_state_load_ok:
  "length t \<le> MAX_TRACKED_VMS \<Longrightarrow> \<forall>(n, b)\<in>set t. n \<noteq> [] \<and> length n < 256 \<Longrightarrow>
   length (dirty_state_load es t) \<le> MAX_TRACKED_VMS \<and>
   (\<forall>(n, b)\<in>set (dirty_state_load es t). n \<noteq> [] \<and> length n < 256)"
proof (induction es t rule: dirty_state_load.induct)
  case (2 e es t)
  show ?case
  proof (cases "dirty_entry_of e")
    case None
    with 2(1)[OF None 2(4,5)] show ?thesis by simp
  next
    case (Some nb)
    obtain n b where nb: "nb = (n, b)" by (cases nb)
    have short: "length (snprintf_buf 256 n) < 256" by (rule length_snprintf_buf) simp
    consider "MAX_TRACKED_VMS \<le> length t" | "n = []" "\<not> MAX_TRACKED_VMS \<le> length t"
      | "n \<noteq> []" "\<not> MAX_TRACKED_VMS \<le> length t" by blast
    then show ?thesis
    proof cases
      case 1
      with 2(4,5) Some nb show ?thesis by simp
    next
      case 2
      with "2.IH"(2)[OF Some nb[symmetric]] "2.prems" Some nb show ?thesis by simp
    next
      case 3
      then have "snprintf_buf 256 n \<noteq> []" by (simp add: snprintf_buf_def)
      with "2.IH"(3)[OF Some nb[symmetric]] "2.prems" 3 short Some nb show ?thesis by simp
    qed
  qed
qed auto

lemma ds_ok_load: "ds_ok (s\<lparr>ds_table := dirty_state_load es []\<rparr>)"
  using dirty_state_load_ok[of "[]" es] by (auto simp: ds_ok_def)

lemma sys_access_files [simp]:
  "os_files (snd (sys_access flt p os)) = os_files os"
  "os_dirs (snd (sys_access flt p os)) = os_dirs os"
  by (auto simp: sys_access_def Let_def os_record_def)

lemma sys_access_cases:
  assumes "sys_access flt p os = (e, os1)"
  shows "e = Some EOTHER \<and> os_fails flt (Sys_access p) os \<or>
    e = Some ENOENT \<and> os_files os p = None \<and> \<not> os_dirs os p \<or> e = None"
  using assms by (auto simp: sys_access_def Let_def split: if_splits)

lemma dirty_state_init_ok:
  assumes "dirty_state_init env (Some p) s0 = (0, s)"
  shows "ds_ok s \<and> persisted env s \<and> (p \<noteq> [] \<longrightarrow> ds_path s = p \<and> length p < PATH_MAX)"
proof (cases "p = [] \<or> PATH_MAX \<le> length p")
  case True
  with assms show ?thesis
    by (auto simp: dirty_state_init_def dirty_state_shutdown_def dirty_state_clear_def ds_ok_def
        persisted_def Let_def split: if_splits)
next
  case False
  let ?s1 = "(dirty_state_shutdown s0)\<lparr>ds_path := p\<rparr>"
  obtain e os1 where a: "sys_access (env_fault env) p (ds_os ?s1) = (e, os1)" by fastforce
  have f: "os_files os1 = os_files (ds_os ?s1)" "os_dirs os1 = os_dirs (ds_os ?s1)"
    using sys_access_files[of "env_fault env" p "ds_os ?s1"] a by (metis snd_conv)+
  have e: "e = Some ENOENT \<or> e = None"
    using assms False a sys_access_cases[OF a]
    by (auto simp: dirty_state_init_def Let_def)
  then show ?thesis
  proof
    assume "e = Some ENOENT"
    with assms False a sys_access_cases[OF a] f show ?thesis
      by (auto simp: dirty_state_init_def Let_def ds_ok_def persisted_def dirty_state_shutdown_def
          dirty_state_clear_def)
  next
    assume n: "e = None"
    with assms False a obtain bytes es where l: "os_files os1 p = Some bytes"
      "env_loads env bytes = Some (JArray es)"
      "s = ?s1\<lparr>ds_os := os1, ds_table := dirty_state_load es []\<rparr>"
      by (auto simp: dirty_state_init_def Let_def split: option.splits json.splits bind_splits)
    with False show ?thesis
      using ds_ok_load[of es "?s1\<lparr>ds_os := os1\<rparr>"] by (auto simp: persisted_def)
  qed
qed

lemma dirty_state_init_restores:
  assumes "persisted env s" "ds_path s = p" "p \<noteq> []" "length p < PATH_MAX"
    and "ds_os s0 = ds_os s" "\<not> os_fails (env_fault env) (Sys_access p) (ds_os s)"
  shows "\<exists>s'. dirty_state_init env (Some p) s0 = (0, s') \<and> ds_table s' = ds_table s"
proof -
  let ?s1 = "(dirty_state_shutdown s0)\<lparr>ds_path := p\<rparr>"
  have os: "ds_os ?s1 = ds_os s" using assms(5) by (simp add: dirty_state_shutdown_def dirty_state_clear_def)
  obtain e os1 where a: "sys_access (env_fault env) p (ds_os s) = (e, os1)" by fastforce
  have f: "os_files os1 = os_files (ds_os s)"
    using sys_access_files(1)[of "env_fault env" p "ds_os s"] a by simp
  show ?thesis
  proof (cases "os_files (ds_os s) p")
    case None
    with assms(1-3) have "ds_table s = []" "\<not> os_dirs (ds_os s) p" by (auto simp: persisted_def)
    with None assms a os f show ?thesis
      by (auto simp: dirty_state_init_def Let_def sys_access_def dirty_state_shutdown_def
          dirty_state_clear_def)
  next
    case (Some bytes)
    with assms(1-3) obtain es where
      "env_loads env bytes = Some (JArray es)" "dirty_state_load es [] = ds_table s"
      by (auto simp: persisted_def)
    moreover have "e = None" using a Some assms(6) by (auto simp: sys_access_def Let_def)
    ultimately show ?thesis using assms a os f Some
      by (simp add: dirty_state_init_def Let_def)
  qed
qed

section \<open>Runs of the program\<close>

text \<open>
  The states the tracker goes through from a start that succeeds: updates that succeed, and
  queries. A query that records the machine as dirty is one of the updates.
\<close>

inductive ds_run :: "ds_env \<Rightarrow> string \<Rightarrow> dirty_state \<Rightarrow> bool" for env p where
  start: "dirty_state_init env (Some p) s0 = (0, s) \<Longrightarrow> ds_run env p s"
| update: "ds_run env p s \<Longrightarrow> dirty_state_set env (Some n) b s = (0, s') \<Longrightarrow> ds_run env p s'"
| look: "ds_run env p s \<Longrightarrow> dirty_state_find (ds_table s) n \<noteq> None \<or> st = VM_SHUTOFF \<Longrightarrow>
    st \<noteq> VM_RUNNING \<Longrightarrow> dirty_state_is_dirty env n st s = (d, s') \<Longrightarrow> ds_run env p s'"

inductive_cases ds_run_cases: "ds_run env p s"

lemma set_keeps_path: "ds_path (snd (dirty_state_set env (Some n) b s)) = ds_path s"
proof -
  obtain rc s' where s': "dirty_state_set env (Some n) b s = (rc, s')" by fastforce
  from dirty_state_set_cases[OF s'] show ?thesis
  proof
    assume "\<exists>t. dirty_state_save env (s\<lparr>ds_table := t\<rparr>) = (rc, s')"
    then obtain t where "dirty_state_save env (s\<lparr>ds_table := t\<rparr>) = (rc, s')" ..
    with save_keeps(2)[of env "s\<lparr>ds_table := t\<rparr>"] s' show ?thesis by simp
  qed (simp add: s')
qed

lemma ds_run_invariant:
  assumes "ds_run env p s" "json_reads_back env" "p \<noteq> []"
  shows "ds_ok s \<and> persisted env s \<and> ds_path s = p \<and> length p < PATH_MAX"
  using assms
proof (induction rule: ds_run.induct)
  case (start s0 s)
  with dirty_state_init_ok[OF start(1)] show ?case by simp
next
  case (update s n b s')
  with persisted_set[OF _ _ _ update(2)] ds_ok_set[of s env n b] set_keeps_path[of env n b s]
  show ?case by simp
next
  case (look s n st d s')
  then have "s' = s" by (auto simp: dirty_state_is_dirty_def split: option.splits if_splits)
  with look show ?case by simp
qed

section \<open>Properties\<close>

text \<open>C7: the dirty state survives restarts. Take any state reached from a successful start on a
  path by updates that report success and by queries. If the JSON library reads back what it
  printed and the file can be accessed, starting again on the same path succeeds and restores the
  table entry by entry, so every machine has the status it had; and the table never holds more than
  128 entries or a name that does not fit its 256-byte array.\<close>

theorem dirty_state_survives_restart:
  assumes "ds_run env p s" "json_reads_back env" "p \<noteq> []"
    and "ds_os s0 = ds_os s" "\<not> os_fails (env_fault env) (Sys_access p) (ds_os s)"
  shows "ds_ok s \<and> (\<exists>s'. dirty_state_init env (Some p) s0 = (0, s') \<and> ds_table s' = ds_table s \<and>
    (\<forall>n. ds_status s' n = ds_status s n))"
  using ds_run_invariant[OF assms(1-3)] dirty_state_init_restores[of env s p s0] assms(3-5)
  by (auto simp: ds_status_def)

text \<open>A file system without faults and a printer that writes the document as it is in the model.\<close>

definition demo_os :: os where
  "demo_os = \<lparr>os_files = (\<lambda>_. None), os_dirs = (\<lambda>p. p = ''/d''), os_calls = [], os_seen = []\<rparr>"

definition demo_doc :: json where
  "demo_doc = JArray [JObject [(''name'', JString ''vm''), (''is_clean'', JBool False)]]"

definition demo_env :: ds_env where
  "demo_env = \<lparr>env_utf8 = (\<lambda>_. True),
     env_dumps = (\<lambda>j. if j = demo_doc then Some ''[D]'' else None),
     env_loads = (\<lambda>t. if t = ''[D]'' @ [LF] then Some demo_doc else None),
     env_fault = (\<lambda>_ _. None)\<rparr>"

definition demo_start :: dirty_state where
  "demo_start = \<lparr>ds_table = [], ds_path = [], ds_os = demo_os\<rparr>"

lemma demo_reads_back: "json_reads_back demo_env"
  by (simp add: json_reads_back_def demo_env_def demo_doc_def)

lemmas ds_eval = demo_env_def demo_doc_def demo_start_def demo_os_def dirty_state_init_def
  dirty_state_shutdown_def dirty_state_clear_def dirty_state_set_def dirty_state_save_def
  write_document_def ensure_parent_dir_def mkdir_ok_def sys_defs os_fails_def os_record_def
  before_def dirty_entry_json_def json_string_def json_object_def dirty_entry_of_def
  json_is_object_def json_object_get_def snprintf_buf_def Let_def

theorem dirty_state_survives_restart_witness:
  "\<exists>s s'. dirty_state_set demo_env (Some ''vm'') False
      (snd (dirty_state_init demo_env (Some ''/d/s'') demo_start)) = (0, s) \<and>
    dirty_state_init demo_env (Some ''/d/s'') (dirty_state_shutdown s) = (0, s') \<and>
    ds_status s' ''vm'' = Some False"
proof -
  obtain s1 where s1: "dirty_state_init demo_env (Some ''/d/s'') demo_start = (0, s1)"
    by (simp add: ds_eval)
  obtain s where s: "dirty_state_set demo_env (Some ''vm'') False s1 = (0, s)"
    and st: "ds_status s ''vm'' = Some False"
    using s1 by (auto simp: ds_eval ds_status_def)
  have "ds_run demo_env ''/d/s'' s"
    by (rule ds_run.update[OF ds_run.start[OF s1] s])
  from dirty_state_survives_restart[OF this demo_reads_back, of "dirty_state_shutdown s"] st
  obtain s' where "dirty_state_init demo_env (Some ''/d/s'') (dirty_state_shutdown s) = (0, s')"
    "ds_status s' ''vm'' = Some False"
    by (auto simp: dirty_state_shutdown_def dirty_state_clear_def os_fails_def demo_env_def)
  with s s1 show ?thesis by auto
qed

text \<open>C8: a crash never leaves a half-written state file. Whatever system calls fail during an
  update, at every moment the state file holds what it held before or the complete new document,
  followed by a newline; and when the update reports an error the file is as it was.\<close>

theorem dirty_state_set_atomic:
  assumes "dirty_state_set env (Some n) b s = (rc, s')"
  shows "\<exists>new doc. os_seen (ds_os s') = new @ os_seen (ds_os s) \<and>
    (\<forall>f\<in>set new. f (ds_path s) = os_files (ds_os s) (ds_path s) \<or> f (ds_path s) = Some (doc @ [LF])) \<and>
    (\<forall>f\<in>set new. f (ds_path s) \<noteq> os_files (ds_os s) (ds_path s) \<longrightarrow>
       (\<exists>es. dirty_entries_json (env_utf8 env) (ds_table s') = Some es \<and>
             env_dumps env (JArray es) = Some doc)) \<and>
    (rc \<noteq> 0 \<longrightarrow> os_files (ds_os s') (ds_path s) = os_files (ds_os s) (ds_path s))"
proof -
  from dirty_state_set_cases[OF assms] consider "s' = s"
    | t where "dirty_state_save env (s\<lparr>ds_table := t\<rparr>) = (rc, s')" by blast
  then show ?thesis
  proof cases
    case 1
    then show ?thesis by auto
  next
    case (2 t)
    then have t: "ds_table s' = t" using save_keeps(1)[of env "s\<lparr>ds_table := t\<rparr>"] by simp
    from 2 show ?thesis
    proof (cases rule: dirty_state_save_cases)
      case no_path
      then show ?thesis by auto
    next
      case (saved es d)
      then obtain new where "os_seen (ds_os s') = new @ os_seen (ds_os s)"
        "\<forall>f\<in>set new. f (ds_path s) = os_files (ds_os s) (ds_path s) \<or> f (ds_path s) = Some (d @ [LF])"
        by (auto simp: replaced_def)
      with saved t show ?thesis by (intro exI[of _ new] exI[of _ d]) auto
    next
      case failed
      then obtain new where "os_seen (ds_os s') = new @ os_seen (ds_os s)"
        "\<forall>f\<in>set new. f (ds_path s) = os_files (ds_os s) (ds_path s)"
        "os_files (ds_os s') (ds_path s) = os_files (ds_os s) (ds_path s)"
        by (auto simp: quiet_def)
      then show ?thesis by (intro exI[of _ new] exI[of _ "[]"]) auto
    qed
  qed
qed

text \<open>The same file system when every rename fails.\<close>

definition demo_env_no_rename :: ds_env where
  "demo_env_no_rename = demo_env\<lparr>env_fault := (\<lambda>_ c. case c of Sys_rename _ _ \<Rightarrow> Some 0 | _ \<Rightarrow> None)\<rparr>"

definition demo_loaded :: dirty_state where
  "demo_loaded = \<lparr>ds_table = [], ds_path = ''/d/s'', ds_os = demo_os\<rparr>"

lemma demo_no_rename:
  "fst (dirty_state_set demo_env_no_rename (Some ''vm'') False demo_loaded) = - 1"
  by (simp add: ds_eval demo_loaded_def demo_env_no_rename_def)

theorem dirty_state_set_atomic_witness:
  "os_files (ds_os (snd (dirty_state_set demo_env_no_rename (Some ''vm'') False demo_loaded))) ''/d/s'' = None"
proof -
  obtain s' where s': "dirty_state_set demo_env_no_rename (Some ''vm'') False demo_loaded = (- 1, s')"
    using demo_no_rename by (metis prod.collapse)
  from dirty_state_set_atomic[OF s'] have
    "os_files (ds_os s') ''/d/s'' = os_files (ds_os demo_loaded) ''/d/s''"
    by (auto simp: demo_loaded_def)
  with s' show ?thesis by (simp add: demo_loaded_def demo_os_def)
qed

text \<open>C9: what a query answers. After a machine that the tracker accepts (a name of 1 to 255
  bytes that is in the table, or for which there is room) was marked, and then any machines with
  such names were marked, a query about it while it is shut off or paused answers by the last mark
  it got, and a query while it is running answers that it is dirty.\<close>

theorem dirty_state_last_mark:
  assumes "ds_ok s" "ds_accepts s n" "\<forall>(m, c)\<in>set ms. ds_valid m"
    and "s' = fold (\<lambda>(m, c) s. snd (dirty_state_set env (Some m) c s)) ms
                (snd (dirty_state_set env (Some n) b s))"
  shows "fst (dirty_state_is_dirty env n VM_SHUTOFF s') =
      (\<not> last (b # map snd (filter (\<lambda>(m, _). m = n) ms))) \<and>
    fst (dirty_state_is_dirty env n VM_PAUSED s') =
      (\<not> last (b # map snd (filter (\<lambda>(m, _). m = n) ms))) \<and>
    fst (dirty_state_is_dirty env n VM_RUNNING s')"
proof -
  have "ds_status (snd (dirty_state_set env (Some n) b s)) n = Some b"
    by (simp add: ds_status_set[OF assms(2)])
  from ds.status_mark_all[OF ds_ok_set[OF assms(1)] this assms(3)]
  have "ds_status s' n = Some (last (b # map snd (filter (\<lambda>(m, _). m = n) ms)))"
    by (simp add: assms(4) ds.mark_all_def)
  then show ?thesis by (simp add: is_dirty_status)
qed

theorem dirty_state_last_mark_witness:
  "fst (dirty_state_is_dirty demo_env ''a'' VM_SHUTOFF
     (snd (dirty_state_set demo_env (Some ''a'') True
       (snd (dirty_state_set demo_env (Some ''b'') False
         (snd (dirty_state_set demo_env (Some ''a'') False demo_start)))))))
   = False"
  using dirty_state_last_mark[of demo_start "''a''" "[(''b'', False), (''a'', True)]" _ demo_env False]
  by (simp add: ds_ok_def ds_accepts_def ds_valid_def demo_start_def)

text \<open>A machine whose name has 256 bytes or more cannot be tracked. Marking it dirty uses up a
  slot of the table, under a truncated name, and a query about it while it is shut off still
  answers that it is clean.\<close>

theorem dirty_state_long_name:
  assumes "ds_ok s" "256 \<le> length n" "length (ds_table s) < 128"
  shows "length (ds_table (dirty_state_mark_dirty env (Some n) s)) = length (ds_table s) + 1 \<and>
    \<not> fst (dirty_state_is_dirty env n VM_SHUTOFF (dirty_state_mark_dirty env (Some n) s))"
proof -
  have ne: "n \<noteq> []" using assms(2) by auto
  have "map_of t n = None" if "\<forall>(m, c)\<in>set t. m \<noteq> [] \<and> length m < 256" for t :: "(string \<times> bool) list"
    using that assms(2) by (auto simp: map_of_eq_None_iff)
  with assms(1) ds_ok_set[OF assms(1), of env n False] have
    "map_of (ds_table s) n = None" "ds_status (dirty_state_mark_dirty env (Some n) s) n = None"
    by (simp_all add: ds_ok_def ds_status_def dirty_state_mark_dirty_def)
  with assms ne show ?thesis
    by (simp add: is_dirty_status dirty_state_mark_dirty_def dirty_state_set_table
        find_None_iff_map_of[THEN iffD2])
qed

theorem dirty_state_long_name_witness:
  "\<not> fst (dirty_state_is_dirty demo_env (replicate 300 (CHR ''v'')) VM_SHUTOFF
       (dirty_state_mark_dirty demo_env (Some (replicate 300 (CHR ''v''))) demo_start))"
  using dirty_state_long_name[of demo_start "replicate 300 (CHR ''v'')" demo_env]
  by (simp add: ds_ok_def demo_start_def)

text \<open>An update that failed to reach the disk is not retried. The table is changed before the
  file is written and is not put back, so the same update again reports success without a single
  system call, whatever the file holds.\<close>

theorem dirty_state_failed_save_not_retried:
  assumes "ds_accepts s n" "dirty_state_set env (Some n) b s = (rc, s')"
  shows "dirty_state_set env' (Some n) b s' = (0, s')"
proof -
  have "ds_status s' n = Some b"
    using ds_status_set[OF assms(1), of env b] assms(2) by simp
  then obtain i where "dirty_state_find (ds_table s') n = Some i" "snd (ds_table s' ! i) = b"
    using find_None_iff_map_of[of "ds_table s'" n] find_SomeD[of "ds_table s'" n]
    by (cases "dirty_state_find (ds_table s') n") (auto simp: ds_status_def)
  with assms(1) show ?thesis
    by (auto simp: dirty_state_set_def ds_accepts_def ds_valid_def split: list.split)
qed

theorem dirty_state_failed_save_not_retried_witness:
  "\<exists>s'. dirty_state_set demo_env_no_rename (Some ''vm'') False demo_loaded = (- 1, s') \<and>
     dirty_state_set demo_env (Some ''vm'') False s' = (0, s') \<and> \<not> persisted demo_env s'"
proof -
  obtain s' where s': "dirty_state_set demo_env_no_rename (Some ''vm'') False demo_loaded = (- 1, s')"
    using demo_no_rename by (metis prod.collapse)
  have "ds_accepts demo_loaded ''vm''"
    by (simp add: ds_accepts_def ds_valid_def demo_loaded_def)
  from dirty_state_failed_save_not_retried[OF this s'] s' show ?thesis
    by (auto simp: persisted_def ds_eval demo_loaded_def demo_env_no_rename_def)
qed

end
