(* ===== verification/Requests.thy ===== *)
theory Requests
  imports Html_Text
begin

text \<open>
  The request side of src/routes.c: the accumulation of a request body over the calls of the HTTP
  server, and the lookup of a value in a form body.
\<close>

section \<open>The body accumulator\<close>

record request_context =
  ctx_body :: "string option"
  ctx_body_size :: nat
  ctx_body_alloc :: nat

definition request_context_new :: request_context where
  "request_context_new = \<lparr>ctx_body = None, ctx_body_size = 0, ctx_body_alloc = 0\<rparr>"

text \<open>The result says whether the append succeeded.\<close>

definition request_context_append ::
  "allocator \<Rightarrow> string \<Rightarrow> request_context \<Rightarrow> bool \<times> request_context" where
  "request_context_append mem data ctx =
     (if data = [] then (True, ctx)
      else
       (let needed = ctx_body_size ctx + length data + 1;
            old = (case ctx_body ctx of None \<Rightarrow> [] | Some b \<Rightarrow> take (ctx_body_size ctx) b) in
        if ctx_body_alloc ctx < needed then
          (let new_alloc = (if needed < 1024 then 1024 else needed * 2) in
           if mem new_alloc
           then (True, \<lparr>ctx_body = Some (old @ data), ctx_body_size = ctx_body_size ctx + length data,
                        ctx_body_alloc = new_alloc\<rparr>)
           else (False, ctx))
        else (True, ctx\<lparr>ctx_body := Some (old @ data),
                        ctx_body_size := ctx_body_size ctx + length data\<rparr>)))"

definition ctx_content :: "request_context \<Rightarrow> string" where
  "ctx_content ctx = (case ctx_body ctx of None \<Rightarrow> [] | Some b \<Rightarrow> b)"

definition ctx_invar :: "request_context \<Rightarrow> bool" where
  "ctx_invar ctx \<longleftrightarrow> ctx_body_size ctx = length (ctx_content ctx) \<and>
     (ctx_body ctx \<noteq> None \<longrightarrow> ctx_body_size ctx + 1 \<le> ctx_body_alloc ctx) \<and>
     (ctx_body ctx = None \<longrightarrow> ctx_body_alloc ctx = 0)"

lemma ctx_new_invar: "ctx_invar request_context_new" "ctx_content request_context_new = []"
  by (simp_all add: ctx_invar_def ctx_content_def request_context_new_def)

lemma ctx_append_cases:
  assumes "ctx_invar ctx"
  shows "ctx_invar (snd (request_context_append mem data ctx))"
    and "ctx_content (snd (request_context_append mem data ctx)) =
      ctx_content ctx @ (if fst (request_context_append mem data ctx) then data else [])"
    and "(\<And>n. mem n) \<Longrightarrow> fst (request_context_append mem data ctx)"
  using assms
  by (auto simp: request_context_append_def ctx_invar_def ctx_content_def Let_def
      split: option.splits)

interpretation ctx: growing_buffer "\<lambda>mem data ctx. snd (request_context_append mem data ctx)"
    ctx_content ctx_invar
  by unfold_locales (auto simp: ctx_append_cases)

section \<open>Form values\<close>

text \<open>The byte before the pointer \<open>p\<close> into \<open>body\<close> allows a key to start at \<open>p\<close>.\<close>

definition key_may_start :: "string \<Rightarrow> string \<Rightarrow> bool" where
  "key_may_start body p \<longleftrightarrow>
     length p = length body \<or> body ! (length body - length p - 1) = CHR ''&''"

text \<open>
  The loop of \<open>form_value\<close>, with fuel; \<open>None\<close> is running out of it. The decoded value is read as a C
  string, so it ends at an encoded NUL byte.
\<close>

fun form_value_loop :: "nat \<Rightarrow> string \<Rightarrow> string \<Rightarrow> string \<Rightarrow> string option option" where
  "form_value_loop 0 body key p = None"
| "form_value_loop (Suc k) body key p =
     (case strstr p key of
        None \<Rightarrow> Some None
      | Some q \<Rightarrow>
          if \<not> key_may_start body q then form_value_loop k body key (drop (length key) q)
          else (case drop (length key) q of
                  [] \<Rightarrow> form_value_loop k body key (drop (length key) q)
                | c # v \<Rightarrow>
                   if c \<noteq> CHR ''='' then form_value_loop k body key (drop (length key) q)
                   else
                    (let raw = (case strchr v (CHR ''&'') of None \<Rightarrow> v | Some e \<Rightarrow> before v e)
                     in Some (Some (c_str (url_decode raw))))))"

text \<open>Fuel for every byte of the body suffices for a key that is not empty.\<close>

definition form_value :: "string option \<Rightarrow> string \<Rightarrow> string option option" where
  "form_value body key =
     (case body of None \<Rightarrow> Some None
      | Some b \<Rightarrow> form_value_loop (Suc (length (c_str b))) (c_str b) key (c_str b))"

section \<open>The specification of form values\<close>

text \<open>The value of the first of the parts between ampersands that starts with the key and an equals sign.\<close>

fun first_value :: "string \<Rightarrow> string list \<Rightarrow> string option" where
  "first_value key [] = None"
| "first_value key (part # parts) =
     (if prefix (key @ ''='') part
      then Some (c_str (url_decode (drop (length key + 1) part)))
      else first_value key parts)"

lemma split_on_append:
  "split_on c (x @ y) = butlast (split_on c x) @ (last (split_on c x) @ hd (split_on c y)) # tl (split_on c y)"
proof (induction x)
  case Nil
  then show ?case by (cases "split_on c y") auto
next
  case (Cons a x)
  show ?case
  proof (cases "a = c")
    case True
    with Cons show ?thesis by simp
  next
    case False
    obtain z zs where "split_on c x = z # zs" by (cases "split_on c x") auto
    with Cons False show ?thesis by (cases zs) auto
  qed
qed

text \<open>
  Where the first occurrence of the key is, no earlier part of the text can start with it.
\<close>

lemma strstr_no_earlier:
  "strstr (a @ b @ q) key = Some q \<Longrightarrow> b \<noteq> [] \<Longrightarrow> \<not> prefix key (b @ q)"
proof (induction a)
  case Nil
  then obtain x b' where b: "b = x # b'" by (cases b) auto
  show ?case
  proof
    assume "prefix key (b @ q)"
    with Nil b have "Some (b @ q) = Some q" by (auto simp: strstr_prefix)
    with b show False by simp
  qed
next
  case (Cons x a)
  have "length q < length (x # a @ b @ q)" by simp
  with Cons.prems have "\<not> prefix key (x # a @ b @ q)" by (auto split: if_splits)
  with Cons show ?case by simp
qed

lemma split_on_butlast:
  "part \<in> set (butlast (split_on c x)) \<Longrightarrow> \<exists>a b. x = a @ part @ c # b"
proof (induction x arbitrary: part)
  case (Cons y x)
  obtain z zs where z: "split_on c x = z # zs" by (cases "split_on c x") auto
  show ?case
  proof (cases "y = c")
    case True
    with Cons z show ?thesis
      by (auto split: if_splits intro: exI[of _ "[]"]) (metis append_Cons)+
  next
    case False
    with Cons.prems z have ne: "zs \<noteq> []" and p: "part = y # z \<or> part \<in> set (butlast zs)"
      by (auto split: if_splits)
    from p show ?thesis
    proof
      assume "part = y # z"
      moreover have "z \<in> set (butlast (split_on c x))" using z ne by simp
      moreover have "\<exists>b. x = z @ c # b"
        using z ne by (induction x arbitrary: z zs) (auto split: if_splits list.splits)
      ultimately show ?thesis by (auto intro: exI[of _ "[]"])
    next
      assume "part \<in> set (butlast zs)"
      then have "part \<in> set (butlast (split_on c x))" using z ne by simp
      with Cons.IH[of part] obtain a b where "x = a @ part @ c # b" by blast
      then show ?thesis by (metis append_Cons)
    qed
  qed
qed simp

lemma first_value_append:
  "(\<And>x. x \<in> set xs \<Longrightarrow> \<not> prefix (key @ ''='') x) \<Longrightarrow>
   first_value key (xs @ ys) = first_value key ys"
  by (induction xs) auto

lemma first_value_None: "(\<And>x. x \<in> set xs \<Longrightarrow> \<not> prefix (key @ ''='') x) \<Longrightarrow> first_value key xs = None"
  by (induction xs) auto

definition at_start :: "string \<Rightarrow> bool" where
  "at_start pre \<longleftrightarrow> pre = [] \<or> last pre = CHR ''&''"

lemma key_may_start_iff: "key_may_start (pre @ p) p \<longleftrightarrow> at_start pre"
  by (cases pre rule: rev_cases) (auto simp: key_may_start_def at_start_def nth_append)

definition parts_from :: "string \<Rightarrow> string \<Rightarrow> string list" where
  "parts_from pre p = (if at_start pre then split_on (CHR ''&'') p else tl (split_on (CHR ''&'') p))"

lemma prefix_key_in_part:
  "prefix (key @ ''='') part \<Longrightarrow> sublist key (a @ part @ b)"
  by (auto simp: prefix_def sublist_def) (metis append_assoc)

text \<open>No part that ends before the first occurrence of the key starts with it.\<close>

lemma early_parts:
  assumes "strstr (r @ q) key = Some q" "part \<in> set (butlast (split_on (CHR ''&'') r))"
  shows "\<not> prefix (key @ ''='') part"
proof
  assume pre: "prefix (key @ ''='') part"
  from split_on_butlast[OF assms(2)] obtain a b where r: "r = a @ part @ CHR ''&'' # b" by auto
  from pre obtain z where "part = key @ ''='' @ z" by (auto simp: prefix_def)
  with r strstr_no_earlier[of a "part @ CHR ''&'' # b" q key] assms(1) show False by auto
qed

lemma last_split_on: "\<exists>a. r = a @ last (split_on c r)"
proof (induction r)
  case (Cons x r)
  then obtain a where "r = a @ last (split_on c r)" ..
  obtain z zs where z: "split_on c r = z # zs" by (cases "split_on c r") auto
  show ?case
  proof (cases "x = c \<or> zs \<noteq> []")
    case True
    with \<open>r = a @ last (split_on c r)\<close> z show ?thesis
      by (auto intro!: exI[of _ "x # a"] split: if_splits)
  next
    case False
    have "r = z" using z False
      by (induction r arbitrary: z zs) (auto split: if_splits list.splits)
    with False z show ?thesis by auto
  qed
qed simp

lemma tl_split_on_Nil_iff: "tl (split_on c r) = [] \<longleftrightarrow> c \<notin> set r"
  by (induction r) (auto split: list.split)

lemma last_split_on_Nil_iff: "last (split_on c r) = [] \<longleftrightarrow> r = [] \<or> last r = c"
proof (induction r)
  case (Cons x r)
  obtain z zs where z: "split_on c r = z # zs" by (cases "split_on c r") auto
  have "zs = [] \<longleftrightarrow> c \<notin> set r" using tl_split_on_Nil_iff[of c r] z by simp
  moreover have "r \<noteq> [] \<Longrightarrow> last r \<in> set r" by simp
  moreover have "r = [] \<Longrightarrow> z = []" using z by simp
  ultimately show ?case using Cons z by (cases "x = c"; cases zs; cases "r = []") auto
qed simp

lemma last_part_no_key:
  assumes "strstr (r @ q) key = Some q" "last (split_on c r) \<noteq> []"
  shows "\<not> prefix key (last (split_on c r) @ q)"
proof -
  obtain a where r: "r = a @ last (split_on c r)" using last_split_on by blast
  have "strstr (a @ last (split_on c r) @ q) key = Some q"
    using assms(1) r by (metis append_assoc)
  from strstr_no_earlier[OF this assms(2)] show ?thesis .
qed

lemma split_on_hd_prefix: "\<exists>w. s = hd (split_on c s) @ w"
proof (induction s)
  case (Cons x s)
  then show ?case by (cases "split_on c s") auto
qed simp

text \<open>A rejected occurrence of the key: no part up to and including it counts.\<close>

lemma parts_after_rejected:
  assumes occ: "strstr (r @ key @ q') key = Some (key @ q')" "key \<noteq> []" "CHR ''&'' \<notin> set key"
    and rej: "\<not> at_start (pre @ r) \<or> (\<forall>v. q' \<noteq> CHR ''='' # v)"
  shows "first_value key (parts_from pre (r @ key @ q')) = first_value key (parts_from (pre @ r @ key) q')"
proof -
  let ?s = "split_on (CHR ''&'')"
  have key: "?s (key @ q') = (key @ hd (?s q')) # tl (?s q')"
    using split_on_append[of "CHR ''&''" key q'] assms(3) by (simp add: split_on_no_sep)
  have all: "?s (r @ key @ q') = butlast (?s r) @ (last (?s r) @ key @ hd (?s q')) # tl (?s q')"
    using split_on_append[of "CHR ''&''" r "key @ q'"] key by simp
  have after: "parts_from (pre @ r @ key) q' = tl (?s q')"
    using assms(2,3) by (auto simp: parts_from_def at_start_def) (metis last_in_set)
  have early: "\<not> prefix (key @ ''='') x" if "x \<in> set (butlast (?s r))" for x
    using early_parts[OF occ(1) that] .
  have mid: "\<not> prefix (key @ ''='') (last (?s r) @ key @ hd (?s q'))" if "last (?s r) \<noteq> [] \<or> at_start (pre @ r)"
  proof
    assume p: "prefix (key @ ''='') (last (?s r) @ key @ hd (?s q'))"
    obtain w where q': "q' = hd (?s q') @ w" using split_on_append[of "CHR ''&''" "[]" q']
      by (metis split_on_hd_prefix)
    show False
    proof (cases "last (?s r) = []")
      case True
      with that have "at_start (pre @ r)" by simp
      moreover from p True obtain v where "hd (?s q') = CHR ''='' # v" by (auto simp: prefix_def)
      ultimately show False using rej q' by auto
    next
      case False
      from last_part_no_key[OF occ(1) this] p q' show False
        by (metis append_assoc append_prefixD prefix_append prefix_prefix)
    qed
  qed
  show ?thesis
  proof (cases "at_start pre \<or> butlast (?s r) \<noteq> []")
    case False
    then show ?thesis unfolding after by (simp add: parts_from_def all)
  next
    case True
    have "at_start (pre @ r)" if "last (?s r) = []"
    proof -
      from that have "r = [] \<or> last r = CHR ''&''" by (simp add: last_split_on_Nil_iff)
      with True show ?thesis by (auto simp: at_start_def last_append)
    qed
    with mid have m: "\<not> prefix (key @ ''='') (last (?s r) @ key @ hd (?s q'))" by blast
    have e: "\<not> prefix (key @ ''='') x" if "x \<in> set (tl (butlast (?s r)))" for x
      using early that by (cases "butlast (?s r)") auto
    show ?thesis
    proof (cases "at_start pre")
      case True
      then show ?thesis
        unfolding after using first_value_append[OF early] m by (simp add: parts_from_def all)
    next
      case False
      with \<open>at_start pre \<or> butlast (?s r) \<noteq> []\<close> have
        "tl (?s (r @ key @ q')) = tl (butlast (?s r)) @ (last (?s r) @ key @ hd (?s q')) # tl (?s q')"
        by (simp add: all)
      then show ?thesis
        unfolding after using False first_value_append[OF e] m by (simp add: parts_from_def)
    qed
  qed
qed

text \<open>An accepted occurrence of the key: it starts the first part that counts.\<close>

lemma parts_at_accepted:
  assumes occ: "strstr (r @ key @ CHR ''='' # v) key = Some (key @ CHR ''='' # v)"
    and key: "CHR ''&'' \<notin> set key" and start: "at_start (pre @ r)"
  shows "first_value key (parts_from pre (r @ key @ CHR ''='' # v)) =
    Some (c_str (url_decode (hd (split_on (CHR ''&'') v))))"
proof -
  let ?s = "split_on (CHR ''&'')" and ?kv = "key @ CHR ''='' # v"
  have q: "?s ?kv = (key @ ''='' @ hd (?s v)) # tl (?s v)"
    using split_on_append[of "CHR ''&''" "key @ ''=''" v] key by (simp add: split_on_no_sep)
  have hit: "first_value key (?s ?kv) = Some (c_str (url_decode (hd (?s v))))"
    unfolding q by (simp add: prefix_def)
  have early: "\<not> prefix (key @ ''='') x" if "x \<in> set (butlast (?s r))" for x
    using early_parts[OF occ that] .
  show ?thesis
  proof (cases "r = []")
    case True
    with start hit show ?thesis by (simp add: parts_from_def)
  next
    case False
    with start have "last r = CHR ''&''" by (auto simp: at_start_def last_append)
    then have l: "last (?s r) = []" by (simp add: last_split_on_Nil_iff)
    have "CHR ''&'' \<in> set r" using False \<open>last r = CHR ''&''\<close> last_in_set by fastforce
    then have "tl (?s r) \<noteq> []" by (simp add: tl_split_on_Nil_iff)
    then have b: "butlast (?s r) \<noteq> []" by (cases "?s r") auto
    have all: "?s (r @ ?kv) = butlast (?s r) @ ?s ?kv"
      using split_on_append[of "CHR ''&''" r ?kv] l by simp
    have "first_value key (tl (butlast (?s r)) @ ?s ?kv) = first_value key (?s ?kv)"
      using early b by (intro first_value_append) (cases "butlast (?s r)", auto)
    with all b hit first_value_append[OF early] show ?thesis by (simp add: parts_from_def)
  qed
qed

lemma strchr_amp_split:
  "(case strchr v (CHR ''&'') of None \<Rightarrow> v | Some e \<Rightarrow> before v e) = hd (split_on (CHR ''&'') v)"
proof (cases "strchr v (CHR ''&'')")
  case None
  then have "CHR ''&'' \<notin> set v" by (simp add: strchr_None_iff)
  with None show ?thesis by (simp add: split_on_no_sep)
next
  case (Some e)
  then obtain p r where "v = p @ CHR ''&'' # r" "e = CHR ''&'' # r" "CHR ''&'' \<notin> set p"
    by (auto dest: strchr_SomeD)
  with Some show ?thesis by (simp add: before_append split_on_append_sep)
qed

lemma no_key_no_value:
  assumes "strstr p key = None"
  shows "first_value key (parts_from pre p) = None"
proof (rule first_value_None)
  fix x assume "x \<in> set (parts_from pre p)"
  then have "x \<in> set (split_on (CHR ''&'') p)"
    by (cases "split_on (CHR ''&'') p") (auto simp: parts_from_def split: if_splits)
  moreover have "x \<in> set (split_on c p) \<Longrightarrow> sublist x p" for c
  proof (induction p arbitrary: x)
    case (Cons y p)
    obtain z zs where z: "split_on c p = z # zs" by (cases "split_on c p") auto
    obtain w where w: "p = z @ w" using split_on_hd_prefix[of p c] z by auto
    have zs: "u \<in> set zs \<Longrightarrow> sublist u p" for u using Cons.IH[of u] z by simp
    have "sublist z p" using w by (auto simp: sublist_def intro: exI[of _ "[]"])
    with Cons.prems z zs w show ?case
      by (auto simp: sublist_Cons_right split: if_splits)
  qed simp
  ultimately have "sublist x p" by blast
  then show "\<not> prefix (key @ ''='') x"
    using assms unfolding strstr_None_iff
    by (meson append_prefixD prefix_imp_sublist sublist_order.order_trans)
qed

lemma form_value_loop_correct:
  assumes key: "key \<noteq> []" "CHR ''&'' \<notin> set key"
  shows "body = pre @ p \<Longrightarrow> length p < k \<Longrightarrow>
    form_value_loop k body key p = Some (first_value key (parts_from pre p))"
proof (induction k arbitrary: pre p)
  case (Suc k)
  show ?case
  proof (cases "strstr p key")
    case None
    then show ?thesis using no_key_no_value[OF None] by simp
  next
    case (Some q)
    then obtain r q' where p: "p = r @ q" "q = key @ q'"
      by (auto dest!: strstr_SomeD simp: prefix_def)
    have occ: "strstr (r @ key @ q') key = Some (key @ q')" using Some p by simp
    have st: "key_may_start body q \<longleftrightarrow> at_start (pre @ r)"
      using key_may_start_iff[of "pre @ r" q] Suc.prems p by simp
    have rest: "form_value_loop k body key q' = Some (first_value key (parts_from (pre @ r @ key) q'))"
      using Suc.prems p key by (intro Suc.IH) (auto simp: length_greater_0_conv[symmetric] simp del: length_greater_0_conv)
    have rej: "first_value key (parts_from pre p) = first_value key (parts_from (pre @ r @ key) q')"
      if "\<not> at_start (pre @ r) \<or> (\<forall>v. q' \<noteq> CHR ''='' # v)"
      using parts_after_rejected[OF occ key that] p by simp
    show ?thesis
    proof (cases "at_start (pre @ r) \<and> (\<exists>v. q' = CHR ''='' # v)")
      case True
      then obtain v where v: "q' = CHR ''='' # v" by auto
      from parts_at_accepted[OF occ[unfolded v] key(2)] True have
        "first_value key (parts_from pre p) = Some (c_str (url_decode (hd (split_on (CHR ''&'') v))))"
        using p v by simp
      with True Some p v st show ?thesis by (simp add: strchr_amp_split)
    next
      case False
      with Some p st rest rej show ?thesis by (cases q') (auto split: if_splits)
    qed
  qed
qed simp

lemma form_value_spec:
  "key \<noteq> [] \<Longrightarrow> CHR ''&'' \<notin> set key \<Longrightarrow>
   form_value body key =
     Some (case body of None \<Rightarrow> None | Some b \<Rightarrow> first_value key (split_on (CHR ''&'') (c_str b)))"
  using form_value_loop_correct[of key "c_str (the body)" "[]" "c_str (the body)"]
  by (cases body) (auto simp: form_value_def parts_from_def at_start_def simp del: form_value_loop.simps)

section \<open>Properties\<close>

text \<open>
  A form body as a browser sends it: the encoding \<open>application/x-www-form-urlencoded\<close> of the URL
  Standard, in which a blank becomes a plus sign, letters, digits and four marks stand for themselves,
  and every other byte becomes a percent sign and two digits. The line breaks of a value are those
  that the browser submits.
\<close>

definition form_plain :: "char \<Rightarrow> bool" where
  "form_plain c \<longleftrightarrow>
     (CHR ''A'' \<le> c \<and> c \<le> CHR ''Z'') \<or> (CHR ''a'' \<le> c \<and> c \<le> CHR ''z'') \<or> isdigit c \<or>
     c = CHR ''*'' \<or> c = CHR ''-'' \<or> c = CHR ''.'' \<or> c = CHR ''_''"

definition percent_encode1 :: "char \<Rightarrow> string" where
  "percent_encode1 c = [CHR ''%'', hex_upper (of_char c div 16), hex_upper (of_char c mod 16)]"

definition form_encode1 :: "char \<Rightarrow> string" where
  "form_encode1 c = (if form_plain c then [c] else if c = CHR '' '' then ''+'' else percent_encode1 c)"

definition form_encode :: "string \<Rightarrow> string" where
  "form_encode s = concat (map form_encode1 s)"

fun form_body :: "(string \<times> string) list \<Rightarrow> string" where
  "form_body [] = []"
| "form_body [(k, v)] = form_encode k @ CHR ''='' # form_encode v"
| "form_body ((k, v) # f # fs) = (form_encode k @ CHR ''='' # form_encode v) @ CHR ''&'' # form_body (f # fs)"

text \<open>The keys of the program's forms consist of bytes that stand for themselves.\<close>

definition form_key :: "string \<Rightarrow> bool" where
  "form_key k \<longleftrightarrow> k \<noteq> [] \<and> list_all form_plain k"

lemma hex_digits_of_byte: "(of_char (d :: char) :: nat) div 16 < 16" "(of_char (d :: char) :: nat) mod 16 < 16"
  using of_char_less_256[of d] by (simp_all add: less_mult_imp_div_less)

lemma percent_encode1_clean:
  "c \<in> set (percent_encode1 d) \<Longrightarrow> c \<noteq> CHR ''&'' \<and> c \<noteq> CHR ''='' \<and> c \<noteq> NUL \<and> c \<noteq> CHR ''/''"
proof -
  have "hex_upper n \<noteq> CHR ''&'' \<and> hex_upper n \<noteq> CHR ''='' \<and> hex_upper n \<noteq> NUL \<and> hex_upper n \<noteq> CHR ''/''"
    if "n < 16" for n
    using that by (auto simp: hex_upper_def char_of_eq_iff take_bit_nat_eq_self)
  then show "c \<in> set (percent_encode1 d) \<Longrightarrow> ?thesis"
    using hex_digits_of_byte[of d] by (auto simp: percent_encode1_def)
qed

lemma form_plain_clean:
  "form_plain c \<Longrightarrow> c \<noteq> CHR ''&'' \<and> c \<noteq> CHR ''='' \<and> c \<noteq> NUL \<and> c \<noteq> CHR ''%'' \<and> c \<noteq> CHR ''+''"
  by (auto simp: form_plain_def isdigit_def)

lemma form_encode_clean: "c \<in> set (form_encode s) \<Longrightarrow> c \<noteq> CHR ''&'' \<and> c \<noteq> CHR ''='' \<and> c \<noteq> NUL"
  by (auto simp: form_encode_def form_encode1_def dest: percent_encode1_clean form_plain_clean split: if_splits)

lemma form_encode_plain: "list_all form_plain k \<Longrightarrow> form_encode k = k"
  by (induction k) (simp_all add: form_encode_def form_encode1_def)

lemma form_encode_key: "form_key k \<Longrightarrow> form_encode k = k"
  by (simp add: form_key_def form_encode_plain)

lemma url_decode_percent: "url_decode (percent_encode1 c @ t) = c # url_decode t"
proof -
  have "nat (int (of_char c div 16) * 16 + int (of_char c mod 16)) = (of_char c :: nat)"
    using div_mult_mod_eq[of "of_char c :: nat" 16] by linarith
  then show ?thesis
    using hex_digits_of_byte[of c] by (simp add: percent_encode1_def url_decode_hex hex_digit_hex_upper)
qed

lemma url_decode_form1: "url_decode (form_encode1 c @ t) = c # url_decode t"
proof -
  have "url_decode (CHR ''+'' # t) = CHR '' '' # url_decode t" by (subst url_decode.simps) simp
  then show ?thesis
    using form_plain_clean[of c] by (auto simp: form_encode1_def url_decode_percent url_decode_plain)
qed

lemma url_decode_form: "url_decode (form_encode s) = s"
  by (induction s) (simp_all add: form_encode_def url_decode_form1)

lemma split_form_body:
  "fs \<noteq> [] \<Longrightarrow> split_on (CHR ''&'') (form_body fs) = map (\<lambda>(k, v). form_encode k @ CHR ''='' # form_encode v) fs"
proof (induction fs rule: form_body.induct)
  case (2 k v)
  have "CHR ''&'' \<notin> set (form_encode k @ CHR ''='' # form_encode v)" by (auto dest: form_encode_clean)
  then show ?case by (simp add: split_on_no_sep)
next
  case (3 k v f fs)
  have "CHR ''&'' \<notin> set (form_encode k @ CHR ''='' # form_encode v)" by (auto dest: form_encode_clean)
  from split_on_append_sep[OF this] 3 show ?case by simp
qed simp

lemma form_body_no_nul: "NUL \<notin> set (form_body fs)"
  by (induction fs rule: form_body.induct) (auto dest: form_encode_clean)

lemma prefix_key_eq:
  "CHR ''='' \<notin> set key \<Longrightarrow> CHR ''='' \<notin> set k \<Longrightarrow> prefix (key @ ''='') (k @ CHR ''='' # r) \<longleftrightarrow> key = k"
proof (induction key arbitrary: k)
  case Nil
  then show ?case by (cases k) auto
next
  case (Cons c key)
  then show ?case by (cases k) auto
qed

lemma form_key_clean: "form_key k \<Longrightarrow> k \<noteq> [] \<and> CHR ''&'' \<notin> set k \<and> CHR ''='' \<notin> set k"
  by (auto simp: form_key_def list_all_iff dest: form_plain_clean)

lemma first_value_form_body:
  "form_key key \<Longrightarrow> \<forall>(k, v)\<in>set fs. form_key k \<and> NUL \<notin> set v \<Longrightarrow>
   first_value key (map (\<lambda>(k, v). form_encode k @ CHR ''='' # form_encode v) fs) = map_of fs key"
  by (induction fs)
    (auto simp: form_encode_key form_key_clean prefix_key_eq url_decode_form c_str_id)

lemma form_value_form_body:
  assumes "form_key key" "\<forall>(k, v)\<in>set fs. form_key k \<and> NUL \<notin> set v"
  shows "form_value (Some (form_body fs)) key = Some (map_of fs key)"
proof (cases "fs = []")
  case True
  with form_key_clean[OF assms(1)] show ?thesis by (simp add: form_value_spec c_str_def)
next
  case False
  then show ?thesis
    using form_key_clean[OF assms(1)] first_value_form_body[OF assms] split_form_body[OF False]
    by (simp add: form_value_spec c_str_id[OF form_body_no_nul])
qed

text \<open>C18: a form field is read back as it was entered. For every list of fields whose keys consist
  of letters, digits and the marks that a browser does not encode, and whose values are free of NUL
  bytes, looking up such a key in the body that a browser sends for them, with blanks as plus signs
  and other bytes percent-encoded, ends and returns the value of the first field with that key, and
  nothing when there is none.\<close>

theorem form_value_roundtrip:
  assumes "form_key key" "\<forall>(k, v)\<in>set fs. form_key k \<and> NUL \<notin> set v"
  shows "form_value (Some (form_body fs)) key = Some (map_of fs key)"
  using assms by (rule form_value_form_body)

theorem form_value_roundtrip_witness:
  "form_value (Some (form_body [(''description'', ''a&name=b''), (''name'', ''my snap'')])) ''name''
     = Some (Some ''my snap'')"
  using form_value_roundtrip[of "''name''" "[(''description'', ''a&name=b''), (''name'', ''my snap'')]"]
  by (simp add: form_key_def form_plain_def isdigit_def)

end
