(* ===== verification/Handlers.thy ===== *)
theory Handlers
  imports Html_Render Route_Templates Dirty_State Requests
begin

text \<open>
  The request handlers of src/routes.c, over any backend table. A handler takes the environment, the
  names from the URL, the request and the program's state, and gives the response and the new
  state; \<open>None\<close> is a handler that does not return. The trees that backends return are walked with
  fuel for every node of their heap, which is enough for every tree.
\<close>

section \<open>Environment, state, responses\<close>

text \<open>The functions of the libvirt backend that handlers call directly, whatever backend is active.\<close>

record 's lv_direct =
  ld_last_error :: "'s \<Rightarrow> string"
  ld_convert_nvram :: "string \<Rightarrow> 's \<Rightarrow> int \<times> 's"
  ld_check_nvram :: "string \<Rightarrow> 's \<Rightarrow> int"
  ld_edit_description :: "string \<Rightarrow> string \<Rightarrow> string \<Rightarrow> 's \<Rightarrow> int \<times> 's"
  ld_scan_orphans :: "string \<Rightarrow> 's \<Rightarrow> string list option \<times> 's"
  ld_cleanup_orphans :: "string \<Rightarrow> 's \<Rightarrow> int \<times> 's"
  ld_enable_shared_memory :: "string \<Rightarrow> 's \<Rightarrow> 's"

text \<open>
  \<open>re_dumps\<close> is \<open>json_dumps\<close> with indentation, \<open>re_stamp\<close> the local time as the format
  \<open>%Y%m%d-%H%M%S\<close> prints it; the rest is the host's file system as the directory browser sees it.
\<close>

record 's route_env =
  re_backend :: "'s vm_backend option"
  re_direct :: "'s lv_direct"
  re_ds :: ds_env
  re_utf8 :: utf8_check
  re_dumps :: "json \<Rightarrow> string option"
  re_stamp :: string
  re_sudo_user :: "string option"
  re_realpath :: "string \<Rightarrow> string option"
  re_opendir :: "string \<Rightarrow> string list option"
  re_is_dir :: "string \<Rightarrow> bool"

record 's app =
  app_sys :: 's
  app_dirty :: dirty_state

record response =
  r_status :: nat
  r_type :: string
  r_trigger :: "string option"
  r_body :: string

type_synonym 's handled = "(response \<times> 's app) option"

abbreviation MHD_HTTP_OK :: nat where "MHD_HTTP_OK \<equiv> 200"
abbreviation MHD_HTTP_BAD_REQUEST :: nat where "MHD_HTTP_BAD_REQUEST \<equiv> 400"
abbreviation MHD_HTTP_FORBIDDEN :: nat where "MHD_HTTP_FORBIDDEN \<equiv> 403"
abbreviation MHD_HTTP_NOT_FOUND :: nat where "MHD_HTTP_NOT_FOUND \<equiv> 404"
abbreviation MHD_HTTP_METHOD_NOT_ALLOWED :: nat where "MHD_HTTP_METHOD_NOT_ALLOWED \<equiv> 405"
abbreviation MHD_HTTP_INTERNAL_SERVER_ERROR :: nat where "MHD_HTTP_INTERNAL_SERVER_ERROR \<equiv> 500"

definition send_html :: "nat \<Rightarrow> string \<Rightarrow> response" where
  "send_html status html =
     \<lparr>r_status = status, r_type = ''text/html; charset=utf-8'', r_trigger = None, r_body = html\<rparr>"

definition send_json :: "nat \<Rightarrow> string \<Rightarrow> response" where
  "send_json status j =
     \<lparr>r_status = status, r_type = ''application/json'', r_trigger = None, r_body = j\<rparr>"

definition send_404 :: response where
  "send_404 = send_html MHD_HTTP_NOT_FOUND t_404"

definition send_405 :: response where
  "send_405 = send_html MHD_HTTP_METHOD_NOT_ALLOWED t_405"

definition send_html_trigger :: "nat \<Rightarrow> string \<Rightarrow> string option \<Rightarrow> response" where
  "send_html_trigger status html trigger =
     \<lparr>r_status = status, r_type = ''text/html; charset=utf-8'', r_trigger = trigger, r_body = html\<rparr>"

abbreviation vm_changed :: "string option" where "vm_changed \<equiv> Some ''vmStateChanged''"
abbreviation folders_updating :: "string option" where "folders_updating \<equiv> Some ''sharedFoldersUpdating''"
abbreviation folders_changed :: "string option" where "folders_changed \<equiv> Some ''sharedFoldersChanged''"

section \<open>Calls into the backend\<close>

text \<open>Running an operation on the backend's part of the state.\<close>

definition on_sys :: "('s \<Rightarrow> 'r \<times> 's) \<Rightarrow> 's app \<Rightarrow> 'r \<times> 's app" where
  "on_sys f a = (case f (app_sys a) of (r, s) \<Rightarrow> (r, a\<lparr>app_sys := s\<rparr>))"

definition last_error :: "'s route_env \<Rightarrow> 's app \<Rightarrow> string" where
  "last_error env a = ld_last_error (re_direct env) (app_sys a)"

definition error_or_unknown :: "string \<Rightarrow> string" where
  "error_or_unknown err = (if err \<noteq> [] then err else ''unknown error'')"

definition vm_is_dirty :: "'s route_env \<Rightarrow> string \<Rightarrow> vm_state \<Rightarrow> 's app \<Rightarrow> bool \<times> 's app" where
  "vm_is_dirty env name st a =
     (case dirty_state_is_dirty (re_ds env) name st (app_dirty a) of
        (d, ds) \<Rightarrow> (d, a\<lparr>app_dirty := ds\<rparr>))"

definition mark_vm_clean :: "'s route_env \<Rightarrow> string \<Rightarrow> 's app \<Rightarrow> 's app" where
  "mark_vm_clean env name a =
     a\<lparr>app_dirty := dirty_state_mark_clean (re_ds env) (Some name) (app_dirty a)\<rparr>"

text \<open>The state of a machine in the list, \<open>None\<close> when the list fails or does not have it.\<close>

definition find_vm :: "string \<Rightarrow> vm_info list \<Rightarrow> vm_state option" where
  "find_vm name vms = map_option vm_state_of (find (\<lambda>v. str_eq (Some (vm_name v)) (Some name)) vms)"

definition lookup_vm_state :: "'s vm_backend \<Rightarrow> string \<Rightarrow> 's app \<Rightarrow> vm_state option \<times> 's app" where
  "lookup_vm_state be name a =
     (case on_sys (be_list_vms be) a of
        (None, a1) \<Rightarrow> (None, a1)
      | (Some vms, a1) \<Rightarrow> (find_vm name vms, a1))"

section \<open>Machines\<close>

definition handle_list_vms :: "'s route_env \<Rightarrow> 's app \<Rightarrow> 's handled" where
  "handle_list_vms env a =
     (case re_backend env of
        None \<Rightarrow> Some (send_html MHD_HTTP_INTERNAL_SERVER_ERROR
                        (render_error (Some ''Failed to list VMs'')), a)
      | Some be \<Rightarrow>
         (case on_sys (be_list_vms be) a of
            (None, a1) \<Rightarrow> Some (send_html MHD_HTTP_INTERNAL_SERVER_ERROR
                                (render_error (Some ''Failed to list VMs'')), a1)
          | (Some vms, a1) \<Rightarrow> Some (send_html MHD_HTTP_OK (render_vm_list (map Some vms)), a1)))"

text \<open>
  A life cycle handler: the operation, absent when there is no backend or no such operation, and
  the response to its failure.
\<close>

definition vm_action ::
  "(string \<Rightarrow> 's \<Rightarrow> int \<times> 's) option \<Rightarrow> string \<Rightarrow> ('s app \<Rightarrow> string) \<Rightarrow> string \<Rightarrow> 's app \<Rightarrow> 's handled" where
  "vm_action op vm failed done_text a =
     (case op of
        None \<Rightarrow> Some (send_html_trigger MHD_HTTP_INTERNAL_SERVER_ERROR
                        (render_error (Some (failed a))) vm_changed, a)
      | Some f \<Rightarrow>
         (case on_sys (f vm) a of
            (rc, a1) \<Rightarrow>
              if rc \<noteq> 0
              then Some (send_html_trigger MHD_HTTP_INTERNAL_SERVER_ERROR
                           (render_error (Some (failed a1))) vm_changed, a1)
              else Some (send_html_trigger MHD_HTTP_OK (render_success (Some done_text)) vm_changed, a1)))"

definition handle_vm_start :: "'s route_env \<Rightarrow> string \<Rightarrow> 's app \<Rightarrow> 's handled" where
  "handle_vm_start env vm =
     vm_action (map_option be_vm_start (re_backend env)) vm
       (\<lambda>a. snprintf_buf 512 (''Failed to start VM: '' @ error_or_unknown (last_error env a)))
       ''VM started''"

definition handle_vm_stop :: "'s route_env \<Rightarrow> string \<Rightarrow> 's app \<Rightarrow> 's handled" where
  "handle_vm_stop env vm =
     vm_action (map_option be_vm_stop (re_backend env)) vm
       (\<lambda>a. snprintf_buf 512 (''Failed to stop VM: '' @ error_or_unknown (last_error env a)))
       ''VM stopped''"

definition handle_vm_pause :: "'s route_env \<Rightarrow> string \<Rightarrow> 's app \<Rightarrow> 's handled" where
  "handle_vm_pause env vm =
     vm_action (map_option be_vm_pause (re_backend env)) vm (\<lambda>_. ''Failed to pause VM'') ''VM paused''"

definition handle_vm_resume :: "'s route_env \<Rightarrow> string \<Rightarrow> 's app \<Rightarrow> 's handled" where
  "handle_vm_resume env vm =
     vm_action (Option.bind (re_backend env) be_vm_resume) vm (\<lambda>_. ''Failed to resume VM'') ''VM resumed''"

definition handle_vm_force_stop :: "'s route_env \<Rightarrow> string \<Rightarrow> 's app \<Rightarrow> 's handled" where
  "handle_vm_force_stop env vm =
     vm_action (Option.bind (re_backend env) be_vm_force_stop) vm
       (\<lambda>_. ''Failed to force-stop VM'') ''VM force-stopped''"

definition handle_convert_nvram :: "'s route_env \<Rightarrow> string \<Rightarrow> 's app \<Rightarrow> 's handled" where
  "handle_convert_nvram env vm a =
     (case on_sys (ld_convert_nvram (re_direct env) vm) a of
        (rc, a1) \<Rightarrow>
          if rc = 1 then Some (send_html MHD_HTTP_OK (render_success (Some t_nvram_already)), a1)
          else if rc \<noteq> 0
          then Some (send_html MHD_HTTP_INTERNAL_SERVER_ERROR
                 (render_error (Some (snprintf_buf 1200 (''NVRAM conversion failed: '' @ last_error env a1)))), a1)
          else Some (send_html_trigger MHD_HTTP_OK (render_success (Some t_nvram_done)) vm_changed, a1))"

definition handle_orphan_check :: "'s route_env \<Rightarrow> string \<Rightarrow> 's app \<Rightarrow> 's handled" where
  "handle_orphan_check env vm a =
     (case on_sys (ld_scan_orphans (re_direct env) vm) a of
        (None, a1) \<Rightarrow> Some (send_html MHD_HTTP_OK [], a1)
      | (Some names, a1) \<Rightarrow> Some (send_html MHD_HTTP_OK (render_orphan_warning (Some vm) names), a1))"

definition handle_orphan_cleanup :: "'s route_env \<Rightarrow> string \<Rightarrow> 's app \<Rightarrow> 's handled" where
  "handle_orphan_cleanup env vm a =
     (case on_sys (ld_cleanup_orphans (re_direct env) vm) a of
        (cleaned, a1) \<Rightarrow>
          if cleaned < 0
          then Some (send_html MHD_HTTP_INTERNAL_SERVER_ERROR
                 (render_error (Some (snprintf_buf 512 (''Cleanup failed: '' @ last_error env a1)))), a1)
          else if cleaned = 0
          then Some (send_html MHD_HTTP_OK (render_success (Some ''No orphan snapshots found'')), a1)
          else Some (send_html_trigger MHD_HTTP_OK
                 (render_success (Some (snprintf_buf 128
                    (fmt ''Cleaned %d orphan snapshot%s from disk files''
                       [dec_int cleaned, if cleaned = 1 then [] else ''s''])))) vm_changed, a1))"

section \<open>Snapshots\<close>

definition tree_fuel :: "heap \<Rightarrow> nat" where
  "tree_fuel h = Suc (length h)"

definition handle_snapshot_tree :: "'s route_env \<Rightarrow> string \<Rightarrow> 's app \<Rightarrow> 's handled" where
  "handle_snapshot_tree env vm a =
     (case re_backend env of
        None \<Rightarrow> Some (send_json MHD_HTTP_OK t_tree_error, a)
      | Some be \<Rightarrow>
         (case on_sys (be_list_snapshots be vm) a of
            (None, a1) \<Rightarrow> Some (send_json MHD_HTTP_OK t_tree_error, a1)
          | (Some (None, h), a1) \<Rightarrow> Some (send_json MHD_HTTP_OK t_tree_empty, a1)
          | (Some (Some root, h), a1) \<Rightarrow>
             (case lookup_vm_state be vm a1 of
                (st, a2) \<Rightarrow>
                 (case (case st of
                          None \<Rightarrow> (Some h, a2)
                        | Some v \<Rightarrow>
                           (case vm_is_dirty env vm v a2 of
                              (d, a3) \<Rightarrow>
                                (snapshot_tree_add_current_state (tree_fuel h) h root (vm_state_str v) d, a3))) of
                    (None, a4) \<Rightarrow> None
                  | (Some h', a4) \<Rightarrow>
                     (case snapshot_tree_to_json (re_utf8 env) (re_dumps env) (tree_fuel h') h' root of
                        Some (Some text) \<Rightarrow> Some (send_json MHD_HTTP_OK text, a4)
                      | _ \<Rightarrow> None)))))"

text \<open>
  The lookup shared by the panel and the edit form: the node with the name, or the response that
  says why there is none.
\<close>

definition load_snapshot ::
  "'s route_env \<Rightarrow> string \<Rightarrow> string \<Rightarrow> 's app \<Rightarrow> ((response + snapshot_node) \<times> 's app) option" where
  "load_snapshot env vm snap a =
     (let failed = Inl (send_html MHD_HTTP_INTERNAL_SERVER_ERROR
                          (render_error (Some ''Failed to load snapshots''))) in
      case re_backend env of
        None \<Rightarrow> Some (failed, a)
      | Some be \<Rightarrow>
         (case on_sys (be_list_snapshots be vm) a of
            (Some (Some root, h), a1) \<Rightarrow>
             (case snapshot_tree_find (tree_fuel h) h root (Some snap) of
                None \<Rightarrow> None
              | Some None \<Rightarrow>
                  Some (Inl (send_html MHD_HTTP_NOT_FOUND (render_error (Some ''Snapshot not found''))), a1)
              | Some (Some n) \<Rightarrow> Some (Inr (h ! n), a1))
          | (_, a1) \<Rightarrow> Some (failed, a1)))"

definition handle_snapshot_detail :: "'s route_env \<Rightarrow> string \<Rightarrow> string \<Rightarrow> 's app \<Rightarrow> 's handled" where
  "handle_snapshot_detail env vm snap a =
     (case load_snapshot env vm snap a of
        None \<Rightarrow> None
      | Some (Inl r, a1) \<Rightarrow> Some (r, a1)
      | Some (Inr n, a1) \<Rightarrow>
         (case re_backend env of
            None \<Rightarrow> None
          | Some be \<Rightarrow>
             (case lookup_vm_state be vm a1 of
                (st, a2) \<Rightarrow>
                  Some (send_html MHD_HTTP_OK
                    (render_snapshot_detail (Some vm) (Some n) (case st of None \<Rightarrow> VM_OTHER | Some v \<Rightarrow> v)),
                    a2))))"

definition hyphenate :: "string \<Rightarrow> string" where
  "hyphenate name = map (\<lambda>c. if c = CHR '' '' then CHR ''-'' else c) name"

text \<open>The text for a failed creation, by what the libvirt error mentions.\<close>

definition create_failed_text :: "string \<Rightarrow> string \<Rightarrow> string" where
  "create_failed_text vm err =
     snprintf_buf 1300
       (if strstr err ''pflash'' \<noteq> None \<or> strstr err ''QCOW2 nvram'' \<noteq> None \<or> strstr err ''qcow2'' \<noteq> None
        then fmt t_need_qcow2 [vm]
        else if strstr err ''Invalid job ID'' \<noteq> None then t_bad_job
        else ''Failed to create snapshot: '' @ err)"

definition handle_create_snapshot ::
  "'s route_env \<Rightarrow> string \<Rightarrow> string option \<Rightarrow> 's app \<Rightarrow> 's handled" where
  "handle_create_snapshot env vm body a =
     (case re_backend env of
        None \<Rightarrow> Some (send_html_trigger MHD_HTTP_INTERNAL_SERVER_ERROR
                        (render_error (Some ''No backend available'')) vm_changed, a)
      | Some be \<Rightarrow>
         Option.bind (form_value body ''name'') (\<lambda>name.
         Option.bind (form_value body ''description'') (\<lambda>description.
         Option.bind (form_value body ''type'') (\<lambda>type_str.
           if name = None \<or> name = Some []
           then Some (send_html_trigger MHD_HTTP_BAD_REQUEST
                        (render_error (Some ''Snapshot name is required'')) vm_changed, a)
           else
            (let ty = (if type_str \<noteq> None \<and> str_eq type_str (Some ''external'')
                       then SNAP_EXTERNAL else SNAP_INTERNAL) in
             case on_sys (be_create_snapshot be vm (hyphenate (the name)) (or_empty description) ty) a of
               (rc, a1) \<Rightarrow>
                 if rc \<noteq> 0
                 then Some (send_html_trigger MHD_HTTP_INTERNAL_SERVER_ERROR
                        (render_error (Some (create_failed_text vm (last_error env a1)))) vm_changed, a1)
                 else Some (send_html_trigger MHD_HTTP_OK (render_success (Some ''Snapshot created'')) vm_changed,
                            mark_vm_clean env vm a1))))))"

definition handle_edit_snapshot_form ::
  "'s route_env \<Rightarrow> string \<Rightarrow> string \<Rightarrow> 's app \<Rightarrow> 's handled" where
  "handle_edit_snapshot_form env vm snap a =
     (case load_snapshot env vm snap a of
        None \<Rightarrow> None
      | Some (Inl r, a1) \<Rightarrow> Some (r, a1)
      | Some (Inr n, a1) \<Rightarrow>
         (let esc_name = html_escape (Some snap); esc_vm = html_escape (Some vm);
              esc_desc = html_escape (Some (or_empty (node_description n)))
          in Some (send_html MHD_HTTP_OK
               (snprintf_buf 4096 (fmt t_edit_form [esc_name, esc_vm, esc_name, esc_desc, esc_vm, esc_name])),
               a1)))"

text \<open>
  The panel that follows a successful edit or revert, when the snapshot can be found again;
  \<open>default_state\<close> is the state assumed when the machine is not in the list.
\<close>

definition fresh_detail ::
  "'s route_env \<Rightarrow> string \<Rightarrow> string \<Rightarrow> vm_state \<Rightarrow> 's app \<Rightarrow> (string option \<times> 's app) option" where
  "fresh_detail env vm snap default_state a =
     (case re_backend env of
        None \<Rightarrow> Some (None, a)
      | Some be \<Rightarrow>
         (case on_sys (be_list_snapshots be vm) a of
            (Some (Some root, h), a1) \<Rightarrow>
             (case snapshot_tree_find (tree_fuel h) h root (Some snap) of
                None \<Rightarrow> None
              | Some None \<Rightarrow> Some (None, a1)
              | Some (Some n) \<Rightarrow>
                 (case lookup_vm_state be vm a1 of
                    (st, a2) \<Rightarrow>
                      Some (Some (render_snapshot_detail (Some vm) (Some (h ! n))
                                    (case st of None \<Rightarrow> default_state | Some v \<Rightarrow> v)), a2)))
          | (_, a1) \<Rightarrow> Some (None, a1)))"

definition handle_edit_snapshot ::
  "'s route_env \<Rightarrow> string \<Rightarrow> string \<Rightarrow> string option \<Rightarrow> 's app \<Rightarrow> 's handled" where
  "handle_edit_snapshot env vm snap body a =
     Option.bind (form_value body ''description'') (\<lambda>desc.
       case on_sys (ld_edit_description (re_direct env) vm snap (or_empty desc)) a of
         (rc, a1) \<Rightarrow>
           if rc \<noteq> 0
           then Some (send_html MHD_HTTP_INTERNAL_SERVER_ERROR
                  (render_error (Some (snprintf_buf 512
                     (''Failed to update description: '' @ last_error env a1)))), a1)
           else
            (case fresh_detail env vm snap VM_OTHER a1 of
               None \<Rightarrow> None
             | Some (Some detail, a2) \<Rightarrow>
                 Some (send_html_trigger MHD_HTTP_OK (fmt t_edit_done [detail]) vm_changed, a2)
             | Some (None, a2) \<Rightarrow>
                 Some (send_html_trigger MHD_HTTP_OK (render_success (Some ''Description updated'')) vm_changed,
                       a2)))"

definition handle_delete_snapshot :: "'s route_env \<Rightarrow> string \<Rightarrow> string \<Rightarrow> 's app \<Rightarrow> 's handled" where
  "handle_delete_snapshot env vm snap a =
     (case re_backend env of
        None \<Rightarrow> Some (send_html MHD_HTTP_INTERNAL_SERVER_ERROR
                        (render_error (Some ''No backend available'')), a)
      | Some be \<Rightarrow>
         (case lookup_vm_state be vm a of
            (st, a1) \<Rightarrow>
              if st = Some VM_RUNNING \<or> st = Some VM_PAUSED
              then Some (send_html_trigger MHD_HTTP_BAD_REQUEST (render_error (Some t_delete_blocked))
                           vm_changed, a1)
              else
               (case on_sys (be_delete_snapshot be vm snap True) a1 of
                  (rc, a2) \<Rightarrow>
                    if rc \<noteq> 0
                    then Some (send_html_trigger MHD_HTTP_INTERNAL_SERVER_ERROR
                           (render_error (Some (snprintf_buf 512
                              (''Failed to delete snapshot: '' @ last_error env a2)))) vm_changed, a2)
                    else Some (send_html_trigger MHD_HTTP_OK (render_success (Some ''Snapshot deleted''))
                                 vm_changed, a2))))"

definition handle_revert_confirm :: "'s route_env \<Rightarrow> string \<Rightarrow> string \<Rightarrow> 's app \<Rightarrow> 's handled" where
  "handle_revert_confirm env vm snap a =
     (case re_backend env of
        None \<Rightarrow> Some (send_html MHD_HTTP_INTERNAL_SERVER_ERROR
                        (render_error (Some ''No backend available'')), a)
      | Some be \<Rightarrow>
         (case lookup_vm_state be vm a of
            (st, a1) \<Rightarrow>
             (case (case st of None \<Rightarrow> (False, a1) | Some v \<Rightarrow> vm_is_dirty env vm v a1) of
                (dirty, a2) \<Rightarrow>
                 (let v = html_escape (Some vm); n = html_escape (Some snap) in
                  Some (send_html MHD_HTTP_OK (snprintf_buf 6144
                    (if st = Some VM_RUNNING then fmt t_revert_running [v, n]
                     else if dirty then fmt t_revert_dirty [v, n, v, n, v, n]
                     else fmt t_revert_clean [n, v, n, v, n])), a2)))))"

text \<open>The optional save before a revert; the result is the code of the creation, 0 when none is wanted.\<close>

definition save_before_revert ::
  "'s route_env \<Rightarrow> 's vm_backend \<Rightarrow> string \<Rightarrow> bool \<Rightarrow> 's app \<Rightarrow> int \<times> 's app" where
  "save_before_revert env be vm save a =
     (if save
      then on_sys (be_create_snapshot be vm (''pre-revert-'' @ re_stamp env)
             ''Auto-saved before revert'' SNAP_INTERNAL) a
      else (0, a))"

definition reverted_text :: "bool \<Rightarrow> string \<Rightarrow> string" where
  "reverted_text save snap =
     snprintf_buf 256
       ((if save then ''Current state saved. '' else []) @ ''Reverted to '' @ SQUOTE # snap @ [SQUOTE])"

definition handle_revert_snapshot ::
  "'s route_env \<Rightarrow> string \<Rightarrow> string \<Rightarrow> string option \<Rightarrow> 's app \<Rightarrow> 's handled" where
  "handle_revert_snapshot env vm snap save_arg a =
     (case re_backend env of
        None \<Rightarrow> Some (send_html MHD_HTTP_INTERNAL_SERVER_ERROR
                        (render_error (Some ''No backend available'')), a)
      | Some be \<Rightarrow>
         (case lookup_vm_state be vm a of
            (st, a1) \<Rightarrow>
              if st = Some VM_RUNNING
              then Some (send_html_trigger MHD_HTTP_BAD_REQUEST (render_error (Some t_revert_blocked))
                           vm_changed, a1)
              else
               (let save = (save_arg = Some ''1'') in
                case save_before_revert env be vm save a1 of
                  (rc, a2) \<Rightarrow>
                    if rc \<noteq> 0
                    then Some (send_html_trigger MHD_HTTP_INTERNAL_SERVER_ERROR
                           (render_error (Some ''Failed to save current state before revert'')) vm_changed, a2)
                    else
                     (case on_sys (be_revert_snapshot be vm snap) a2 of
                        (rc2, a3) \<Rightarrow>
                          if rc2 \<noteq> 0
                          then Some (send_html_trigger MHD_HTTP_INTERNAL_SERVER_ERROR
                                 (render_error (Some (snprintf_buf 512
                                    (''Failed to revert: '' @ error_or_unknown (last_error env a3)))))
                                 vm_changed, a3)
                          else
                           (case fresh_detail env vm snap VM_SHUTOFF (mark_vm_clean env vm a3) of
                              None \<Rightarrow> None
                            | Some (detail, a5) \<Rightarrow>
                                Some (send_html_trigger MHD_HTTP_OK
                                  (render_success (Some (reverted_text save snap)) @ or_empty detail)
                                  vm_changed, a5))))))"

definition handle_merge_snapshot :: "'s route_env \<Rightarrow> string \<Rightarrow> string \<Rightarrow> 's app \<Rightarrow> 's handled" where
  "handle_merge_snapshot env vm snap =
     vm_action (map_option (\<lambda>be v. be_merge_snapshot be v snap) (re_backend env)) vm
       (\<lambda>a. snprintf_buf 512 (''Failed to merge: '' @ error_or_unknown (last_error env a) @
              ''. Make sure the VM is shut off.''))
       ''Snapshot merged''"

definition handle_snapshot_form :: "'s route_env \<Rightarrow> string \<Rightarrow> 's app \<Rightarrow> 's handled" where
  "handle_snapshot_form env vm a =
     Some (send_html MHD_HTTP_OK
       (render_create_snapshot_form (Some vm) (ld_check_nvram (re_direct env) vm (app_sys a))), a)"

end
