(* ===== verification/Folder_Handlers.thy ===== *)
theory Folder_Handlers
  imports Handlers "HOL-Library.Multiset"
begin

text \<open>
  The handlers of src/routes.c for shared folders, and the directory browser with its sort.
\<close>

section \<open>Shared folders\<close>

definition handle_shared_folders :: "'s route_env \<Rightarrow> string \<Rightarrow> 's app \<Rightarrow> 's handled" where
  "handle_shared_folders env vm a =
     (let failed = send_html MHD_HTTP_INTERNAL_SERVER_ERROR
                     (render_error (Some ''Failed to list shared folders'')) in
      case re_backend env of
        None \<Rightarrow> Some (failed, a)
      | Some be \<Rightarrow>
         (case on_sys (be_list_shared_folders be vm) a of
            (None, a1) \<Rightarrow> Some (failed, a1)
          | (Some folders, a1) \<Rightarrow>
             (case (case be_check_mount_status be of
                      None \<Rightarrow> (folders, a1)
                    | Some f \<Rightarrow> on_sys (f vm folders) a1) of
                (folders2, a2) \<Rightarrow>
                 (case (case be_check_automount_status be of
                          None \<Rightarrow> (- 1, a2)
                        | Some f \<Rightarrow> on_sys (f vm) a2) of
                    (active, a3) \<Rightarrow>
                      Some (send_html MHD_HTTP_OK (render_shared_folders (Some vm) folders2 active), a3)))))"

definition handle_shared_folder_form :: "string \<Rightarrow> 's app \<Rightarrow> 's handled" where
  "handle_shared_folder_form vm a =
     Some (send_html MHD_HTTP_OK (render_add_shared_folder_form (Some vm)), a)"

text \<open>
  The prompt for shared memory, built in a buffer of 4096 bytes, and the message for a folder that
  waits for a restart.
\<close>

definition shared_memory_prompt :: "string \<Rightarrow> string \<Rightarrow> string \<Rightarrow> string \<Rightarrow> bool \<Rightarrow> string" where
  "shared_memory_prompt vm src tag fs ro =
     snprintf_buf 4096 (fmt t_shared_memory
       [html_escape (Some vm), html_escape (Some src), html_escape (Some tag), html_escape (Some fs),
        if ro then ''1'' else ''0''])"

definition handle_add_shared_folder ::
  "'s route_env \<Rightarrow> string \<Rightarrow> string option \<Rightarrow> 's app \<Rightarrow> 's handled" where
  "handle_add_shared_folder env vm body a =
     (case re_backend env of
        None \<Rightarrow> Some (send_html MHD_HTTP_INTERNAL_SERVER_ERROR
                        (render_error (Some ''No backend available'')), a)
      | Some be \<Rightarrow>
         Option.bind (form_value body ''source_dir'') (\<lambda>source_dir.
         Option.bind (form_value body ''mount_tag'') (\<lambda>mount_tag.
         Option.bind (form_value body ''fs_type'') (\<lambda>fs_type.
         Option.bind (form_value body ''read_only'') (\<lambda>ro_str.
         Option.bind (form_value body ''confirm_shared_memory'') (\<lambda>confirm_sm.
           if or_empty source_dir = [] \<or> or_empty mount_tag = []
           then Some (send_html MHD_HTTP_BAD_REQUEST
                        (render_error (Some ''Source directory and mount tag are required'')), a)
           else
            (let ro = (ro_str = Some ''1'');
                 src = or_empty source_dir; tag = or_empty mount_tag;
                 fs = (if or_empty fs_type \<noteq> [] then or_empty fs_type else ''virtiofs'');
                 a1 = (if confirm_sm = Some ''1''
                       then a\<lparr>app_sys := ld_enable_shared_memory (re_direct env) vm (app_sys a)\<rparr> else a)
             in case on_sys (be_add_shared_folder be vm src tag ro fs) a1 of
                  (rc, a2) \<Rightarrow>
                    if rc = - 2
                    then Some (send_html MHD_HTTP_OK
                           (render_error_html (shared_memory_prompt vm src tag fs ro)), a2)
                    else if rc < 0
                    then Some (send_html MHD_HTTP_INTERNAL_SERVER_ERROR
                           (render_error (Some
                              (if last_error env a2 \<noteq> []
                               then snprintf_buf 1280 (''Failed to add shared folder: '' @ last_error env a2)
                               else ''Failed to add shared folder (check server logs for details)''))), a2)
                    else if rc = 1
                    then Some (send_html_trigger MHD_HTTP_OK (fmt t_folder_saved [html_escape (Some vm)])
                                 folders_updating, a2)
                    else Some (send_html_trigger MHD_HTTP_OK (render_success (Some ''Shared folder added''))
                                 folders_updating, a2))))))))"

definition handle_remove_shared_folder :: "'s route_env \<Rightarrow> string \<Rightarrow> string \<Rightarrow> 's app \<Rightarrow> 's handled" where
  "handle_remove_shared_folder env vm tag a =
     (let failed = send_html MHD_HTTP_INTERNAL_SERVER_ERROR
                     (render_error (Some ''Failed to remove shared folder'')) in
      case re_backend env of
        None \<Rightarrow> Some (failed, a)
      | Some be \<Rightarrow>
         (case on_sys (be_remove_shared_folder be vm tag) a of
            (rc, a1) \<Rightarrow>
              if rc \<noteq> 0 then Some (failed, a1)
              else Some (send_html_trigger MHD_HTTP_OK (render_success (Some ''Shared folder removed''))
                           folders_changed, a1)))"

text \<open>The help page for a failed guest operation, with the guest's system if the backend can tell.\<close>

definition guest_help_page ::
  "'s vm_backend \<Rightarrow> string \<Rightarrow> string \<Rightarrow> string \<Rightarrow> 's app \<Rightarrow> string \<times> 's app" where
  "guest_help_page be vm operation detail a =
     (case (case be_detect_guest_os be of
              None \<Rightarrow> (GUEST_OS_UNKNOWN, a)
            | Some f \<Rightarrow> on_sys (f vm) a) of
        (os, a1) \<Rightarrow> (render_guest_agent_help (Some operation) (Some detail) os, a1))"

definition folder_fs_type :: "shared_folder list option \<Rightarrow> string \<Rightarrow> string" where
  "folder_fs_type folders tag =
     (case folders of
        None \<Rightarrow> ''virtiofs''
      | Some fs \<Rightarrow>
         (case find (\<lambda>f. sf_mount_tag f = tag) fs of
            None \<Rightarrow> ''virtiofs''
          | Some f \<Rightarrow> sf_fs_type f))"

definition handle_mount_shared_folder :: "'s route_env \<Rightarrow> string \<Rightarrow> string \<Rightarrow> 's app \<Rightarrow> 's handled" where
  "handle_mount_shared_folder env vm tag a =
     (case Option.bind (re_backend env) (\<lambda>be. map_option (Pair be) (be_mount_shared_folder be)) of
        None \<Rightarrow> Some (send_html MHD_HTTP_BAD_REQUEST
                        (render_error (Some ''Mount not supported by this backend'')), a)
      | Some (be, mount) \<Rightarrow>
         (case on_sys (be_list_shared_folders be vm) a of
            (folders, a1) \<Rightarrow>
             (case on_sys (mount vm tag (folder_fs_type folders tag)) a1 of
                (rc, a2) \<Rightarrow>
                  if rc \<noteq> 0
                  then (case guest_help_page be vm ''mount shared folder'' (last_error env a2) a2 of
                          (html, a3) \<Rightarrow> Some (send_html MHD_HTTP_OK html, a3))
                  else Some (send_html_trigger MHD_HTTP_OK
                         (render_success (Some (snprintf_buf 128 (''Mounted successfully at /media/'' @ tag))))
                         folders_updating, a2))))"

definition handle_unmount_shared_folder :: "'s route_env \<Rightarrow> string \<Rightarrow> string \<Rightarrow> 's app \<Rightarrow> 's handled" where
  "handle_unmount_shared_folder env vm tag a =
     (case Option.bind (re_backend env) (\<lambda>be. map_option (Pair be) (be_unmount_shared_folder be)) of
        None \<Rightarrow> Some (send_html MHD_HTTP_BAD_REQUEST
                        (render_error (Some ''Unmount not supported by this backend'')), a)
      | Some (be, unmount) \<Rightarrow>
         (case on_sys (unmount vm tag) a of
            (rc, a1) \<Rightarrow>
              if rc \<noteq> 0
              then (case guest_help_page be vm ''unmount shared folder'' (last_error env a1) a1 of
                      (html, a2) \<Rightarrow> Some (send_html MHD_HTTP_OK html, a2))
              else Some (send_html_trigger MHD_HTTP_OK
                     (render_success (Some ''Unmounted successfully inside guest'')) folders_changed, a1)))"

definition handle_automount_setup :: "'s route_env \<Rightarrow> string \<Rightarrow> 's app \<Rightarrow> 's handled" where
  "handle_automount_setup env vm a =
     (case Option.bind (re_backend env) (\<lambda>be. map_option (Pair be) (be_setup_automount be)) of
        None \<Rightarrow> Some (send_html MHD_HTTP_INTERNAL_SERVER_ERROR
                        (render_error (Some ''Backend does not support auto-mount setup'')), a)
      | Some (be, setup) \<Rightarrow>
         (case on_sys (setup vm) a of
            ((rc, msg), a1) \<Rightarrow>
              if rc \<noteq> 0
              then (case guest_help_page be vm ''setup auto-mount''
                           (case msg of None \<Rightarrow> last_error env a1 | Some m \<Rightarrow> m) a1 of
                      (html, a2) \<Rightarrow> Some (send_html MHD_HTTP_INTERNAL_SERVER_ERROR html, a2))
              else Some (send_html_trigger MHD_HTTP_OK
                     (render_success (Some ''Auto-mount service installed and started in guest VM''))
                     folders_updating, a1)))"

section \<open>The directory browser\<close>

definition browse_start :: "string option \<Rightarrow> string option \<Rightarrow> string" where
  "browse_start sudo_user path =
     (case path of
        Some (CHR ''/'' # p) \<Rightarrow> CHR ''/'' # p
      | _ \<Rightarrow> (case sudo_user of
                None \<Rightarrow> ''/home''
              | Some u \<Rightarrow> snprintf_buf 4096 (''/home/'' @ u)))"

definition browse_entry :: "(string \<Rightarrow> bool) \<Rightarrow> string \<Rightarrow> string \<Rightarrow> bool" where
  "browse_entry is_dir resolved e \<longleftrightarrow>
     (e \<noteq> [] \<and> hd e = CHR ''.'' \<longrightarrow> e = ''..'') \<and> e \<noteq> ''.'' \<and>
     is_dir (snprintf_buf 4352 (resolved @ ''/'' @ e))"

text \<open>
  The exchange sort: the inner loop compares the entry at \<open>i\<close> with each later one and swaps the two
  when the later one must come first; \<open>exchange_pass\<close> gives what is then at \<open>i\<close> and what follows it.
\<close>

definition must_swap :: "string \<Rightarrow> string \<Rightarrow> bool" where
  "must_swap ei ej \<longleftrightarrow> ej = ''..'' \<or> (ei \<noteq> ''..'' \<and> ej < ei)"

fun exchange_pass :: "string \<Rightarrow> string list \<Rightarrow> string \<times> string list" where
  "exchange_pass x [] = (x, [])"
| "exchange_pass x (y # ys) =
     (if must_swap x y
      then (case exchange_pass y ys of (m, r) \<Rightarrow> (m, x # r))
      else (case exchange_pass x ys of (m, r) \<Rightarrow> (m, y # r)))"

lemma length_exchange_pass: "length (snd (exchange_pass x ys)) = length ys"
  by (induction x ys rule: exchange_pass.induct) (auto split: prod.splits)

function exchange_sort :: "string list \<Rightarrow> string list" where
  "exchange_sort [] = []"
| "exchange_sort (x # xs) =
     (case exchange_pass x xs of (m, r) \<Rightarrow> m # exchange_sort r)"
  by pat_completeness auto
termination
  by (relation "measure length") (auto, metis length_exchange_pass lessI snd_conv)

definition handle_browse_dir :: "'s route_env \<Rightarrow> string option \<Rightarrow> 's app \<Rightarrow> 's handled" where
  "handle_browse_dir env path a =
     (case re_realpath env (browse_start (re_sudo_user env) path) of
        None \<Rightarrow> Some (send_html MHD_HTTP_NOT_FOUND (render_error (Some ''Directory not found'')), a)
      | Some resolved \<Rightarrow>
         (case re_opendir env resolved of
            None \<Rightarrow> Some (send_html MHD_HTTP_FORBIDDEN (render_error (Some ''Cannot open directory'')), a)
          | Some names \<Rightarrow>
              Some (send_html MHD_HTTP_OK
                (render_directory_listing resolved
                   (exchange_sort (filter (browse_entry (re_is_dir env) resolved) names))), a)))"

section \<open>The order of a listing\<close>

text \<open>Entries as the browser orders them: the parent directory first, then by their bytes.\<close>

datatype dirent = Dirent (dirent_name: string)

instantiation dirent :: linorder
begin

definition less_eq_dirent :: "dirent \<Rightarrow> dirent \<Rightarrow> bool" where
  "less_eq_dirent a b \<longleftrightarrow> dirent_name a = ''..'' \<or>
     (dirent_name b \<noteq> ''..'' \<and> dirent_name a \<le> dirent_name b)"

definition less_dirent :: "dirent \<Rightarrow> dirent \<Rightarrow> bool" where
  "less_dirent a b \<longleftrightarrow> a \<le> b \<and> \<not> b \<le> a"

instance
proof
  fix x y z :: dirent
  show "x \<le> x" by (simp add: less_eq_dirent_def)
  show "x \<le> y \<Longrightarrow> y \<le> z \<Longrightarrow> x \<le> z" unfolding less_eq_dirent_def by (metis order_trans)
  show "x \<le> y \<Longrightarrow> y \<le> x \<Longrightarrow> x = y"
    unfolding less_eq_dirent_def by (metis antisym dirent.expand)
  show "x \<le> y \<or> y \<le> x" unfolding less_eq_dirent_def by (metis linear)
  show "x < y \<longleftrightarrow> x \<le> y \<and> \<not> y \<le> x" by (rule less_dirent_def)
qed

end

lemma not_must_swap: "\<not> must_swap x y \<Longrightarrow> Dirent x \<le> Dirent y"
  by (auto simp: must_swap_def less_eq_dirent_def)

lemma must_swap_le: "must_swap x y \<Longrightarrow> Dirent y \<le> Dirent x"
  by (auto simp: must_swap_def less_eq_dirent_def)

lemma exchange_pass_min:
  "exchange_pass x ys = (m, r) \<Longrightarrow>
   Dirent m \<le> Dirent x \<and> (\<forall>y\<in>set r. Dirent m \<le> Dirent y) \<and> mset (m # r) = mset (x # ys)"
proof (induction x ys arbitrary: m r rule: exchange_pass.induct)
  case (2 x y ys)
  show ?case
  proof (cases "must_swap x y")
    case True
    obtain m' r' where e: "exchange_pass y ys = (m', r')" by fastforce
    with "2.prems" True have "m = m'" "r = x # r'" by auto
    with "2.IH"(1)[OF True e] must_swap_le[OF True] show ?thesis by (auto intro: order_trans)
  next
    case False
    obtain m' r' where e: "exchange_pass x ys = (m', r')" by fastforce
    with "2.prems" False have "m = m'" "r = y # r'" by auto
    with "2.IH"(2)[OF False e] not_must_swap[OF False] show ?thesis by (auto intro: order_trans)
  qed
qed simp

lemma exchange_sort_correct:
  "sorted (map Dirent (exchange_sort es)) \<and> mset (exchange_sort es) = mset es"
proof (induction es rule: exchange_sort.induct)
  case (2 x xs)
  obtain m r where e: "exchange_pass x xs = (m, r)" by fastforce
  from exchange_pass_min[OF e] have m: "\<forall>y\<in>set r. Dirent m \<le> Dirent y" "mset (m # r) = mset (x # xs)"
    by auto
  from "2.IH"[OF e[symmetric]] have IH: "sorted (map Dirent (exchange_sort r))"
    "mset (exchange_sort r) = mset r" by auto
  then have "set (exchange_sort r) = set r" by (metis set_mset_mset)
  with IH m e show ?case by auto
qed simp

section \<open>Properties\<close>

text \<open>C36: the browser lists exactly the visible subdirectories, once each and in order. When the
  path resolves to a directory that can be opened, the page is the listing of the entries that are
  directories and are not hidden, with the parent first and the others in byte order, whatever the
  order in which the host reads the directory; entries that the host reports twice stay twice.\<close>

theorem browse_lists_directories_in_order:
  assumes "re_realpath env (browse_start (re_sudo_user env) path) = Some resolved"
    and "re_opendir env resolved = Some names"
  shows "\<exists>entries. handle_browse_dir env path a =
      Some (send_html MHD_HTTP_OK (render_directory_listing resolved entries), a) \<and>
    mset entries = mset (filter (browse_entry (re_is_dir env) resolved) names) \<and>
    sorted (map Dirent entries) \<and>
    (''..'' \<in> set entries \<longrightarrow> hd entries = ''..'') \<and>
    (\<forall>names'. mset names' = mset names \<longrightarrow>
       exchange_sort (filter (browse_entry (re_is_dir env) resolved) names') = entries)"
proof (intro exI conjI allI impI)
  let ?sel = "filter (browse_entry (re_is_dir env) resolved)"
  note sorted = exchange_sort_correct[of "?sel names"]
  show "handle_browse_dir env path a =
      Some (send_html MHD_HTTP_OK (render_directory_listing resolved (exchange_sort (?sel names))), a)"
    using assms by (simp add: handle_browse_dir_def)
  show "mset (exchange_sort (?sel names)) = mset (?sel names)" using sorted by simp
  show "sorted (map Dirent (exchange_sort (?sel names)))" using sorted by simp
  show "hd (exchange_sort (?sel names)) = ''..''" if p: "''..'' \<in> set (exchange_sort (?sel names))"
  proof (cases "exchange_sort (?sel names)")
    case (Cons e es)
    with p sorted have "e = ''..'' \<or> Dirent e \<le> Dirent ''..''" by auto
    with Cons show ?thesis by (auto simp: less_eq_dirent_def)
  qed (use p in simp)
  fix names' assume "mset names' = mset names"
  then have "mset (map Dirent (exchange_sort (?sel names'))) = mset (map Dirent (exchange_sort (?sel names)))"
    using exchange_sort_correct[of "?sel names'"] sorted by (simp add: mset_filter)
  then have "map Dirent (exchange_sort (?sel names')) = map Dirent (exchange_sort (?sel names))"
    using exchange_sort_correct[of "?sel names'"] sorted by (metis properties_for_sort sorted_sort_id)
  then show "exchange_sort (?sel names') = exchange_sort (?sel names)"
    by (simp add: inj_map_eq_map inj_def)
qed

definition demo_direct :: "unit lv_direct" where
  "demo_direct =
     \<lparr>ld_last_error = (\<lambda>_. []), ld_convert_nvram = (\<lambda>_ s. (0, s)), ld_check_nvram = (\<lambda>_ _. 1),
      ld_edit_description = (\<lambda>_ _ _ s. (0, s)), ld_scan_orphans = (\<lambda>_ s. (Some [], s)),
      ld_cleanup_orphans = (\<lambda>_ s. (0, s)), ld_enable_shared_memory = (\<lambda>_ s. s)\<rparr>"

definition demo_route_env :: "unit route_env" where
  "demo_route_env =
     \<lparr>re_backend = None, re_direct = demo_direct, re_ds = demo_env, re_utf8 = (\<lambda>_. True),
      re_dumps = (\<lambda>_. Some []), re_stamp = [], re_sudo_user = None,
      re_realpath = Some, re_opendir = (\<lambda>_. Some [''b'', ''.x'', ''a'', ''..'', ''.'']),
      re_is_dir = (\<lambda>_. True)\<rparr>"

definition demo_app :: "unit app" where
  "demo_app = \<lparr>app_sys = (), app_dirty = demo_start\<rparr>"

theorem browse_lists_directories_in_order_witness:
  "\<exists>entries. handle_browse_dir demo_route_env (Some ''/srv'') demo_app =
      Some (send_html 200 (render_directory_listing ''/srv'' entries), demo_app) \<and>
     mset entries = mset [''b'', ''a'', ''..''] \<and> hd entries = ''..''"
proof -
  have sel: "filter (browse_entry (re_is_dir demo_route_env) ''/srv'') [''b'', ''.x'', ''a'', ''..'', ''.'']
      = [''b'', ''a'', ''..'']"
    by (simp add: browse_entry_def demo_route_env_def)
  have h: "re_realpath demo_route_env (browse_start (re_sudo_user demo_route_env) (Some ''/srv'')) = Some ''/srv''"
    "re_opendir demo_route_env ''/srv'' = Some [''b'', ''.x'', ''a'', ''..'', ''.'']"
    by (simp_all add: demo_route_env_def browse_start_def)
  obtain entries where e: "handle_browse_dir demo_route_env (Some ''/srv'') demo_app =
      Some (send_html 200 (render_directory_listing ''/srv'' entries), demo_app)"
    "mset entries = mset [''b'', ''a'', ''..'']" "''..'' \<in> set entries \<longrightarrow> hd entries = ''..''"
    using browse_lists_directories_in_order[OF h, of demo_app, unfolded sel] by blast
  from e(2) have "set entries = {''b'', ''a'', ''..''}" by (metis set_mset_mset list.simps(15) empty_set)
  with e show ?thesis by blast
qed

end
