(* ===== verification/Routes.thy ===== *)
theory Routes
  imports Folder_Handlers
begin

text \<open>
  \<open>route_dispatch\<close> of src/routes.c: the choice of the handler from method and path, and the protocol
  by which the HTTP server hands over a request body piece by piece.
\<close>

section \<open>Routes\<close>

datatype route =
    R_not_found
  | R_not_allowed
  | R_browse
  | R_list_vms
  | R_snapshot_tree string
  | R_create_snapshot string
  | R_snapshot_form string
  | R_snapshot_detail string string
  | R_edit_snapshot string string
  | R_delete_snapshot string string
  | R_edit_form string string
  | R_revert string string
  | R_revert_confirm string string
  | R_merge string string
  | R_shared_folders string
  | R_add_shared_folder string
  | R_shared_folder_form string
  | R_mount string string
  | R_unmount string string
  | R_automount string
  | R_remove_folder string string
  | R_start string
  | R_stop string
  | R_pause string
  | R_resume string
  | R_force_stop string
  | R_convert_nvram string
  | R_orphan_check string
  | R_orphan_cleanup string

abbreviation GET :: string where "GET \<equiv> ''GET''"
abbreviation POST :: string where "POST \<equiv> ''POST''"
abbreviation PUT :: string where "PUT \<equiv> ''PUT''"
abbreviation DELETE :: string where "DELETE \<equiv> ''DELETE''"

definition has_body :: "string \<Rightarrow> bool" where
  "has_body m \<longleftrightarrow> m = POST \<or> m = DELETE \<or> m = PUT"

definition snapshot_route :: "string \<Rightarrow> string \<Rightarrow> string option \<Rightarrow> string option \<Rightarrow> route" where
  "snapshot_route m vm seg4 seg5 =
     (case seg4 of
        None \<Rightarrow>
          if m = GET then R_snapshot_tree vm
          else if m = POST then R_create_snapshot vm
          else R_not_allowed
      | Some snap \<Rightarrow>
          if snap = ''form'' then (if m = GET then R_snapshot_form vm else R_not_allowed)
          else (case seg5 of
            None \<Rightarrow>
              if m = GET then R_snapshot_detail vm snap
              else if m = PUT then R_edit_snapshot vm snap
              else if m = DELETE then R_delete_snapshot vm snap
              else R_not_allowed
          | Some act \<Rightarrow>
              if act = ''edit'' \<and> m = GET then R_edit_form vm snap
              else if act = ''revert'' \<and> m = POST then R_revert vm snap
              else if act = ''revert-confirm'' \<and> m = GET then R_revert_confirm vm snap
              else if act = ''merge'' \<and> m = POST then R_merge vm snap
              else R_not_found))"

definition folder_route :: "string \<Rightarrow> string \<Rightarrow> string option \<Rightarrow> string option \<Rightarrow> route" where
  "folder_route m vm seg4 seg5 =
     (case seg4 of
        None \<Rightarrow>
          if m = GET then R_shared_folders vm
          else if m = POST then R_add_shared_folder vm
          else R_not_allowed
      | Some tag \<Rightarrow>
          if tag = ''form'' \<and> m = GET then R_shared_folder_form vm
          else if seg5 = Some ''mount'' \<and> m = POST then R_mount vm tag
          else if seg5 = Some ''unmount'' \<and> m = POST then R_unmount vm tag
          else if tag = ''automount'' \<and> m = POST then R_automount vm
          else if m = DELETE then R_remove_folder vm tag
          else R_not_allowed)"

definition vm_route :: "string \<Rightarrow> string \<Rightarrow> string \<Rightarrow> route" where
  "vm_route m vm act =
     (if act = ''start'' \<and> m = POST then R_start vm
      else if act = ''stop'' \<and> m = POST then R_stop vm
      else if act = ''pause'' \<and> m = POST then R_pause vm
      else if act = ''resume'' \<and> m = POST then R_resume vm
      else if act = ''force-stop'' \<and> m = POST then R_force_stop vm
      else if act = ''convert-nvram'' \<and> m = POST then R_convert_nvram vm
      else if act = ''orphan-check'' \<and> m = GET then R_orphan_check vm
      else if act = ''orphan-cleanup'' \<and> m = POST then R_orphan_cleanup vm
      else R_not_found)"

definition route_of :: "string \<Rightarrow> string \<Rightarrow> route" where
  "route_of m url =
     (let seg = path_segment (Some url) in
      if seg 1 = Some ''browse'' \<and> m = GET then R_browse
      else if seg 1 \<noteq> Some ''vms'' then R_not_found
      else (case seg 2 of
        None \<Rightarrow> if m = GET then R_list_vms else R_not_allowed
      | Some vm \<Rightarrow>
         (case seg 3 of
            None \<Rightarrow> R_not_found
          | Some act \<Rightarrow>
              if act = ''snapshots'' then snapshot_route m vm (seg 4) (seg 5)
              else if act = ''shared-folders'' then folder_route m vm (seg 4) (seg 5)
              else vm_route m vm act)))"

text \<open>A request: method, path, and the query arguments.\<close>

record request =
  rq_method :: string
  rq_url :: string
  rq_arg :: "string \<Rightarrow> string option"

fun run_route :: "'s route_env \<Rightarrow> request \<Rightarrow> string option \<Rightarrow> route \<Rightarrow> 's app \<Rightarrow> 's handled" where
  "run_route env rq body R_not_found a = Some (send_404, a)"
| "run_route env rq body R_not_allowed a = Some (send_405, a)"
| "run_route env rq body R_browse a = handle_browse_dir env (rq_arg rq ''path'') a"
| "run_route env rq body R_list_vms a = handle_list_vms env a"
| "run_route env rq body (R_snapshot_tree vm) a = handle_snapshot_tree env vm a"
| "run_route env rq body (R_create_snapshot vm) a = handle_create_snapshot env vm body a"
| "run_route env rq body (R_snapshot_form vm) a = handle_snapshot_form env vm a"
| "run_route env rq body (R_snapshot_detail vm n) a = handle_snapshot_detail env vm n a"
| "run_route env rq body (R_edit_snapshot vm n) a = handle_edit_snapshot env vm n body a"
| "run_route env rq body (R_delete_snapshot vm n) a = handle_delete_snapshot env vm n a"
| "run_route env rq body (R_edit_form vm n) a = handle_edit_snapshot_form env vm n a"
| "run_route env rq body (R_revert vm n) a =
     handle_revert_snapshot env vm n (rq_arg rq ''save_current'') a"
| "run_route env rq body (R_revert_confirm vm n) a = handle_revert_confirm env vm n a"
| "run_route env rq body (R_merge vm n) a = handle_merge_snapshot env vm n a"
| "run_route env rq body (R_shared_folders vm) a = handle_shared_folders env vm a"
| "run_route env rq body (R_add_shared_folder vm) a = handle_add_shared_folder env vm body a"
| "run_route env rq body (R_shared_folder_form vm) a = handle_shared_folder_form vm a"
| "run_route env rq body (R_mount vm t) a = handle_mount_shared_folder env vm t a"
| "run_route env rq body (R_unmount vm t) a = handle_unmount_shared_folder env vm t a"
| "run_route env rq body (R_automount vm) a = handle_automount_setup env vm a"
| "run_route env rq body (R_remove_folder vm t) a = handle_remove_shared_folder env vm t a"
| "run_route env rq body (R_start vm) a = handle_vm_start env vm a"
| "run_route env rq body (R_stop vm) a = handle_vm_stop env vm a"
| "run_route env rq body (R_pause vm) a = handle_vm_pause env vm a"
| "run_route env rq body (R_resume vm) a = handle_vm_resume env vm a"
| "run_route env rq body (R_force_stop vm) a = handle_vm_force_stop env vm a"
| "run_route env rq body (R_convert_nvram vm) a = handle_convert_nvram env vm a"
| "run_route env rq body (R_orphan_check vm) a = handle_orphan_check env vm a"
| "run_route env rq body (R_orphan_cleanup vm) a = handle_orphan_cleanup env vm a"

section \<open>The request protocol\<close>

text \<open>
  What one call of \<open>route_dispatch\<close> gives: go on, refuse (\<open>MHD_NO\<close>), or a response. The connection's
  slot \<open>con_cls\<close> holds the body so far.
\<close>

datatype dispatched = Continue | Refuse | Respond response

definition route_dispatch ::
  "allocator \<Rightarrow> 's route_env \<Rightarrow> request \<Rightarrow> string \<Rightarrow> request_context option \<Rightarrow> 's app \<Rightarrow>
   (dispatched \<times> request_context option \<times> 's app) option" where
  "route_dispatch mem env rq upload con a =
     (let answer = (\<lambda>con.
        case run_route env rq (Option.bind con ctx_body) (route_of (rq_method rq) (rq_url rq)) a of
          None \<Rightarrow> None
        | Some (r, a1) \<Rightarrow> Some (Respond r, con, a1))
      in if has_body (rq_method rq)
         then (case con of
                 None \<Rightarrow> if mem 0 then Some (Continue, Some request_context_new, a)
                         else Some (Refuse, None, a)
               | Some ctx \<Rightarrow>
                   if upload \<noteq> []
                   then (case request_context_append mem upload ctx of
                           (True, ctx1) \<Rightarrow> Some (Continue, Some ctx1, a)
                         | (False, ctx1) \<Rightarrow> Some (Refuse, Some ctx1, a))
                   else answer con)
         else answer con)"

definition route_request_completed :: "request_context option \<Rightarrow> request_context option" where
  "route_request_completed con = None"

text \<open>
  A request as the server delivers it: a first call without data, one for each piece of the body, and
  a last one without data; it stops at the first call that does not say to go on.
\<close>

fun deliver ::
  "allocator \<Rightarrow> 's route_env \<Rightarrow> request \<Rightarrow> string list \<Rightarrow> request_context option \<Rightarrow> 's app \<Rightarrow>
   (dispatched \<times> request_context option \<times> 's app) option" where
  "deliver mem env rq [] con a = None"
| "deliver mem env rq (u # us) con a =
     (case route_dispatch mem env rq u con a of
        Some (Continue, con1, a1) \<Rightarrow>
          if us = [] then Some (Continue, con1, a1) else deliver mem env rq us con1 a1
      | r \<Rightarrow> r)"

section \<open>Lemmas on the protocol\<close>

definition ctx_of_body :: "request_context \<Rightarrow> string \<Rightarrow> bool" where
  "ctx_of_body ctx s \<longleftrightarrow> ctx_invar ctx \<and> ctx_content ctx = s \<and> (ctx_body ctx = None \<longleftrightarrow> s = [])"

lemma append_ctx_of_body:
  assumes "ctx_of_body ctx s" "data \<noteq> []" "\<And>n. mem n"
  shows "\<exists>ctx1. request_context_append mem data ctx = (True, ctx1) \<and> ctx_of_body ctx1 (s @ data)"
proof -
  have inv: "ctx_invar ctx" using assms(1) by (simp add: ctx_of_body_def)
  obtain ok ctx1 where e: "request_context_append mem data ctx = (ok, ctx1)" by fastforce
  with ctx_append_cases[OF inv, of mem data] assms(1,3) have
    "ok" "ctx_invar ctx1" "ctx_content ctx1 = s @ data" by (auto simp: ctx_of_body_def)
  moreover from this assms(2) have "ctx_body ctx1 \<noteq> None" by (auto simp: ctx_content_def split: option.splits)
  ultimately show ?thesis using e assms(2) by (auto simp: ctx_of_body_def)
qed

lemma deliver_body:
  assumes "\<And>n. mem n" "has_body (rq_method rq)"
  shows "ctx_of_body ctx s \<Longrightarrow> \<forall>u\<in>set us. u \<noteq> [] \<Longrightarrow>
    map_option (\<lambda>(d, _, a). (d, a)) (deliver mem env rq (us @ [[]]) (Some ctx) a) =
    map_option (\<lambda>(r, a1). (Respond r, a1))
      (run_route env rq (if s @ concat us = [] then None else Some (s @ concat us))
        (route_of (rq_method rq) (rq_url rq)) a)"
proof (induction us arbitrary: ctx s)
  case Nil
  have "ctx_body ctx = (if s = [] then None else Some s)"
    using Nil by (auto simp: ctx_of_body_def ctx_content_def split: option.splits)
  with assms show ?case
    by (simp add: route_dispatch_def Let_def split: option.splits prod.splits)
next
  case (Cons u us)
  from append_ctx_of_body[of ctx s u mem] Cons.prems assms(1) obtain ctx1 where
    e: "request_context_append mem u ctx = (True, ctx1)" "ctx_of_body ctx1 (s @ u)" by auto
  from Cons.IH[OF e(2)] Cons.prems(2) have IH:
    "map_option (\<lambda>(d, _, a). (d, a)) (deliver mem env rq (us @ [[]]) (Some ctx1) a) =
     map_option (\<lambda>(r, a1). (Respond r, a1))
      (run_route env rq (if (s @ u) @ concat us = [] then None else Some ((s @ u) @ concat us))
        (route_of (rq_method rq) (rq_url rq)) a)" by simp
  have "route_dispatch mem env rq u (Some ctx) a = Some (Continue, Some ctx1, a)"
    using assms(2) Cons.prems(2) e(1) by (simp add: route_dispatch_def Let_def)
  then have "deliver mem env rq ((u # us) @ [[]]) (Some ctx) a = deliver mem env rq (us @ [[]]) (Some ctx1) a"
    by simp
  with IH show ?case by simp
qed

section \<open>Properties\<close>

text \<open>C17: a body reaches its handler whole, however it is cut. For a POST, PUT or DELETE request,
  when allocations succeed, delivering the body in any non-empty pieces runs the handler of the
  route exactly once, at the end, on the concatenation of the pieces (no body at all when there is
  none), and answers with its response.\<close>

theorem body_delivery:
  assumes "\<forall>n. mem n" "has_body (rq_method rq)" "\<forall>u\<in>set pieces. u \<noteq> []"
  shows "map_option (\<lambda>(d, _, a). (d, a)) (deliver mem env rq ([] # pieces @ [[]]) None a) =
    map_option (\<lambda>(r, a1). (Respond r, a1))
      (run_route env rq (if pieces = [] then None else Some (concat pieces))
        (route_of (rq_method rq) (rq_url rq)) a)"
proof -
  have new: "ctx_of_body request_context_new []"
    using ctx_new_invar by (simp add: ctx_of_body_def request_context_new_def)
  have first: "route_dispatch mem env rq [] None a = Some (Continue, Some request_context_new, a)"
    using assms(1,2) by (simp add: route_dispatch_def Let_def)
  have "(concat pieces = []) = (pieces = [])" using assms(3) by (cases pieces) auto
  with deliver_body[OF _ assms(2) new assms(3), of mem env a] assms(1) first show ?thesis by simp
qed

theorem body_delivery_witness:
  "map_option (\<lambda>(d, _, a). (d, a)) (deliver (\<lambda>_. True) demo_route_env
      \<lparr>rq_method = PUT, rq_url = ''/api/browse'', rq_arg = (\<lambda>_. None)\<rparr> [[], ''ab'', ''c'', []] None demo_app)
   = Some (Respond send_404, demo_app)"
  using body_delivery[of "\<lambda>_. True" "\<lparr>rq_method = PUT, rq_url = ''/api/browse'', rq_arg = (\<lambda>_. None)\<rparr>"
      "[''ab'', ''c'']" demo_route_env demo_app]
  by (simp add: has_body_def route_of_def path_segment_eq_split nth_nonempty_def path_segments_def)

end
