(* ===== verification/Urls.thy ===== *)
theory Urls
  imports Routes
begin

text \<open>
  The URLs: which handler each of them reaches, and where the buttons of a page lead when a browser
  reads the attributes and resolves the links, and the HTTP library decodes the path.
\<close>

section \<open>Paths\<close>

text \<open>The path \<open>/api/s1/s2...\<close> of a list of segments.\<close>

definition api_path :: "string list \<Rightarrow> string" where
  "api_path ss = ''/api'' @ concat (map (\<lambda>s. CHR ''/'' # s) ss)"

definition segment_ok :: "string \<Rightarrow> bool" where
  "segment_ok s \<longleftrightarrow> s \<noteq> [] \<and> CHR ''/'' \<notin> set s"

lemma segment_okD [dest]: "segment_ok s \<Longrightarrow> s \<noteq> []" "segment_ok s \<Longrightarrow> CHR ''/'' \<notin> set s"
  by (simp_all add: segment_ok_def)

lemma split_on_join:
  "CHR ''/'' \<notin> set p \<Longrightarrow> \<forall>s\<in>set ss. CHR ''/'' \<notin> set s \<Longrightarrow>
   split_on (CHR ''/'') (p @ concat (map (\<lambda>s. CHR ''/'' # s) ss)) = p # ss"
proof (induction ss arbitrary: p)
  case Nil
  then show ?case by (simp add: split_on_no_sep)
next
  case (Cons s ss)
  then show ?case by (simp add: split_on_append_sep)
qed

lemma segment_of_path:
  assumes "\<forall>s\<in>set ss. segment_ok s"
  shows "path_segment (Some (api_path ss)) (int (Suc i)) = (if i < length ss then Some (ss ! i) else None)"
proof -
  have "path_segments (api_path ss) = ''api'' # ss"
    using split_on_join[of "''api''" ss] assms
    by (auto simp: path_segments_def api_path_def segment_ok_def)
  moreover have "nat (int (Suc i)) = Suc i" by (rule nat_int)
  ultimately show ?thesis using assms
    by (auto simp: path_segment_eq_split nth_nonempty_def segment_ok_def simp del: of_nat_Suc)
qed

lemma route_of_path:
  assumes "\<forall>s\<in>set ss. segment_ok s"
  defines "seg \<equiv> \<lambda>i. if i < length ss then Some (ss ! i) else None"
  shows "route_of m (api_path ss) =
    (if seg 0 = Some ''browse'' \<and> m = GET then R_browse
     else if seg 0 \<noteq> Some ''vms'' then R_not_found
     else (case seg 1 of
       None \<Rightarrow> if m = GET then R_list_vms else R_not_allowed
     | Some vm \<Rightarrow> (case seg 2 of
         None \<Rightarrow> R_not_found
       | Some act \<Rightarrow>
           if act = ''snapshots'' then snapshot_route m vm (seg 3) (seg 4)
           else if act = ''shared-folders'' then folder_route m vm (seg 3) (seg 4)
           else vm_route m vm act)))"
proof -
  have p: "path_segment (Some (api_path ss)) 1 = seg 0" "path_segment (Some (api_path ss)) 2 = seg 1"
    "path_segment (Some (api_path ss)) 3 = seg 2" "path_segment (Some (api_path ss)) 4 = seg 3"
    "path_segment (Some (api_path ss)) 5 = seg 4"
    using segment_of_path[OF assms(1), of 0] segment_of_path[OF assms(1), of 1]
      segment_of_path[OF assms(1), of 2] segment_of_path[OF assms(1), of 3]
      segment_of_path[OF assms(1), of 4] by (simp_all add: seg_def)
  show ?thesis unfolding route_of_def Let_def p by (rule refl)
qed

section \<open>Reading the attributes of a page\<close>

text \<open>
  How a browser finds the values of an attribute: outside double quotes it remembers the text since
  the last quote, newest byte first; a value belongs to the attribute when its name and \<open>=\<close> come just
  before the quote; in a value the character references are resolved.
\<close>

fun attrs_text :: "string \<Rightarrow> string \<Rightarrow> string \<Rightarrow> string list"
and attrs_value :: "string \<Rightarrow> bool \<Rightarrow> string \<Rightarrow> string \<Rightarrow> string list" where
  "attrs_text k acc [] = []"
| "attrs_text k acc (c # r) =
     (if c = DQUOTE then attrs_value k (prefix (rev (CHR '' '' # k @ ''='')) acc) [] r
      else attrs_text k (c # acc) r)"
| "attrs_value k wanted acc [] = []"
| "attrs_value k wanted acc (c # r) =
     (if c = DQUOTE then (if wanted then [html_unescape (rev acc)] else []) @ attrs_text k [] r
      else attrs_value k wanted (c # acc) r)"

definition attr_values :: "string \<Rightarrow> string \<Rightarrow> string list" where
  "attr_values name html = attrs_text name [] html"

named_theorems attr_simps

lemma attrs_plain [attr_simps]:
  "DQUOTE \<notin> set v \<Longrightarrow> attrs_text k acc (v @ r) = attrs_text k (rev v @ acc) r"
  "DQUOTE \<notin> set v \<Longrightarrow> attrs_value k w acc (v @ r) = attrs_value k w (rev v @ acc) r"
  by (induction v arbitrary: acc) auto

lemma DQUOTE_notin_escape [attr_simps]: "DQUOTE \<notin> set (html_escape_loop s)"
proof -
  have "DQUOTE \<in> set (markup_of (html_escape_loop s)) \<longleftrightarrow> DQUOTE \<in> set (html_escape_loop s)"
    by (auto simp: markup_of_def is_markup_def)
  then show ?thesis by (simp add: markup_of_html_escape_loop)
qed

lemmas unescape_escape_append [attr_simps] = html_unescape_append_escape

lemma unescape_escape [attr_simps]: "html_unescape (html_escape_loop s) = s"
  using html_unescape_append_escape[of s "[]"] html_unescape_harmless[of "[]" "[]"] by simp

lemma unescape_plain [attr_simps]:
  "c \<noteq> CHR ''&'' \<Longrightarrow> html_unescape (c # t) = c # html_unescape t"
  using html_unescape_harmless[of "[c]" t] by simp

lemma unescape_Nil [attr_simps]: "html_unescape [] = []"
  using html_unescape_harmless[of "[]" "[]"] by simp

text \<open>
  \<open>holds_links k p vs\<close>: the piece \<open>p\<close> of a page ends outside the quotes and gives the attribute \<open>k\<close> the
  values \<open>vs\<close>, wherever it stands.
\<close>

definition holds_links :: "string \<Rightarrow> string \<Rightarrow> string list \<Rightarrow> bool" where
  "holds_links k p vs \<longleftrightarrow>
     (\<forall>acc. \<exists>acc'. \<forall>r. attrs_text k acc (p @ r) = vs @ attrs_text k acc' r)"

lemma holds_links_Nil [intro]: "holds_links k [] []"
  by (auto simp: holds_links_def)

lemma holds_links_append [intro]:
  "holds_links k p vs \<Longrightarrow> holds_links k q ws \<Longrightarrow> holds_links k (p @ q) (vs @ ws)"
  unfolding holds_links_def append_assoc by metis

lemma holds_links_concat:
  "list_all2 (holds_links k) ps vss \<Longrightarrow> holds_links k (concat ps) (concat vss)"
  by (induction rule: list_all2_induct) auto

lemma holds_links_values: "holds_links k p vs \<Longrightarrow> attr_values k p = vs"
proof -
  assume "holds_links k p vs"
  then obtain acc' where "\<forall>r. attrs_text k [] (p @ r) = vs @ attrs_text k acc' r"
    by (auto simp: holds_links_def)
  from this[rule_format, of "[]"] show ?thesis by (simp add: attr_values_def)
qed

section \<open>From a link to the server\<close>

text \<open>
  What the server is given for the text of a link that begins with a single slash. The browser reads
  it as the URL Standard says: control characters and blanks at both ends and tabs and line breaks
  everywhere are dropped, a backslash counts as a slash, the path ends at the first question mark or
  number sign, the segments for the same and the parent directory are resolved, and the bytes
  that may not stand in a path are percent-encoded. The HTTP library decodes the path that it receives
  and hands it over as a C string.
\<close>

definition url_control :: "char \<Rightarrow> bool" where
  "url_control c \<longleftrightarrow> c \<le> CHR '' ''"

definition url_dropped :: "char \<Rightarrow> bool" where
  "url_dropped c \<longleftrightarrow> c = TAB \<or> c = LF \<or> c = CR"

definition ends_path :: "char \<Rightarrow> bool" where
  "ends_path c \<longleftrightarrow> c = CHR ''?'' \<or> c = CHR ''#''"

definition link_path :: "string \<Rightarrow> string" where
  "link_path a =
     (let trimmed = rev (dropWhile url_control (rev (dropWhile url_control a)))
      in map (\<lambda>c. if c = BACKSLASH then CHR ''/'' else c)
           (takeWhile (\<lambda>c. \<not> ends_path c) (filter (\<lambda>c. \<not> url_dropped c) trimmed)))"

definition single_dot :: "string \<Rightarrow> bool" where
  "single_dot s \<longleftrightarrow> s \<in> {''.'', ''%2e'', ''%2E''}"

definition double_dot :: "string \<Rightarrow> bool" where
  "double_dot s \<longleftrightarrow>
     s \<in> {''..'', ''.%2e'', ''.%2E'', ''%2e.'', ''%2E.'', ''%2e%2e'', ''%2e%2E'', ''%2E%2e'', ''%2E%2E''}"

text \<open>The segments so far, newest first, and those to come.\<close>

fun resolve_dots :: "string list \<Rightarrow> string list \<Rightarrow> string list" where
  "resolve_dots seen [] = rev seen"
| "resolve_dots seen (s # ss) =
     (if double_dot s then resolve_dots (if ss = [] then [] # tl seen else tl seen) ss
      else if single_dot s then resolve_dots (if ss = [] then [] # seen else seen) ss
      else resolve_dots (s # seen) ss)"

definition path_raw :: "char \<Rightarrow> bool" where
  "path_raw c \<longleftrightarrow> CHR 0x21 \<le> c \<and> c \<le> CHR 0x7E \<and> c \<notin> {DQUOTE, CHR ''#'', CHR ''<'', CHR ''>'', CHR ''?'',
     CHR ''^'', CHR 0x60, CHR 0x7B, CHR 0x7D}"

definition path_encode :: "string \<Rightarrow> string" where
  "path_encode s = concat (map (\<lambda>c. if path_raw c then [c] else percent_encode1 c) s)"

fun percent_decode :: "string \<Rightarrow> string" where
  "percent_decode [] = []"
| "percent_decode (c # r) =
     (if c = CHR ''%'' \<and> 2 \<le> length r \<and> 0 \<le> hex_digit (r ! 0) \<and> 0 \<le> hex_digit (r ! 1)
      then char_of (nat (hex_digit (r ! 0) * 16 + hex_digit (r ! 1))) # percent_decode (drop 2 r)
      else c # percent_decode r)"

declare percent_decode.simps(2) [simp del]

definition requested_path :: "string \<Rightarrow> string" where
  "requested_path a =
     c_str (percent_decode (concat (map (\<lambda>s. CHR ''/'' # path_encode s)
       (resolve_dots [] (tl (split_on (CHR ''/'') (link_path a)))))))"

text \<open>Names that a link carries as they are.\<close>

definition link_char :: "char \<Rightarrow> bool" where
  "link_char c \<longleftrightarrow> c \<notin> {CHR ''/'', BACKSLASH, CHR ''%'', NUL, TAB, LF, CR} \<and> \<not> ends_path c"

definition link_name :: "string \<Rightarrow> bool" where
  "link_name s \<longleftrightarrow> s \<noteq> [] \<and> list_all link_char s \<and> s \<noteq> ''.'' \<and> s \<noteq> ''..'' \<and> \<not> url_control (last s)"

lemma link_nameD:
  assumes "link_name s"
  shows "segment_ok s" "\<not> single_dot s" "\<not> double_dot s" "CHR ''%'' \<notin> set s" "NUL \<notin> set s"
    "\<forall>c\<in>set s. \<not> url_dropped c \<and> \<not> ends_path c \<and> c \<noteq> BACKSLASH"
proof -
  have c: "\<forall>c\<in>set s. link_char c" using assms by (simp add: link_name_def list_all_iff)
  then show p: "CHR ''%'' \<notin> set s" "NUL \<notin> set s"
    "\<forall>c\<in>set s. \<not> url_dropped c \<and> \<not> ends_path c \<and> c \<noteq> BACKSLASH"
    by (auto simp: link_char_def url_dropped_def)
  show "segment_ok s" using assms c by (auto simp: link_name_def segment_ok_def link_char_def)
  show "\<not> single_dot s" "\<not> double_dot s"
    using assms p(1) by (auto simp: link_name_def single_dot_def double_dot_def)
qed

lemma percent_decode_encode1: "percent_decode (percent_encode1 c @ t) = c # percent_decode t"
proof -
  have "nat (int (of_char c div 16) * 16 + int (of_char c mod 16)) = (of_char c :: nat)"
    using div_mult_mod_eq[of "of_char c :: nat" 16] by linarith
  then show ?thesis
    using hex_digits_of_byte[of c] by (simp add: percent_encode1_def percent_decode.simps(2) hex_digit_hex_upper)
qed

lemma percent_decode_path:
  "CHR ''%'' \<notin> set s \<Longrightarrow> percent_decode (path_encode s @ t) = s @ percent_decode t"
proof (induction s)
  case (Cons c s)
  then show ?case
    by (auto simp: path_encode_def percent_decode_encode1) (subst percent_decode.simps(2), simp)
qed (simp add: path_encode_def)

lemma resolve_dots_names:
  "\<forall>s\<in>set ss. \<not> single_dot s \<and> \<not> double_dot s \<Longrightarrow> resolve_dots seen ss = rev seen @ ss"
  by (induction ss arbitrary: seen) auto

lemma decoded_segments:
  "\<forall>s\<in>set ss. CHR ''%'' \<notin> set s \<Longrightarrow>
   percent_decode (concat (map (\<lambda>s. CHR ''/'' # path_encode s) ss)) = concat (map (\<lambda>s. CHR ''/'' # s) ss)"
proof (induction ss)
  case (Cons s ss)
  then show ?case by (simp add: percent_decode.simps(2)[of "CHR ''/''"] percent_decode_path)
qed simp

text \<open>A link of such names reaches the server as it is, and so does what precedes a question mark.\<close>

lemma requested_clean:
  assumes "\<forall>s\<in>set ss. link_name s" "link_path a = api_path ss"
  shows "requested_path a = api_path ss"
proof -
  have api: "link_name ''api''" by (simp add: link_name_def link_char_def ends_path_def url_control_def)
  have ok: "\<forall>s\<in>set (''api'' # ss). link_name s" using assms(1) api by simp
  have p: "api_path ss = concat (map (\<lambda>s. CHR ''/'' # s) (''api'' # ss))" by (simp add: api_path_def)
  have "split_on (CHR ''/'') (api_path ss) = [] # ''api'' # ss"
    unfolding p using split_on_join[of "[]" "''api'' # ss"] ok by (auto dest: link_nameD(1))
  then have "resolve_dots [] (tl (split_on (CHR ''/'') (link_path a))) = ''api'' # ss"
    using resolve_dots_names[of "''api'' # ss" "[]"] ok by (auto simp: assms(2) dest: link_nameD(2,3))
  moreover have "percent_decode (concat (map (\<lambda>s. CHR ''/'' # path_encode s) (''api'' # ss))) = api_path ss"
    unfolding p by (rule decoded_segments) (use ok link_nameD(4) in blast)
  moreover have "NUL \<notin> set (api_path ss)" using assms(1) by (auto simp: api_path_def dest: link_nameD(5))
  ultimately show ?thesis by (simp add: requested_path_def c_str_id)
qed

lemma link_path_clean:
  assumes "x \<noteq> []" "\<not> url_control (hd x)" "\<forall>c\<in>set x. \<not> url_dropped c \<and> \<not> ends_path c \<and> c \<noteq> BACKSLASH"
    and "r = [] \<and> \<not> url_control (last x) \<or> r \<noteq> [] \<and> ends_path (hd r)"
  shows "link_path (x @ r) = x"
proof -
  have front: "dropWhile url_control (x @ r) = x @ r" using assms(1,2) by (cases x) auto
  obtain r' where rear: "rev (dropWhile url_control (rev (x @ r))) = x @ r'"
    and r': "r' = [] \<or> r' \<noteq> [] \<and> ends_path (hd r')"
  proof (cases r)
    case Nil
    with assms(1,4) show ?thesis using that[of "[]"] by (cases x rule: rev_cases) auto
  next
    case (Cons c q)
    with assms(4) have c: "ends_path c" "\<not> url_control c" by (auto simp: ends_path_def url_control_def)
    have "dropWhile url_control (rev (x @ r)) = dropWhile url_control (rev q @ c # rev x)" by (simp add: Cons)
    also have "\<dots> = dropWhile url_control (rev q) @ c # rev x"
      using c(2) by (simp add: dropWhile_append dropWhile_eq_Nil_conv)
    finally show ?thesis using that[of "c # rev (dropWhile url_control (rev q))"] c by simp
  qed
  have f: "filter (\<lambda>c. \<not> url_dropped c) (x @ r') = x @ filter (\<lambda>c. \<not> url_dropped c) r'"
    using assms(3) by (simp add: filter_id_conv)
  have "takeWhile (\<lambda>c. \<not> ends_path c) (x @ filter (\<lambda>c. \<not> url_dropped c) r') = x"
  proof (cases r')
    case Nil
    with assms(3) show ?thesis by (simp add: takeWhile_eq_all_conv)
  next
    case (Cons c q)
    with r' have "ends_path c" "\<not> url_dropped c" by (auto simp: ends_path_def url_dropped_def)
    with assms(3) Cons show ?thesis by (simp add: takeWhile_append2)
  qed
  moreover have "map (\<lambda>c. if c = BACKSLASH then CHR ''/'' else c) x = x"
    using assms(3) by (simp add: map_idI)
  ultimately show ?thesis unfolding link_path_def Let_def front rear f by simp
qed

lemma requested_prefix:
  assumes "\<forall>s\<in>set ss. link_name s" "ss \<noteq> []" "r = [] \<or> ends_path (hd r)"
  shows "requested_path (api_path ss @ r) = api_path ss"
proof (rule requested_clean[OF assms(1)])
  have c: "\<not> url_dropped c \<and> \<not> ends_path c \<and> c \<noteq> BACKSLASH" if "c \<in> set (api_path ss)" for c
  proof -
    from that have "c \<in> set ''/api'' \<or> (\<exists>s\<in>set ss. c \<in> set s)"
      by (auto simp: api_path_def split: if_splits)
    then show ?thesis
    proof
      assume "c \<in> set ''/api''"
      then show ?thesis by (auto simp: url_dropped_def ends_path_def)
    next
      assume "\<exists>s\<in>set ss. c \<in> set s"
      with assms(1) show ?thesis by (blast dest: link_nameD(6))
    qed
  qed
  obtain ss' s where ss: "ss = ss' @ [s]" using assms(2) by (cases ss rule: rev_cases) auto
  then have "link_name s" using assms(1) by simp
  then have last: "last (api_path ss) = last s" "\<not> url_control (last s)"
    by (auto simp: ss api_path_def link_name_def)
  show "link_path (api_path ss @ r) = api_path ss"
    by (rule link_path_clean) (use c last assms(3) in \<open>auto simp: api_path_def url_control_def\<close>)
qed

section \<open>The panel of a snapshot\<close>

lemmas panel_plain_defs =
  t_info_open_def t_info_meta_def t_div_close4_def t_current_badge_def t_actions_open_def
  t_delete_disabled_def t_merge_disabled_def t_action_loading_def t_div_close_def

lemma panel_plain:
  assumes "k \<in> {''hx-get'', ''hx-delete'', ''hx-post''}"
    "p \<in> {t_info_open, t_info_meta, t_div_close4, t_current_badge, t_actions_open,
      t_delete_disabled, t_merge_disabled, t_action_loading, t_div_close}"
  shows "holds_links k p []"
  unfolding holds_links_def using assms
  by (elim insertE emptyE; intro allI exI; simp add: panel_plain_defs)

lemma panel_texts:
  assumes "k \<in> {''hx-get'', ''hx-delete'', ''hx-post''}"
  shows "holds_links k (fmt t_info_title [html_escape_loop i]) []"
    and "holds_links k (fmt t_info_date [html_escape_loop i]) []"
    and "holds_links k (fmt t_info_desc [html_escape_loop i]) []"
    and "DQUOTE \<notin> set c \<Longrightarrow> DQUOTE \<notin> set b \<Longrightarrow> holds_links k (fmt t_info_badge [c, b]) []"
    and "holds_links k (fmt t_delete_disabled []) []"
  unfolding holds_links_def using assms
  by (elim insertE emptyE; intro allI exI;
      simp add: t_info_title_def t_info_date_def t_info_desc_def t_info_badge_def t_delete_disabled_def
        attr_simps)+

lemma edit_button_links:
  fixes vm n :: string
  defines "v \<equiv> html_escape_loop vm" and "i \<equiv> html_escape_loop n"
  shows "holds_links ''hx-get'' (fmt t_edit_button [v, i]) [api_path [''vms'', vm, ''snapshots'', n, ''edit'']]"
    and "holds_links ''hx-delete'' (fmt t_edit_button [v, i]) []"
    and "holds_links ''hx-post'' (fmt t_edit_button [v, i]) []"
  unfolding holds_links_def v_def i_def
  by (intro allI exI; simp add: t_edit_button_def attr_simps api_path_def)+

lemma revert_button_links:
  fixes vm n :: string
  defines "v \<equiv> html_escape_loop vm" and "i \<equiv> html_escape_loop n"
  shows "holds_links ''hx-get'' (fmt t_revert_button [v, i]) [api_path [''vms'', vm, ''snapshots'', n, ''revert-confirm'']]"
    and "holds_links ''hx-delete'' (fmt t_revert_button [v, i]) []"
    and "holds_links ''hx-post'' (fmt t_revert_button [v, i]) []"
  unfolding holds_links_def v_def i_def
  by (intro allI exI; simp add: t_revert_button_def attr_simps api_path_def)+

lemma delete_button_links:
  fixes vm n :: string
  defines "v \<equiv> html_escape_loop vm" and "i \<equiv> html_escape_loop n"
  shows "holds_links ''hx-get'' (fmt t_delete_button [v, i, i]) []"
    and "holds_links ''hx-delete'' (fmt t_delete_button [v, i, i]) [api_path [''vms'', vm, ''snapshots'', n]]"
    and "holds_links ''hx-post'' (fmt t_delete_button [v, i, i]) []"
  unfolding holds_links_def v_def i_def
  by (intro allI exI; simp add: t_delete_button_def attr_simps api_path_def)+

lemma merge_button_links:
  fixes vm n :: string
  defines "v \<equiv> html_escape_loop vm" and "i \<equiv> html_escape_loop n"
  shows "holds_links ''hx-get'' (fmt t_merge_button [v, i, i]) []"
    and "holds_links ''hx-delete'' (fmt t_merge_button [v, i, i]) []"
    and "holds_links ''hx-post'' (fmt t_merge_button [v, i, i]) [api_path [''vms'', vm, ''snapshots'', n, ''merge'']]"
  unfolding holds_links_def v_def i_def
  by (intro allI exI; simp add: t_merge_button_def attr_simps api_path_def)+

definition panel_values :: "string \<Rightarrow> string \<Rightarrow> string \<Rightarrow> bool \<Rightarrow> bool \<Rightarrow> string list" where
  "panel_values k vm i active external =
     (if k = ''hx-get'' then [api_path [''vms'', vm, ''snapshots'', i, ''edit''],
                              api_path [''vms'', vm, ''snapshots'', i, ''revert-confirm'']]
      else if active then []
      else if k = ''hx-delete'' then [api_path [''vms'', vm, ''snapshots'', i]]
      else if external then [api_path [''vms'', vm, ''snapshots'', i, ''merge'']] else [])"

lemma panel_links:
  assumes k: "k \<in> {''hx-get'', ''hx-delete'', ''hx-post''}" and i: "node_id n = Some i"
  shows "attr_values k (render_snapshot_detail (Some vm) (Some n) st) =
    panel_values k vm i (st = VM_RUNNING \<or> st = VM_PAUSED) (node_type n = SNAP_EXTERNAL)"
proof -
  obtain d where d: "html_escape (node_description n) = html_escape_loop d"
    by (cases "node_description n") (auto simp: html_escape_def intro: that[of "[]"])
  obtain t where t: "html_escape (node_creation_time n) = html_escape_loop t"
    by (cases "node_creation_time n") (auto simp: html_escape_def intro: that[of "[]"])
  let ?v = "html_escape_loop vm" and ?i = "html_escape_loop i"
  define active where "active \<longleftrightarrow> st = VM_RUNNING \<or> st = VM_PAUSED"
  define e where "e = (if k = ''hx-get'' then [api_path [''vms'', vm, ''snapshots'', i, ''edit'']] else [])"
  define v where "v = (if k = ''hx-get'' then [api_path [''vms'', vm, ''snapshots'', i, ''revert-confirm'']] else [])"
  define x where "x = (if k = ''hx-delete'' then [api_path [''vms'', vm, ''snapshots'', i]] else [])"
  define m where "m = (if k = ''hx-post'' then [api_path [''vms'', vm, ''snapshots'', i, ''merge'']] else [])"
  have b: "holds_links k (fmt t_edit_button [?v, ?i]) e"
    "holds_links k (fmt t_revert_button [?v, ?i]) v"
    "holds_links k (fmt t_delete_button [?v, ?i, ?i]) x"
    "holds_links k (fmt t_merge_button [?v, ?i, ?i]) m"
    using k by (auto simp: e_def v_def x_def m_def edit_button_links revert_button_links
        delete_button_links merge_button_links)
  have badge: "holds_links k (fmt t_info_badge
      [if node_type n = SNAP_INTERNAL then ''badge-internal'' else ''badge-external'',
       if node_type n = SNAP_INTERNAL then ''Internal'' else ''External'']) []"
    by (rule panel_texts(4)[OF k]) simp_all
  have "holds_links k (render_snapshot_detail (Some vm) (Some n) st)
    (concat [[], [], [], [], [], [], [], e, [], [], v, if active then [] else x,
      if node_type n = SNAP_EXTERNAL then (if active then [] else m) else [], [], [], []])"
    unfolding render_snapshot_detail_def Let_def option.case html_escape_simps i d t active_def[symmetric]
    by (rule holds_links_concat) (simp add: b badge panel_texts[OF k] panel_plain[OF k] holds_links_Nil)
  from holds_links_values[OF this] k show ?thesis
    unfolding panel_values_def active_def[symmetric]
    by (auto simp: e_def v_def x_def m_def)
qed

section \<open>Properties\<close>

lemma cut_name:
  fixes i :: string
  defines "j \<equiv> takeWhile (\<lambda>c. \<not> ends_path c) i"
  obtains "j = i" | c q where "i = j @ c # q" "ends_path c" "j \<noteq> i"
proof (cases "dropWhile (\<lambda>c. \<not> ends_path c) i")
  case Nil
  then have "j = i" by (simp add: j_def takeWhile_eq_all_conv dropWhile_eq_Nil_conv)
  then show ?thesis using that(1) by blast
next
  case (Cons c q)
  then have "ends_path c" by (metis hd_dropWhile list.sel(1) list.discI)
  moreover have "i = j @ c # q" using takeWhile_dropWhile_id[of "\<lambda>c. \<not> ends_path c" i] Cons by (simp add: j_def)
  ultimately show ?thesis using that(2) by (metis append_self_conv list.discI)
qed

text \<open>C20: where the buttons of a snapshot's panel lead, as a browser resolves the links and the
  server decodes them. Take a machine whose name a link carries as it is (not empty, no dot segment,
  without slash, backslash, percent sign, question mark, number sign, tab, line break and NUL byte, and
  not ending with a control character or a blank), and a snapshot whose name up to its first question mark or
  number sign is of that kind and not \<open>form\<close>. If the name has no such mark, the \<open>hx-get\<close> links lead
  to its edit form and revert dialog, the \<open>hx-delete\<close> link to its deletion, the \<open>hx-post\<close> link to its
  merge. If it has one, the first two lead to the panel and the third to the deletion of the snapshot
  with the shortened name, and the merge is refused. There is a deletion only while the machine neither
  runs nor is paused, a merge only then and for an external snapshot. Quotes, markup and references
  in the names do not matter.\<close>

theorem panel_buttons_reach_handlers:
  fixes i :: string
  defines "j \<equiv> takeWhile (\<lambda>c. \<not> ends_path c) i"
  assumes "node_id n = Some i" "link_name vm" "link_name j" "j \<noteq> ''form''"
  shows "map (\<lambda>a. route_of GET (requested_path a)) (attr_values ''hx-get'' (render_snapshot_detail (Some vm) (Some n) st)) =
      (if j = i then [R_edit_form vm i, R_revert_confirm vm i]
       else [R_snapshot_detail vm j, R_snapshot_detail vm j]) \<and>
    map (\<lambda>a. route_of DELETE (requested_path a)) (attr_values ''hx-delete'' (render_snapshot_detail (Some vm) (Some n) st)) =
      (if st = VM_RUNNING \<or> st = VM_PAUSED then [] else [R_delete_snapshot vm j]) \<and>
    map (\<lambda>a. route_of POST (requested_path a)) (attr_values ''hx-post'' (render_snapshot_detail (Some vm) (Some n) st)) =
      (if node_type n = SNAP_EXTERNAL \<and> st \<noteq> VM_RUNNING \<and> st \<noteq> VM_PAUSED
       then [if j = i then R_merge vm i else R_not_allowed] else [])"
proof -
  have fixed: "link_name ''vms''" "link_name ''snapshots''" "link_name ''edit''" "link_name ''revert-confirm''"
    "link_name ''merge''"
    by (simp_all add: link_name_def link_char_def ends_path_def url_control_def)
  let ?p = "\<lambda>rest. api_path (''vms'' # vm # ''snapshots'' # i # rest)"
  have whole: "requested_path (?p rest) = ?p rest" if "j = i" "\<forall>s\<in>set rest. link_name s" for rest
    using requested_prefix[of "''vms'' # vm # ''snapshots'' # i # rest" "[]"] that assms(3,4) fixed by simp
  have cut: "requested_path (?p rest) = api_path [''vms'', vm, ''snapshots'', j]" if "j \<noteq> i" for rest
  proof -
    from that obtain c q where "i = j @ c # q" "ends_path c" using cut_name[of i] unfolding j_def by blast
    then have "?p rest = api_path [''vms'', vm, ''snapshots'', j] @ c # q @ concat (map (\<lambda>s. CHR ''/'' # s) rest)"
      by (simp add: api_path_def)
    with requested_prefix[of "[''vms'', vm, ''snapshots'', j]"] assms(3,4) fixed \<open>ends_path c\<close> show ?thesis by simp
  qed
  have ok: "segment_ok vm" "segment_ok j" "segment_ok ''vms''" "segment_ok ''snapshots''" "segment_ok ''edit''"
    "segment_ok ''revert-confirm''" "segment_ok ''merge''"
    using assms(3,4) fixed by (blast dest: link_nameD(1))+
  show ?thesis
  proof (cases "j = i")
    case True
    with ok assms(5) fixed show ?thesis
      by (simp add: panel_links[OF _ assms(2)] panel_values_def whole route_of_path snapshot_route_def)
  next
    case False
    with ok assms(5) fixed show ?thesis
      by (simp add: panel_links[OF _ assms(2)] panel_values_def cut route_of_path snapshot_route_def)
  qed
qed

theorem panel_buttons_reach_handlers_witness:
  "map (\<lambda>a. route_of DELETE (requested_path a)) (attr_values ''hx-delete'' (render_snapshot_detail (Some ''vm'')
      (Some (demo_heap ! 1)) VM_SHUTOFF)) = [R_delete_snapshot ''vm'' ''work''] \<and>
   map (\<lambda>a. route_of DELETE (requested_path a)) (attr_values ''hx-delete'' (render_snapshot_detail (Some ''vm'')
      (Some ((demo_heap ! 1)\<lparr>node_id := Some ''work?2''\<rparr>)) VM_SHUTOFF)) = [R_delete_snapshot ''vm'' ''work'']"
  using panel_buttons_reach_handlers[of "demo_heap ! 1" "''work''" "''vm''" VM_SHUTOFF]
    panel_buttons_reach_handlers[of "(demo_heap ! 1)\<lparr>node_id := Some ''work?2''\<rparr>" "''work?2''" "''vm''" VM_SHUTOFF]
  by (simp add: demo_nodes link_name_def link_char_def ends_path_def url_control_def)

text \<open>A snapshot can be called \<open>form\<close>, but then no button of its panel works: the two
  \<open>hx-get\<close> links give the form for a new snapshot instead of the edit form and the revert dialog, and
  the links for deletion and merge are refused.\<close>

theorem snapshot_called_form:
  assumes "node_id n = Some ''form''" "link_name vm"
  shows "map (\<lambda>a. route_of GET (requested_path a)) (attr_values ''hx-get'' (render_snapshot_detail (Some vm) (Some n) st)) =
      [R_snapshot_form vm, R_snapshot_form vm] \<and>
    set (map (\<lambda>a. route_of DELETE (requested_path a)) (attr_values ''hx-delete'' (render_snapshot_detail (Some vm) (Some n) st)))
      \<subseteq> {R_not_allowed} \<and>
    set (map (\<lambda>a. route_of POST (requested_path a)) (attr_values ''hx-post'' (render_snapshot_detail (Some vm) (Some n) st)))
      \<subseteq> {R_not_allowed}"
proof -
  have fixed: "link_name ''vms''" "link_name ''snapshots''" "link_name ''edit''" "link_name ''revert-confirm''"
    "link_name ''merge''" "link_name ''form''"
    by (simp_all add: link_name_def link_char_def ends_path_def url_control_def)
  have whole: "requested_path (api_path (''vms'' # vm # ''snapshots'' # ''form'' # rest)) =
      api_path (''vms'' # vm # ''snapshots'' # ''form'' # rest)" if "\<forall>s\<in>set rest. link_name s" for rest
    using requested_prefix[of "''vms'' # vm # ''snapshots'' # ''form'' # rest" "[]"] that assms(2) fixed by simp
  have ok: "segment_ok vm" "segment_ok ''vms''" "segment_ok ''snapshots''" "segment_ok ''edit''" "segment_ok ''form''"
    "segment_ok ''revert-confirm''" "segment_ok ''merge''"
    using assms(2) fixed by (blast dest: link_nameD(1))+
  show ?thesis using fixed ok
    by (auto simp: panel_links[OF _ assms(1)] panel_values_def whole route_of_path snapshot_route_def)
qed

theorem snapshot_called_form_witness:
  "map (\<lambda>a. route_of GET (requested_path a)) (attr_values ''hx-get'' (render_snapshot_detail (Some ''vm'')
      (Some \<lparr>node_id = Some ''form'', node_description = None, node_creation_time = None,
        node_type = SNAP_INTERNAL, is_current = False, is_dirty = False, parent = None, children = [],
        child_capacity = 4\<rparr>) VM_SHUTOFF)) = [R_snapshot_form ''vm'', R_snapshot_form ''vm'']"
  by (rule snapshot_called_form[THEN conjunct1])
    (simp_all add: link_name_def link_char_def ends_path_def url_control_def)

end
