(* ===== verification/Config.thy ===== *)
theory Config
  imports Util "HOL-Library.Multiset"
begin

text \<open>
  src/config.c and src/config.h: the drop-in configuration. A \<open>char\<close> array of the configuration
  record is the text it holds. Directory listings and file contents are parameters: \<open>opendir\<close> gives
  the names of a directory in the order \<open>readdir\<close> yields them, \<open>fopen_read\<close> the bytes of a file.
\<close>

section \<open>The configuration record\<close>

record qswm_config =
  cfg_port :: int
  cfg_idle_timeout :: int
  cfg_uri :: string
  cfg_static_dir :: string
  cfg_dirty_state_path :: string

definition config_defaults :: qswm_config where
  "config_defaults =
     \<lparr>cfg_port = 9091, cfg_idle_timeout = 600,
      cfg_uri = snprintf_buf 256 ''qemu:///system'',
      cfg_static_dir = snprintf_buf 256 ''/usr/local/share/qswm/static'',
      cfg_dirty_state_path = snprintf_buf 256 ''/var/lib/qswm/dirty-state.json''\<rparr>"

definition config_parse_line :: "string \<Rightarrow> string \<Rightarrow> qswm_config \<Rightarrow> qswm_config" where
  "config_parse_line key v cfg =
     (if key = ''port'' then cfg\<lparr>cfg_port := atoi v\<rparr>
      else if key = ''idle_timeout'' then cfg\<lparr>cfg_idle_timeout := atoi v\<rparr>
      else if key = ''uri'' then cfg\<lparr>cfg_uri := snprintf_buf 256 v\<rparr>
      else if key = ''static_dir'' then cfg\<lparr>cfg_static_dir := snprintf_buf 256 v\<rparr>
      else if key = ''dirty_state_path'' then cfg\<lparr>cfg_dirty_state_path := snprintf_buf 256 v\<rparr>
      else cfg)"

section \<open>Parsing a buffer\<close>

text \<open>
  One line: at most 511 bytes of it are copied. When the line ends in a newline the rest of it is
  dropped; at the end of the buffer the pointer only advances by what was copied.
\<close>

definition config_next_line :: "string \<Rightarrow> string \<times> string" where
  "config_next_line p =
     (case strchr p LF of
        Some eol \<Rightarrow> (take 511 (before p eol), tl eol)
      | None \<Rightarrow> (take 511 p, drop 511 p))"

text \<open>
  Trailing white space is cut from the end, but the first byte is never removed.
\<close>

definition trim_end :: "string \<Rightarrow> string" where
  "trim_end s = (case s of [] \<Rightarrow> [] | c # cs \<Rightarrow> c # rev (dropWhile isspace (rev cs)))"

definition config_line :: "string \<Rightarrow> qswm_config \<Rightarrow> qswm_config" where
  "config_line line cfg =
     (let s = dropWhile isspace line in
      if s = [] \<or> hd s = CHR ''#'' \<or> hd s = CHR '';'' \<or> hd s = CHR ''['' then cfg
      else (case strchr s (CHR ''='') of
              None \<Rightarrow> cfg
            | Some eq \<Rightarrow>
                config_parse_line (trim_end (before s eq)) (trim_end (dropWhile isspace (tl eq))) cfg))"

lemma config_next_line_shrinks: "p \<noteq> [] \<Longrightarrow> length (snd (config_next_line p)) < length p"
  by (auto simp: config_next_line_def split: option.splits dest!: strchr_SomeD)

lemma config_next_line_rest: "p \<noteq> [] \<Longrightarrow> (line, q) = config_next_line p \<Longrightarrow> length q < length p"
  using config_next_line_shrinks[of p] by (metis snd_conv)

function config_parse_buffer :: "string \<Rightarrow> qswm_config \<Rightarrow> qswm_config" where
  "config_parse_buffer p cfg =
     (if p = [] then cfg
      else (case config_next_line p of (line, p') \<Rightarrow> config_parse_buffer p' (config_line line cfg)))"
  by pat_completeness auto
termination
  by (relation "measure (\<lambda>(p, _). length p)") (auto intro: config_next_line_rest)

declare config_parse_buffer.simps [simp del]

section \<open>Loading the drop-in directory\<close>

definition is_conf :: "string \<Rightarrow> bool" where
  "is_conf name \<longleftrightarrow> 5 < length name \<and> drop (length name - 5) name = ''.conf''"

text \<open>The loop over the directory: it stops reading once 128 names are collected.\<close>

fun collect_conf :: "string list \<Rightarrow> string list \<Rightarrow> string list" where
  "collect_conf [] files = files"
| "collect_conf (e # es) files =
     (if length files < 128
      then collect_conf es (if is_conf e then files @ [e] else files)
      else files)"

definition config_load_file ::
  "(string \<Rightarrow> string option) \<Rightarrow> string \<Rightarrow> string \<Rightarrow> qswm_config \<Rightarrow> qswm_config" where
  "config_load_file fopen_read conf_dir name cfg =
     (case fopen_read (snprintf_buf 512 (conf_dir @ ''/'' @ name)) of
        None \<Rightarrow> cfg
      | Some bytes \<Rightarrow>
          if 0 < length bytes \<and> length bytes < 65536
          then config_parse_buffer (c_str bytes) cfg else cfg)"

definition config_load_dropins ::
  "(string \<Rightarrow> string list option) \<Rightarrow> (string \<Rightarrow> string option) \<Rightarrow> string \<Rightarrow>
   qswm_config \<Rightarrow> nat \<times> qswm_config" where
  "config_load_dropins opendir fopen_read conf_dir cfg =
     (case opendir conf_dir of
        None \<Rightarrow> (0, cfg)
      | Some entries \<Rightarrow>
          let files = sort (collect_conf entries [])
          in (length files, fold (config_load_file fopen_read conf_dir) files cfg))"

section \<open>Bounds\<close>

definition config_ok :: "qswm_config \<Rightarrow> bool" where
  "config_ok cfg \<longleftrightarrow> - (2 ^ 31) \<le> cfg_port cfg \<and> cfg_port cfg < 2 ^ 31 \<and>
     - (2 ^ 31) \<le> cfg_idle_timeout cfg \<and> cfg_idle_timeout cfg < 2 ^ 31 \<and>
     length (cfg_uri cfg) < 256 \<and> length (cfg_static_dir cfg) < 256 \<and>
     length (cfg_dirty_state_path cfg) < 256"

lemma atoi_range: "- (2 ^ 31) \<le> atoi s \<and> atoi s < 2 ^ 31"
  unfolding atoi_def
  using signed_take_bit_int_greater_eq_minus_exp[of 31 "strtol10 s"]
    signed_take_bit_int_less_exp[of 31 "strtol10 s"]
  by simp

lemma config_ok_defaults: "config_ok config_defaults"
  by (simp add: config_ok_def config_defaults_def snprintf_buf_def)

lemma config_ok_parse_line: "config_ok cfg \<Longrightarrow> config_ok (config_parse_line k v cfg)"
  using length_snprintf_buf[of 256 v] atoi_range[of v]
  by (auto simp: config_ok_def config_parse_line_def)

lemma config_ok_line: "config_ok cfg \<Longrightarrow> config_ok (config_line l cfg)"
  by (auto simp: config_line_def Let_def config_ok_parse_line split: option.split)

lemma config_ok_parse_buffer: "config_ok cfg \<Longrightarrow> config_ok (config_parse_buffer p cfg)"
proof (induction p cfg rule: config_parse_buffer.induct)
  case (1 p cfg)
  then show ?case
    by (subst config_parse_buffer.simps) (auto simp: config_ok_line split: prod.split)
qed

lemma config_ok_load_file: "config_ok cfg \<Longrightarrow> config_ok (config_load_file fo d f cfg)"
  by (auto simp: config_load_file_def config_ok_parse_buffer split: option.split)

lemma config_ok_load_files: "config_ok cfg \<Longrightarrow> config_ok (fold (config_load_file fo d) fs cfg)"
  by (induction fs arbitrary: cfg) (auto simp: config_ok_load_file)

section \<open>Lines\<close>

text \<open>
  On a buffer whose lines have at most 511 bytes the loop reads exactly the lines.
\<close>

lemma config_parse_buffer_lines:
  "\<forall>l\<in>set (split_on LF p). length l < 512 \<Longrightarrow>
   config_parse_buffer p cfg = fold config_line (split_on LF p) cfg"
proof (induction p cfg rule: config_parse_buffer.induct)
  case (1 p cfg)
  have skip: "config_line [] c = c" for c by (simp add: config_line_def)
  show ?case
  proof (cases "p = []")
    case True
    then show ?thesis by (simp add: config_parse_buffer.simps skip)
  next
    case False
    show ?thesis
    proof (cases "strchr p LF")
      case None
      then have "split_on LF p = [p]" by (simp add: strchr_None_iff split_on_no_sep)
      with None False "1.prems" show ?thesis
        by (simp add: config_parse_buffer.simps[of p] config_parse_buffer.simps[of "[]"]
            config_next_line_def)
    next
      case (Some eol)
      then obtain l r where p: "p = l @ LF # r" "eol = LF # r" "LF \<notin> set l"
        by (auto dest: strchr_SomeD)
      then have sp: "split_on LF p = l # split_on LF r" by (simp add: split_on_append_sep)
      have nl: "config_next_line p = (l, r)"
        using "1.prems" Some p sp by (simp add: config_next_line_def before_append)
      have "config_parse_buffer r (config_line l cfg) = fold config_line (split_on LF r) (config_line l cfg)"
        using "1.IH"[OF False nl[symmetric]] "1.prems" sp by auto
      with False nl sp show ?thesis by (simp add: config_parse_buffer.simps[of p])
    qed
  qed
qed

section \<open>Directory order\<close>

lemma collect_conf_filter:
  "length files + length (filter is_conf es) \<le> 128 \<Longrightarrow>
   collect_conf es files = files @ filter is_conf es"
proof (induction es arbitrary: files)
  case (Cons e es)
  show ?case
  proof (cases "length files < 128")
    case False
    with Cons.prems have "length (filter is_conf (e # es)) = 0" by linarith
    then have "filter is_conf (e # es) = []" by (simp only: length_0_conv)
    with False show ?thesis by (simp del: filter.simps)
  qed (use Cons in auto)
qed simp

lemma length_collect_conf: "length files \<le> 128 \<Longrightarrow> length (collect_conf es files) \<le> 128"
  by (induction es arbitrary: files) auto

text \<open>Sorting makes the order of the directory irrelevant when it has at most 128 drop-ins.\<close>

lemma sort_collect_conf_perm:
  assumes "mset es = mset es'" "length (filter is_conf es) \<le> 128"
  shows "sort (collect_conf es []) = sort (collect_conf es' [])"
proof -
  have m: "mset (filter is_conf es) = mset (filter is_conf es')"
    using assms(1) by (simp add: mset_filter)
  then have "length (filter is_conf es') \<le> 128"
    using assms(2) by (metis size_mset)
  with assms m have "collect_conf es [] = filter is_conf es" "collect_conf es' [] = filter is_conf es'"
    by (simp_all add: collect_conf_filter)
  with m show ?thesis by (metis mset_sort properties_for_sort sorted_sort)
qed

section \<open>Written configurations\<close>

text \<open>A configuration file with one line for each key, and the texts that such a line can carry.\<close>

definition conf_text :: "qswm_config \<Rightarrow> string" where
  "conf_text cfg =
     ''[general]'' @ [LF] @
     ''port = '' @ dec_int (cfg_port cfg) @ [LF] @
     ''idle_timeout = '' @ dec_int (cfg_idle_timeout cfg) @ [LF] @
     ''uri = '' @ cfg_uri cfg @ [LF] @
     ''static_dir = '' @ cfg_static_dir cfg @ [LF] @
     ''dirty_state_path = '' @ cfg_dirty_state_path cfg @ [LF]"

definition conf_value :: "string \<Rightarrow> bool" where
  "conf_value v \<longleftrightarrow> LF \<notin> set v \<and> (v \<noteq> [] \<longrightarrow> \<not> isspace (hd v) \<and> \<not> isspace (last v))"

lemma trim_end_id: "s \<noteq> [] \<longrightarrow> \<not> isspace (last s) \<Longrightarrow> trim_end s = s"
proof (cases s)
  case (Cons c cs)
  assume "s \<noteq> [] \<longrightarrow> \<not> isspace (last s)"
  with Cons have "cs \<noteq> [] \<longrightarrow> \<not> isspace (hd (rev cs))" by (auto simp: hd_rev)
  then have "dropWhile isspace (rev cs) = rev cs" by (cases "rev cs") auto
  with Cons show ?thesis by (simp add: trim_end_def)
qed (simp add: trim_end_def)

lemma trim_end_space: "c # cs \<noteq> [] \<Longrightarrow> \<not> isspace (last (c # cs)) \<Longrightarrow> trim_end (c # cs @ '' '') = c # cs"
  using trim_end_id[of "c # cs"] by (simp add: trim_end_def isspace_def)

lemma dropWhile_isspace_value: "conf_value v \<Longrightarrow> dropWhile isspace v = v"
  by (cases v) (auto simp: conf_value_def)

definition conf_key :: "string \<Rightarrow> bool" where
  "conf_key k \<longleftrightarrow> k \<noteq> [] \<and> (\<forall>c\<in>set k. \<not> isspace c \<and> c \<noteq> CHR ''='') \<and>
     hd k \<noteq> CHR ''#'' \<and> hd k \<noteq> CHR '';'' \<and> hd k \<noteq> CHR ''[''"

lemma config_line_key_value:
  assumes k: "conf_key k" and v: "conf_value v"
  shows "config_line (k @ '' = '' @ v) cfg = config_parse_line k v cfg"
proof -
  obtain c cs where kc: "k = c # cs" using k by (cases k) (auto simp: conf_key_def)
  have last: "\<not> isspace (last k)" using k kc by (auto simp: conf_key_def)
  have dw: "dropWhile isspace (k @ '' = '' @ v) = k @ '' = '' @ v"
    using k kc by (simp add: conf_key_def)
  have eq: "strchr (k @ '' = '' @ v) (CHR ''='') = Some (''= '' @ v)"
    using k strchr_first[of "CHR ''=''" "k @ '' ''" "'' '' @ v"] by (auto simp: conf_key_def)
  have be: "before (k @ '' = '' @ v) (''= '' @ v) = k @ '' ''"
    using before_append[of "k @ '' ''" "''= '' @ v"] by simp
  have key: "trim_end (k @ '' '') = k"
    using last kc trim_end_space[of c cs] by simp
  have val: "trim_end (dropWhile isspace (tl (''= '' @ v))) = v"
    using v dropWhile_isspace_value[OF v] trim_end_id[of v]
    by (simp add: isspace_def[of "CHR '' ''"] conf_value_def)
  have ne: "k @ '' = '' @ v \<noteq> []" "hd (k @ '' = '' @ v) = hd k" using kc by auto
  show ?thesis
    using k unfolding config_line_def Let_def dw ne(2) eq
    by (simp add: be[simplified] key val[simplified] conf_key_def)
qed

lemma config_line_section: "config_line (CHR ''['' # s) cfg = cfg"
  by (simp add: config_line_def isspace_def)

lemma conf_value_dec: "0 \<le> i \<Longrightarrow> conf_value (dec_int i)"
proof -
  assume "0 \<le> i"
  then have "\<forall>c\<in>set (dec_int i). isdigit c" by (auto simp: dec_int_def intro: dec_nat_digits)
  then have "\<forall>c\<in>set (dec_int i). \<not> isspace c \<and> c \<noteq> LF"
    using isdigit_not_space by (metis isspace_def)
  moreover have "dec_int i \<noteq> []" by (simp add: dec_int_def)
  ultimately show ?thesis unfolding conf_value_def
    by (metis hd_in_set last_in_set)
qed

definition conf_writable :: "qswm_config \<Rightarrow> bool" where
  "conf_writable cfg \<longleftrightarrow> config_ok cfg \<and> 0 \<le> cfg_port cfg \<and> 0 \<le> cfg_idle_timeout cfg \<and>
     conf_value (cfg_uri cfg) \<and> conf_value (cfg_static_dir cfg) \<and>
     conf_value (cfg_dirty_state_path cfg)"

lemma length_dec_int: "0 \<le> i \<Longrightarrow> i < 2 ^ 31 \<Longrightarrow> length (dec_int i) \<le> 10"
  using length_dec_nat[of 10 "nat i"] by (simp add: dec_int_def)

lemma atoi_dec_int: "0 \<le> i \<Longrightarrow> i < 2 ^ 31 \<Longrightarrow> atoi (dec_int i) = i"
  using atoi_dec_nat[of "nat i"] by (simp add: dec_int_def)

lemma split_conf_text:
  assumes "conf_writable cfg"
  shows "split_on LF (conf_text cfg) =
    [''[general]'', ''port = '' @ dec_int (cfg_port cfg),
     ''idle_timeout = '' @ dec_int (cfg_idle_timeout cfg), ''uri = '' @ cfg_uri cfg,
     ''static_dir = '' @ cfg_static_dir cfg, ''dirty_state_path = '' @ cfg_dirty_state_path cfg, []]"
proof -
  have noLF: "LF \<notin> set (dec_int (cfg_port cfg))" "LF \<notin> set (dec_int (cfg_idle_timeout cfg))"
    "LF \<notin> set (cfg_uri cfg)" "LF \<notin> set (cfg_static_dir cfg)" "LF \<notin> set (cfg_dirty_state_path cfg)"
    using assms conf_value_dec by (auto simp: conf_writable_def conf_value_def)
  show ?thesis
    using noLF by (simp add: conf_text_def split_on_append_sep)
qed

section \<open>Properties\<close>

text \<open>C27: reading a written configuration gives back every field. For every configuration whose
  numbers are non-negative \<open>int\<close>s and whose texts are shorter than 256 bytes, hold no newline and
  have no white space at either end, parsing the file with one line per key, on top of any earlier
  configuration, yields it exactly.\<close>

theorem config_roundtrip:
  assumes "conf_writable cfg"
  shows "config_parse_buffer (conf_text cfg) cfg0 = cfg"
proof -
  have ok: "config_ok cfg" "0 \<le> cfg_port cfg" "0 \<le> cfg_idle_timeout cfg"
    and v: "conf_value (cfg_uri cfg)" "conf_value (cfg_static_dir cfg)"
      "conf_value (cfg_dirty_state_path cfg)"
    using assms by (auto simp: conf_writable_def)
  have short: "\<forall>l\<in>set (split_on LF (conf_text cfg)). length l < 512"
    using ok length_dec_int[of "cfg_port cfg"] length_dec_int[of "cfg_idle_timeout cfg"]
    by (simp add: split_conf_text[OF assms] config_ok_def)
  have keys: "conf_key ''port''" "conf_key ''idle_timeout''" "conf_key ''uri''"
    "conf_key ''static_dir''" "conf_key ''dirty_state_path''"
    by (simp_all add: conf_key_def isspace_def)
  have kv: "config_line (''port = '' @ dec_int (cfg_port cfg)) c
      = config_parse_line ''port'' (dec_int (cfg_port cfg)) c"
    "config_line (''idle_timeout = '' @ dec_int (cfg_idle_timeout cfg)) c
      = config_parse_line ''idle_timeout'' (dec_int (cfg_idle_timeout cfg)) c"
    "config_line (''uri = '' @ cfg_uri cfg) c = config_parse_line ''uri'' (cfg_uri cfg) c"
    "config_line (''static_dir = '' @ cfg_static_dir cfg) c
      = config_parse_line ''static_dir'' (cfg_static_dir cfg) c"
    "config_line (''dirty_state_path = '' @ cfg_dirty_state_path cfg) c
      = config_parse_line ''dirty_state_path'' (cfg_dirty_state_path cfg) c" for c
    using config_line_key_value[OF keys(1) conf_value_dec[OF ok(2)], of c]
      config_line_key_value[OF keys(2) conf_value_dec[OF ok(3)], of c]
      config_line_key_value[OF keys(3) v(1), of c] config_line_key_value[OF keys(4) v(2), of c]
      config_line_key_value[OF keys(5) v(3), of c]
    by simp_all
  have empty: "config_line [] c = c" for c by (simp add: config_line_def)
  have "config_parse_buffer (conf_text cfg) cfg0 =
    config_parse_line ''dirty_state_path'' (cfg_dirty_state_path cfg)
     (config_parse_line ''static_dir'' (cfg_static_dir cfg)
      (config_parse_line ''uri'' (cfg_uri cfg)
       (config_parse_line ''idle_timeout'' (dec_int (cfg_idle_timeout cfg))
        (config_parse_line ''port'' (dec_int (cfg_port cfg)) cfg0))))"
    unfolding config_parse_buffer_lines[OF short] split_conf_text[OF assms]
    by (simp only: fold_simps kv empty config_line_section)
  also have "\<dots> = cfg"
    using ok by (cases cfg)
      (simp add: config_parse_line_def config_ok_def atoi_dec_int snprintf_buf_fits)
  finally show ?thesis .
qed

theorem config_roundtrip_witness:
  "config_parse_buffer (conf_text (config_defaults\<lparr>cfg_port := 8080\<rparr>)) config_defaults
     = config_defaults\<lparr>cfg_port := 8080\<rparr>"
  by (rule config_roundtrip)
    (simp add: conf_writable_def config_ok_def config_defaults_def snprintf_buf_def conf_value_def
      isspace_def)

text \<open>C28: loading the drop-in directory does not depend on the order in which the directory
  is read when it has at most 128 drop-ins: the files are merged in the order of their names, later
  names winning. For every directory at most 128 files are merged, and every text of the resulting
  configuration fits its 256-byte array and its numbers fit an \<open>int\<close>.\<close>

theorem config_dropins_merge:
  assumes "config_ok cfg"
  shows "fst (config_load_dropins opendir fo d cfg) \<le> 128 \<and>
    config_ok (snd (config_load_dropins opendir fo d cfg)) \<and>
    (\<forall>es es'. mset es = mset es' \<and> length (filter is_conf es) \<le> 128 \<longrightarrow>
       config_load_dropins (\<lambda>_. Some es) fo d cfg = config_load_dropins (\<lambda>_. Some es') fo d cfg \<and>
       snd (config_load_dropins (\<lambda>_. Some es) fo d cfg)
         = fold (config_load_file fo d) (sort (filter is_conf es)) cfg)"
proof (intro conjI allI impI)
  show "fst (config_load_dropins opendir fo d cfg) \<le> 128"
    by (auto simp: config_load_dropins_def Let_def length_collect_conf split: option.split)
  show "config_ok (snd (config_load_dropins opendir fo d cfg))"
    using assms by (auto simp: config_load_dropins_def Let_def config_ok_load_files split: option.split)
  fix es es' :: "string list"
  assume "mset es = mset es' \<and> length (filter is_conf es) \<le> 128"
  then show "config_load_dropins (\<lambda>_. Some es) fo d cfg = config_load_dropins (\<lambda>_. Some es') fo d cfg"
    and "snd (config_load_dropins (\<lambda>_. Some es) fo d cfg)
         = fold (config_load_file fo d) (sort (filter is_conf es)) cfg"
    using sort_collect_conf_perm[of es es']
    by (simp_all add: config_load_dropins_def Let_def collect_conf_filter)
qed

theorem config_dropins_merge_witness:
  "config_load_dropins (\<lambda>_. Some [''b.conf'', ''a.conf'', ''x'']) (\<lambda>_. None) ''/d'' config_defaults
     = config_load_dropins (\<lambda>_. Some [''x'', ''a.conf'', ''b.conf'']) (\<lambda>_. None) ''/d'' config_defaults"
  using config_dropins_merge[OF config_ok_defaults, of "\<lambda>_. None" "\<lambda>_. None" "''/d''"]
  by (auto simp: is_conf_def)

text \<open>The 512-byte line buffer is not harmless at the end of a file. A comment of 511 bytes or
  more that ends in a newline is one line, but the same comment on a last line without a newline is
  cut after 511 bytes and its rest is read as a line of its own: here it sets the port.\<close>

theorem config_long_last_line:
  "config_parse_buffer (replicate 511 (CHR ''#'') @ ''port=1'') cfg = cfg\<lparr>cfg_port := 1\<rparr> \<and>
   config_parse_buffer (replicate 511 (CHR ''#'') @ ''port=1'' @ [LF]) cfg = cfg"
proof -
  let ?c = "replicate 511 (CHR ''#'')"
  have hash: "config_line (CHR ''#'' # s) c = c" for s c by (simp add: config_line_def isspace_def)
  have c: "?c = CHR ''#'' # replicate 510 (CHR ''#'')"
    by (simp add: numeral_eq_Suc)
  have n1: "config_next_line (?c @ ''port=1'') = (?c, ''port=1'')"
    by (simp add: config_next_line_def strchr_None_iff[THEN iffD2])
  have n2: "config_next_line (''port=1'') = (''port=1'', [])"
    by (simp add: config_next_line_def)
  have n3: "config_next_line ((?c @ ''port=1'') @ [LF]) = (?c, [])"
    using strchr_first[of LF "?c @ ''port=1''" "[]"] before_append[of "?c @ ''port=1''" "[LF]"]
    by (simp add: config_next_line_def)
  have skip: "config_line ?c c = c" for c by (subst c) (rule hash)
  have port: "config_line ''port=1'' cfg = cfg\<lparr>cfg_port := 1\<rparr>"
    by (simp add: config_line_def Let_def isspace_def before_def trim_end_def config_parse_line_def
        atoi_def strtol10_def digits_val_def digit_val_def isdigit_def)
  have "config_parse_buffer (?c @ ''port=1'') cfg = cfg\<lparr>cfg_port := 1\<rparr>"
    by (simp add: config_parse_buffer.simps[of "?c @ ''port=1''"] config_parse_buffer.simps[of "''port=1''"]
        config_parse_buffer.simps[of "[]"] n1 n2 skip port)
  moreover have "config_parse_buffer (?c @ ''port=1'' @ [LF]) cfg = cfg"
    by (subst config_parse_buffer.simps)
      (use n3 in \<open>simp add: config_parse_buffer.simps[of "[]"] skip\<close>)
  ultimately show ?thesis by blast
qed

end
