(* ===== verification/Server.thy ===== *)
theory Server
  imports Urls Config
begin

text \<open>
  src/server.c: the request handler in front of the routes, static files, the idle clock, and the life
  of the HTTP daemon.
\<close>

section \<open>State\<close>

text \<open>What the daemon listens on: a port of 16 bits, or a socket it was handed.\<close>

datatype listener = Listen_port "16 word" | Listen_fd int

record server =
  sv_daemon :: "listener option"
  sv_static_dir :: string
  sv_libvirt_uri :: string
  sv_socket_activated :: bool
  sv_last_request :: int

definition touch_activity :: "int \<Rightarrow> server \<Rightarrow> server" where
  "touch_activity now sv = sv\<lparr>sv_last_request := now\<rparr>"

definition server_idle_seconds :: "int \<Rightarrow> server \<Rightarrow> int" where
  "server_idle_seconds now sv = (if sv_last_request sv = 0 then 0 else now - sv_last_request sv)"

section \<open>Static files\<close>

definition guess_mime :: "string \<Rightarrow> string" where
  "guess_mime path =
     (case strrchr path (CHR ''.'') of
        None \<Rightarrow> ''application/octet-stream''
      | Some dot \<Rightarrow>
          if dot = ''.html'' then ''text/html''
          else if dot = ''.css'' then ''text/css''
          else if dot = ''.js'' then ''application/javascript''
          else if dot = ''.json'' then ''application/json''
          else if dot = ''.png'' then ''image/png''
          else if dot = ''.svg'' then ''image/svg+xml''
          else if dot = ''.ico'' then ''image/x-icon''
          else ''application/octet-stream'')"

definition send_response :: "nat \<Rightarrow> string \<Rightarrow> string \<Rightarrow> response" where
  "send_response status ty body =
     \<lparr>r_status = status, r_type = ty, r_trigger = None, r_body = body\<rparr>"

definition not_found_page :: string where
  "not_found_page = ''<html><body><h1>404 Not Found</h1></body></html>''"

text \<open>
  What opening a path gives: nothing, something that is not a regular file, or a file with its size
  and the bytes that reading it yields.
\<close>

datatype opened = Open_fails | Not_regular | Regular nat string

definition serve_static_file :: "(string \<Rightarrow> opened) \<Rightarrow> string \<Rightarrow> string \<Rightarrow> dispatched" where
  "serve_static_file fopen static_dir url =
     (if strstr url ''..'' \<noteq> None
      then Respond (send_response MHD_HTTP_FORBIDDEN ''text/plain'' ''Forbidden'')
      else
       (let rel = (if str_eq (Some url) (Some ''/'') then ''/index.html'' else url);
            filepath = static_dir @ rel
        in case fopen filepath of
             Open_fails \<Rightarrow> Respond (send_response MHD_HTTP_NOT_FOUND ''text/html'' not_found_page)
           | Not_regular \<Rightarrow> Respond (send_response MHD_HTTP_NOT_FOUND ''text/html'' not_found_page)
           | Regular fsize data \<Rightarrow>
               if length (take fsize data) \<noteq> fsize then Refuse
               else Respond (send_response MHD_HTTP_OK (guess_mime filepath) (take fsize data))))"

section \<open>The request handler\<close>

text \<open>The connection's slot: empty, the mark of a page request, or the body of an API request.\<close>

datatype con_slot = Con_empty | Con_seen | Con_body request_context

definition slot_ctx :: "con_slot \<Rightarrow> request_context option" where
  "slot_ctx c = (case c of Con_body ctx \<Rightarrow> Some ctx | _ \<Rightarrow> None)"

definition ctx_slot :: "request_context option \<Rightarrow> con_slot" where
  "ctx_slot c = (case c of None \<Rightarrow> Con_empty | Some ctx \<Rightarrow> Con_body ctx)"

record 's server_env =
  se_mem :: allocator
  se_route :: "'s route_env"
  se_open :: "string \<Rightarrow> opened"

text \<open>
  \<open>now\<close> is the clock at the start of the call, \<open>later\<close> when the idle time is computed. A slot with
  the mark never meets the API branch, because a connection keeps its URL for the whole request.
\<close>

definition request_handler ::
  "'s server_env \<Rightarrow> int \<Rightarrow> int \<Rightarrow> request \<Rightarrow> string \<Rightarrow> con_slot \<Rightarrow> 's app \<Rightarrow> server \<Rightarrow>
   (dispatched \<times> con_slot \<times> 's app \<times> server) option" where
  "request_handler env now later rq upload slot a sv =
     (let sv1 = touch_activity now sv; url = rq_url rq; m = rq_method rq in
      if str_starts_with (Some url) (Some ''/api/'') then
        (if url = ''/api/idle-check''
         then Some (Respond (send_response MHD_HTTP_OK ''text/plain''
                      (snprintf_buf 64 (dec_int (server_idle_seconds later sv1)))), slot, a, sv1)
         else if m = GET \<and> url = ''/api/ping''
         then Some (Respond (send_response MHD_HTTP_OK ''text/plain'' ''pong''), slot, a, sv1)
         else (case route_dispatch (se_mem env) (se_route env) rq upload (slot_ctx slot) a of
                 None \<Rightarrow> None
               | Some (d, con, a1) \<Rightarrow> Some (d, ctx_slot con, a1, sv1)))
      else if slot = Con_empty then Some (Continue, Con_seen, a, sv1)
      else if m \<noteq> GET
      then Some (Respond (send_response MHD_HTTP_METHOD_NOT_ALLOWED ''text/plain'' ''Method Not Allowed''),
                 slot, a, sv1)
      else Some (serve_static_file (se_open env) (sv_static_dir sv1) url, slot, a, sv1))"

section \<open>The daemon\<close>

text \<open>\<open>mhd_starts\<close> says whether the HTTP library can start a daemon on the listener.\<close>

definition server_start ::
  "(listener \<Rightarrow> bool) \<Rightarrow> int \<Rightarrow> int \<Rightarrow> string \<Rightarrow> string \<Rightarrow> server \<Rightarrow> int \<times> server" where
  "server_start mhd_starts now port static_dir uri sv =
     (let sv1 = (touch_activity now sv)\<lparr>sv_static_dir := static_dir, sv_libvirt_uri := uri\<rparr>;
          l = Listen_port (word_of_int port)
      in if \<not> mhd_starts l then (- 1, sv1\<lparr>sv_daemon := None\<rparr>)
         else (0, sv1\<lparr>sv_daemon := Some l, sv_socket_activated := False\<rparr>))"

definition SD_LISTEN_FDS_START :: int where
  "SD_LISTEN_FDS_START = 3"

text \<open>The argument is the answer of \<open>sd_listen_fds\<close>.\<close>

definition server_check_activation :: "int \<Rightarrow> int" where
  "server_check_activation n = (if n < 0 then - 1 else if n = 0 then - 1 else SD_LISTEN_FDS_START)"

definition server_start_fd ::
  "(listener \<Rightarrow> bool) \<Rightarrow> int \<Rightarrow> int \<Rightarrow> string \<Rightarrow> string \<Rightarrow> server \<Rightarrow> int \<times> server" where
  "server_start_fd mhd_starts now fd static_dir uri sv =
     (let sv1 = (touch_activity now sv)\<lparr>sv_static_dir := static_dir, sv_libvirt_uri := uri\<rparr>;
          l = Listen_fd fd
      in if \<not> mhd_starts l then (- 1, sv1\<lparr>sv_daemon := None\<rparr>)
         else (0, sv1\<lparr>sv_daemon := Some l, sv_socket_activated := True\<rparr>))"

text \<open>
  Stopping, with the calls it makes: a daemon on a handed socket is quiesced first, which leaves the
  socket open for the next start.
\<close>

datatype mhd_call = MHD_quiesce_daemon | MHD_stop_daemon

definition server_stop :: "server \<Rightarrow> mhd_call list \<times> server" where
  "server_stop sv =
     (if sv_daemon sv \<noteq> None
      then ((if sv_socket_activated sv then [MHD_quiesce_daemon] else []) @ [MHD_stop_daemon],
            sv\<lparr>sv_daemon := None, sv_socket_activated := False\<rparr>)
      else ([], sv))"

section \<open>Properties\<close>

text \<open>C19: static files never leave the static directory. What is served depends only on the
  files whose path is the static directory followed by a text without two dots in a row;
  a success is the whole content of such a file, and a URL with two dots in a row is refused.\<close>

theorem static_files_stay_inside:
  assumes "\<forall>p. \<not> sublist ''..'' p \<longrightarrow> fopen1 (dir @ p) = fopen2 (dir @ p)"
  shows "serve_static_file fopen1 dir url = serve_static_file fopen2 dir url \<and>
    (serve_static_file fopen1 dir url = Respond r \<longrightarrow> r_status r = MHD_HTTP_OK \<longrightarrow>
       (\<exists>p n data. \<not> sublist ''..'' p \<and> fopen2 (dir @ p) = Regular n data \<and>
          r_body r = take n data \<and> length (r_body r) = n)) \<and>
    (sublist ''..'' url \<longrightarrow> (\<exists>r. serve_static_file fopen1 dir url = Respond r \<and> r_status r = MHD_HTTP_FORBIDDEN))"
proof (cases "sublist ''..'' url")
  case True
  then have "strstr url ''..'' \<noteq> None" by (simp only: strstr_None_iff not_not)
  with True show ?thesis by (auto simp: serve_static_file_def send_response_def)
next
  case False
  define rel where "rel = (if url = ''/'' then ''/index.html'' else url)"
  have "\<not> sublist ''..'' ''/index.html''" by (simp add: sublist_Cons_right)
  with False have rel: "\<not> sublist ''..'' rel" by (simp add: rel_def)
  with assms have same: "fopen1 (dir @ rel) = fopen2 (dir @ rel)" by blast
  from False have "strstr url ''..'' = None" by (simp only: strstr_None_iff simp_thms)
  then have e: "serve_static_file f dir url = (case f (dir @ rel) of
      Open_fails \<Rightarrow> Respond (send_response MHD_HTTP_NOT_FOUND ''text/html'' not_found_page)
    | Not_regular \<Rightarrow> Respond (send_response MHD_HTTP_NOT_FOUND ''text/html'' not_found_page)
    | Regular n data \<Rightarrow> if length (take n data) \<noteq> n then Refuse
        else Respond (send_response MHD_HTTP_OK (guess_mime (dir @ rel)) (take n data)))" for f
    unfolding serve_static_file_def Let_def str_eq_iff option.inject rel_def[symmetric] by simp
  show ?thesis unfolding e same using rel False
    by (cases "fopen2 (dir @ rel)") (auto simp: send_response_def)
qed

theorem static_files_stay_inside_witness:
  "serve_static_file (\<lambda>p. if p = ''/s/a.js'' then Regular 2 ''ab'' else Open_fails) ''/s'' ''/a.js'' =
   serve_static_file (\<lambda>p. if p = ''/s/a.js'' then Regular 2 ''ab''
     else if p = ''/s/../etc/shadow'' then Regular 1 ''x'' else Open_fails) ''/s'' ''/a.js''"
  by (rule static_files_stay_inside[THEN conjunct1]) (auto simp: sublist_Cons_right)

text \<open>C39: the idle check never finds the program idle. The handler notes the time of every request,
  the check included, before it answers, so whatever the earlier requests, the answer is the time
  that passes inside this one call: at most the seconds between its two clock readings.\<close>

theorem idle_check_resets_the_clock:
  assumes "rq_url rq = ''/api/idle-check''" "0 < now" "now \<le> later" "later - now < 2 ^ 63"
  shows "\<exists>sv1. request_handler env now later rq upload slot a sv =
      Some (Respond (send_response MHD_HTTP_OK ''text/plain'' (dec_int (later - now))), slot, a, sv1) \<and>
    sv_last_request sv1 = now"
proof -
  have "length (dec_nat (nat (later - now))) \<le> 19"
    using assms by (intro length_dec_nat) (simp_all add: nat_less_iff)
  then have "length (dec_int (later - now)) < 64" using assms(3) by (simp add: dec_int_def)
  with assms show ?thesis
    by (simp add: request_handler_def str_starts_with_iff touch_activity_def server_idle_seconds_def
        snprintf_buf_fits Let_def)
qed

theorem idle_check_resets_the_clock_witness:
  "\<exists>sv1. request_handler
      \<lparr>se_mem = (\<lambda>_. True), se_route = demo_route_env, se_open = (\<lambda>_. Open_fails)\<rparr> 1000000 1000000
      \<lparr>rq_method = GET, rq_url = ''/api/idle-check'', rq_arg = (\<lambda>_. None)\<rparr> [] Con_empty demo_app
      \<lparr>sv_daemon = None, sv_static_dir = [], sv_libvirt_uri = [], sv_socket_activated = False,
       sv_last_request = 1\<rparr> =
    Some (Respond (send_response MHD_HTTP_OK ''text/plain'' (dec_int (1000000 - 1000000))),
      Con_empty, demo_app, sv1) \<and> sv_last_request sv1 = 1000000"
  by (rule idle_check_resets_the_clock) simp_all

end
