(* ===== verification/Backend_Contract.thy ===== *)
theory Backend_Contract
  imports Routes
begin

text \<open>
  What the handlers of src/routes.c rely on when they call the active backend (the table of
  src/vm_backend.h): listing does not change anything, and the tree a backend hands out is a tree. The
  locales state it, with what follows for the handlers; the libvirt backend is an instance.
\<close>

text \<open>The routes that only show something; the two others reach the guest or the disks.\<close>

fun showing :: "route \<Rightarrow> bool" where
  "showing R_not_found = True"
| "showing R_not_allowed = True"
| "showing R_browse = True"
| "showing R_list_vms = True"
| "showing (R_snapshot_tree _) = True"
| "showing (R_snapshot_form _) = True"
| "showing (R_snapshot_detail _ _) = True"
| "showing (R_edit_form _ _) = True"
| "showing (R_revert_confirm _ _) = True"
| "showing (R_shared_folder_form _) = True"
| "showing _ = False"

lemma get_shows:
  "showing (route_of GET url) \<or> (\<exists>vm. route_of GET url = R_shared_folders vm) \<or>
   (\<exists>vm. route_of GET url = R_orphan_check vm)"
  by (auto simp: route_of_def snapshot_route_def folder_route_def vm_route_def Let_def split: option.splits)

section \<open>Backends whose lists only read\<close>

text \<open>The state of a machine in the backend's list.\<close>

definition listed_state :: "'s vm_backend \<Rightarrow> string \<Rightarrow> 's \<Rightarrow> vm_state option" where
  "listed_state be vm s = Option.bind (fst (be_list_vms be s)) (find_vm vm)"

locale reading_backend =
  fixes be :: "'s vm_backend"
  assumes list_vms_reads: "snd (be_list_vms be s) = s"
    and list_snapshots_reads: "snd (be_list_snapshots be vm s) = s"
begin

lemma on_list_vms: "on_sys (be_list_vms be) a = (fst (be_list_vms be (app_sys a)), a)"
  using list_vms_reads[of "app_sys a"] by (cases "be_list_vms be (app_sys a)") (simp add: on_sys_def)

lemma on_list_snapshots:
  "on_sys (be_list_snapshots be vm) a = (fst (be_list_snapshots be vm (app_sys a)), a)"
  using list_snapshots_reads[of vm "app_sys a"]
  by (cases "be_list_snapshots be vm (app_sys a)") (simp add: on_sys_def)

lemma lookup_reads: "lookup_vm_state be vm a = (listed_state be vm (app_sys a), a)"
  by (simp add: lookup_vm_state_def on_list_vms listed_state_def split: option.splits)

lemma load_reads: "re_backend env = Some be \<Longrightarrow> load_snapshot env vm n a = Some (r, a1) \<Longrightarrow> a1 = a"
  by (auto simp: load_snapshot_def Let_def on_list_snapshots split: option.splits)

lemma fresh_detail_reads:
  "re_backend env = Some be \<Longrightarrow> fresh_detail env vm n st a = Some (d, a1) \<Longrightarrow> a1 = a"
  by (auto simp: fresh_detail_def on_list_snapshots lookup_reads split: option.splits)

lemma dirty_keeps_sys: "app_sys (snd (vm_is_dirty env vm v a)) = app_sys a"
  by (simp add: vm_is_dirty_def split: prod.splits)

lemma tree_keeps_sys:
  assumes "re_backend env = Some be" "handle_snapshot_tree env vm a = Some (r, a1)"
  shows "app_sys a1 = app_sys a"
  using assms
  by (auto simp: handle_snapshot_tree_def on_list_snapshots lookup_reads vm_is_dirty_def
      split: option.splits prod.splits)

lemma confirm_keeps_sys:
  assumes "re_backend env = Some be" "handle_revert_confirm env vm n a = Some (r, a1)"
  shows "app_sys a1 = app_sys a"
  using assms
  by (auto simp: handle_revert_confirm_def lookup_reads vm_is_dirty_def Let_def
      split: option.splits prod.splits)

lemma detail_keeps_sys:
  assumes "re_backend env = Some be" "handle_snapshot_detail env vm n a = Some (r, a1)"
  shows "app_sys a1 = app_sys a"
  using assms(2) load_reads[OF assms(1), of vm n a] assms(1)
  by (auto simp: handle_snapshot_detail_def lookup_reads split: option.splits sum.splits)

lemma edit_form_keeps_sys:
  assumes "re_backend env = Some be" "handle_edit_snapshot_form env vm n a = Some (r, a1)"
  shows "app_sys a1 = app_sys a"
  using assms(2) load_reads[OF assms(1), of vm n a]
  by (auto simp: handle_edit_snapshot_form_def Let_def split: option.splits sum.splits)

lemma browse_keeps: "handle_browse_dir env path a = Some (r, a1) \<Longrightarrow> a1 = a"
  by (auto simp: handle_browse_dir_def split: option.splits)

lemma showing_keeps_sys:
  assumes "re_backend env = Some be" "showing route" "run_route env rq body route a = Some (r, a1)"
  shows "app_sys a1 = app_sys a"
proof (cases route)
  case R_browse
  with assms(3) show ?thesis by (auto dest: browse_keeps)
next
  case R_list_vms
  with assms(1,3) show ?thesis by (auto simp: handle_list_vms_def on_list_vms split: option.splits)
qed (use assms in \<open>auto simp: handle_snapshot_form_def handle_shared_folder_form_def
      dest: tree_keeps_sys confirm_keeps_sys detail_keeps_sys edit_form_keeps_sys\<close>)

lemma delete_blocked:
  assumes "re_backend env = Some be" "listed_state be vm (app_sys a) \<in> {Some VM_RUNNING, Some VM_PAUSED}"
  shows "handle_delete_snapshot env vm n a =
    Some (send_html_trigger MHD_HTTP_BAD_REQUEST (render_error (Some t_delete_blocked)) vm_changed, a)"
  using assms by (auto simp: handle_delete_snapshot_def lookup_reads)

lemma delete_calls:
  assumes "re_backend env = Some be" "listed_state be vm (app_sys a) \<notin> {Some VM_RUNNING, Some VM_PAUSED}"
  shows "map_option snd (handle_delete_snapshot env vm n a) =
    Some (a\<lparr>app_sys := snd (be_delete_snapshot be vm n True (app_sys a))\<rparr>)"
  using assms by (simp add: handle_delete_snapshot_def lookup_reads on_sys_def split: prod.splits)

lemma revert_blocked:
  assumes "re_backend env = Some be" "listed_state be vm (app_sys a) = Some VM_RUNNING"
  shows "handle_revert_snapshot env vm n arg a =
    Some (send_html_trigger MHD_HTTP_BAD_REQUEST (render_error (Some t_revert_blocked)) vm_changed, a)"
  using assms by (simp add: handle_revert_snapshot_def lookup_reads)

end

lemma create_total: "handle_create_snapshot env vm body a \<noteq> None"
  by (simp add: handle_create_snapshot_def form_value_spec Let_def split: option.split prod.split)

lemma add_folder_total: "handle_add_shared_folder env vm body a \<noteq> None"
  by (simp add: handle_add_shared_folder_def form_value_spec Let_def split: option.split prod.split)

lemma guest_total:
  "handle_mount_shared_folder env vm tag a \<noteq> None"
  "handle_unmount_shared_folder env vm tag a \<noteq> None"
  "handle_automount_setup env vm a \<noteq> None"
  by (simp_all add: handle_mount_shared_folder_def handle_unmount_shared_folder_def
      handle_automount_setup_def split: option.split prod.split)

lemma action_total: "vm_action op vm f t a \<noteq> None"
  by (simp add: vm_action_def split: option.split prod.split)

lemma other_total:
  "handle_list_vms env a \<noteq> None" "handle_convert_nvram env vm a \<noteq> None"
  "handle_orphan_check env vm a \<noteq> None" "handle_orphan_cleanup env vm a \<noteq> None"
  "handle_shared_folders env vm a \<noteq> None" "handle_remove_shared_folder env vm tag a \<noteq> None"
  "handle_delete_snapshot env vm n a \<noteq> None" "handle_revert_confirm env vm n a \<noteq> None"
  "handle_browse_dir env path a \<noteq> None"
  by (simp_all add: handle_list_vms_def handle_convert_nvram_def handle_orphan_check_def
      handle_orphan_cleanup_def handle_shared_folders_def handle_remove_shared_folder_def
      handle_delete_snapshot_def handle_revert_confirm_def handle_browse_dir_def Let_def
      split: option.split prod.split)

section \<open>Backends that hand out trees\<close>

text \<open>
  In a good state the lists are trees, and the calls after which a handler lists again, create,
  revert and the edit of a description, lead from good states to good ones.
\<close>

definition keeps :: "('s \<Rightarrow> bool) \<Rightarrow> ('s \<Rightarrow> 'r \<times> 's) \<Rightarrow> bool" where
  "keeps good f \<longleftrightarrow> (\<forall>s. good s \<longrightarrow> good (snd (f s)))"

lemma keeps_on_sys:
  "keeps good f \<Longrightarrow> good (app_sys a) \<Longrightarrow> on_sys f a = (r, a1) \<Longrightarrow> good (app_sys a1)"
  by (auto simp: on_sys_def keeps_def split: prod.splits)

locale tree_backend = reading_backend be for be :: "'s vm_backend" +
  fixes direct :: "'s lv_direct" and good :: "'s \<Rightarrow> bool"
  assumes tree_law: "good s \<Longrightarrow> fst (be_list_snapshots be vm s) = Some (Some root, h) \<Longrightarrow>
      \<exists>t. holds h t \<and> root_of t = root \<and> heap_ok h \<and> length (addrs t) \<le> length h"
    and good_create: "keeps good (be_create_snapshot be vm n d ty)"
    and good_revert: "keeps good (be_revert_snapshot be vm n)"
    and good_edit: "keeps good (ld_edit_description direct vm n d)"
begin

text \<open>The searches have the fuel they need.\<close>

lemma find_total:
  assumes "good s" "fst (be_list_snapshots be vm s) = Some (Some root, h)"
  shows "snapshot_tree_find (tree_fuel h) h root (Some n) \<noteq> None"
proof -
  from tree_law[OF assms] obtain t where t: "holds h t" "root_of t = root" "length (addrs t) \<le> length h"
    by blast
  then have "height t \<le> tree_fuel h" using height_le_length_addrs[of t] by (simp add: tree_fuel_def)
  from snapshot_tree_find_refines[OF t(1) this, of n] t(2) show ?thesis by auto
qed

lemma load_total:
  assumes "re_backend env = Some be" "good (app_sys a)"
  shows "\<exists>r. load_snapshot env vm n a = Some (r, a)"
  using assms
  by (auto simp: load_snapshot_def Let_def on_list_snapshots split: option.splits dest: find_total)

lemma fresh_detail_total:
  assumes "re_backend env = Some be" "good (app_sys a)"
  shows "\<exists>r. fresh_detail env vm n st a = Some (r, a)"
  using assms
  by (auto simp: fresh_detail_def on_list_snapshots lookup_reads split: option.splits dest: find_total)

lemma tree_total:
  assumes "re_backend env = Some be" "good (app_sys a)" "\<forall>j. re_dumps env j \<noteq> None"
  shows "handle_snapshot_tree env vm a \<noteq> None"
proof (cases "\<exists>root h. fst (be_list_snapshots be vm (app_sys a)) = Some (Some root, h)")
  case False
  then show ?thesis using assms(1)
    by (auto simp: handle_snapshot_tree_def on_list_snapshots split: option.splits prod.splits)
next
  case True
  then obtain root h where L: "fst (be_list_snapshots be vm (app_sys a)) = Some (Some root, h)" by blast
  from tree_law[OF assms(2) L] obtain t where
    t: "holds h t" "root_of t = root" "heap_ok h" "length (addrs t) \<le> length h" by blast
  have json: "\<exists>text. snapshot_tree_to_json (re_utf8 env) (re_dumps env) (tree_fuel h') h' root = Some (Some text)"
    if "holds h' t'" "root_of t' = root" "height t' \<le> Suc (height t)" "length h \<le> length h'" for h' t'
  proof -
    have "height t' \<le> tree_fuel h'"
      using that(3,4) t(4) height_le_length_addrs[of t] by (simp add: tree_fuel_def)
    from node_to_json_refines[OF that(1) this] that(2) assms(3) show ?thesis
      by (auto simp: snapshot_tree_to_json_def)
  qed
  have plain: "\<exists>text. snapshot_tree_to_json (re_utf8 env) (re_dumps env) (tree_fuel h) h root = Some (Some text)"
    using json[OF t(1,2)] by simp
  have added: "\<exists>h'. snapshot_tree_add_current_state (tree_fuel h) h root st d = Some h' \<and>
      (\<exists>text. snapshot_tree_to_json (re_utf8 env) (re_dumps env) (tree_fuel h') h' root = Some (Some text))"
    for st d
  proof -
    have "length (addrs t) \<le> tree_fuel h" using t(4) by (simp add: tree_fuel_def)
    from add_current_state_total[OF t(1,3) this, of st d] obtain h' t' where
      h: "snapshot_tree_add_current_state (tree_fuel h) h root st d = Some h'" "holds h' t'"
        "root_of t' = root" "height t' \<le> Suc (height t)" "length h \<le> length h'" using t(2) by auto
    from json[OF h(2-5)] h(1) show ?thesis by blast
  qed
  show ?thesis
  proof (cases "listed_state be vm (app_sys a)")
    case None
    with plain L assms(1) show ?thesis
      by (auto simp: handle_snapshot_tree_def on_list_snapshots lookup_reads)
  next
    case (Some v)
    obtain d a3 where d: "vm_is_dirty env vm v a = (d, a3)" by fastforce
    from added[of "vm_state_str v" d] Some L assms(1) d show ?thesis
      by (auto simp: handle_snapshot_tree_def on_list_snapshots lookup_reads)
  qed
qed

lemma revert_total:
  assumes "re_backend env = Some be" "good (app_sys a)"
  shows "handle_revert_snapshot env vm n arg a \<noteq> None"
proof -
  obtain rc a2 where s: "save_before_revert env be vm (arg = Some ''1'') a = (rc, a2)" by fastforce
  then have g2: "good (app_sys a2)"
    using assms(2) by (auto simp: save_before_revert_def split: if_splits intro: keeps_on_sys[OF good_create])
  obtain rc2 a3 where r: "on_sys (be_revert_snapshot be vm n) a2 = (rc2, a3)" by fastforce
  then have g3: "good (app_sys (mark_vm_clean env vm a3))"
    using g2 by (auto simp: mark_vm_clean_def intro: keeps_on_sys[OF good_revert])
  obtain d where "fresh_detail env vm n VM_SHUTOFF (mark_vm_clean env vm a3) = Some (d, mark_vm_clean env vm a3)"
    using fresh_detail_total[OF assms(1) g3] by blast
  with assms(1) s r show ?thesis
    by (auto simp: handle_revert_snapshot_def lookup_reads Let_def)
qed

lemma edit_total:
  assumes "re_backend env = Some be" "re_direct env = direct" "good (app_sys a)"
  shows "handle_edit_snapshot env vm n body a \<noteq> None"
proof -
  obtain d where d: "form_value body ''description'' = Some d"
    using form_value_spec[of "''description''" body] by auto
  obtain rc a1 where e: "on_sys (ld_edit_description direct vm n (or_empty d)) a = (rc, a1)" by fastforce
  then have "good (app_sys a1)" using assms(3) by (auto intro: keeps_on_sys[OF good_edit])
  from fresh_detail_total[OF assms(1) this] obtain f where
    "fresh_detail env vm n VM_OTHER a1 = Some (f, a1)" by blast
  with assms(2) d e show ?thesis by (cases f) (simp_all add: handle_edit_snapshot_def)
qed

lemma panels_total:
  assumes "re_backend env = Some be" "good (app_sys a)"
  shows "handle_snapshot_detail env vm n a \<noteq> None" "handle_edit_snapshot_form env vm n a \<noteq> None"
proof -
  obtain r where "load_snapshot env vm n a = Some (r, a)" using load_total[OF assms] by blast
  with assms(1) show "handle_snapshot_detail env vm n a \<noteq> None"
    "handle_edit_snapshot_form env vm n a \<noteq> None"
    by (cases r; simp add: handle_snapshot_detail_def handle_edit_snapshot_form_def lookup_reads Let_def)+
qed

lemma run_route_total:
  assumes "re_backend env = Some be" "re_direct env = direct" "good (app_sys a)"
    and "\<forall>j. re_dumps env j \<noteq> None"
  shows "run_route env rq body route a \<noteq> None"
  using tree_total[OF assms(1,3,4)] revert_total[OF assms(1,3)] edit_total[OF assms(1-3)]
    panels_total[OF assms(1,3)]
  by (cases route)
    (simp_all add: create_total add_folder_total guest_total action_total other_total
      handle_snapshot_form_def handle_shared_folder_form_def handle_merge_snapshot_def handle_vm_start_def
      handle_vm_stop_def handle_vm_pause_def handle_vm_resume_def handle_vm_force_stop_def del: not_None_eq)

end

section \<open>Backends that stay good\<close>

text \<open>Every operation the handlers can reach leads from good states to good ones.\<close>

locale serving_backend = tree_backend be direct good
    for be :: "'s vm_backend" and direct :: "'s lv_direct" and good :: "'s \<Rightarrow> bool" +
  assumes good_life: "keeps good (be_vm_start be vm)" "keeps good (be_vm_stop be vm)"
      "keeps good (be_vm_pause be vm)" "be_vm_force_stop be = Some f \<Longrightarrow> keeps good (f vm)"
      "be_vm_resume be = Some f \<Longrightarrow> keeps good (f vm)"
    and good_delete: "keeps good (be_delete_snapshot be vm n b)"
    and good_merge: "keeps good (be_merge_snapshot be vm n)"
    and good_folders: "keeps good (be_list_shared_folders be vm)"
      "keeps good (be_add_shared_folder be vm n d b ty)" "keeps good (be_remove_shared_folder be vm n)"
      "be_mount_shared_folder be = Some g \<Longrightarrow> keeps good (g vm n d)"
      "be_unmount_shared_folder be = Some h \<Longrightarrow> keeps good (h vm n)"
      "be_check_mount_status be = Some l \<Longrightarrow> keeps good (l vm fs)"
    and good_guest: "be_check_automount_status be = Some f \<Longrightarrow> keeps good (f vm)"
      "be_setup_automount be = Some u \<Longrightarrow> keeps good (u vm)"
      "be_detect_guest_os be = Some w \<Longrightarrow> keeps good (w vm)"
    and good_direct: "keeps good (ld_convert_nvram direct vm)" "keeps good (ld_scan_orphans direct vm)"
      "keeps good (ld_cleanup_orphans direct vm)" "good s \<Longrightarrow> good (ld_enable_shared_memory direct vm s)"
begin

lemma action_keeps:
  assumes "vm_action op vm f t a = Some (r, a1)" "good (app_sys a)"
    "\<And>g. op = Some g \<Longrightarrow> keeps good (g vm)"
  shows "good (app_sys a1)"
proof (cases op)
  case None
  with assms show ?thesis by (simp add: vm_action_def)
next
  case (Some g)
  obtain rc a2 where e: "on_sys (g vm) a = (rc, a2)" by fastforce
  with keeps_on_sys[OF assms(3)[OF Some] assms(2) e] assms(1) Some show ?thesis
    by (auto simp: vm_action_def split: if_splits)
qed

lemma life_keeps:
  assumes "re_backend env = Some be" "good (app_sys a)"
  shows "handle_vm_start env vm a = Some (r, a1) \<Longrightarrow> good (app_sys a1)"
    "handle_vm_stop env vm a = Some (r, a1) \<Longrightarrow> good (app_sys a1)"
    "handle_vm_pause env vm a = Some (r, a1) \<Longrightarrow> good (app_sys a1)"
    "handle_vm_resume env vm a = Some (r, a1) \<Longrightarrow> good (app_sys a1)"
    "handle_vm_force_stop env vm a = Some (r, a1) \<Longrightarrow> good (app_sys a1)"
    "handle_merge_snapshot env vm n a = Some (r, a1) \<Longrightarrow> good (app_sys a1)"
  unfolding handle_vm_start_def handle_vm_stop_def handle_vm_pause_def handle_vm_resume_def
    handle_vm_force_stop_def handle_merge_snapshot_def
  using assms good_life good_merge by (auto elim!: action_keeps)

lemma direct_keeps:
  assumes "re_direct env = direct" "good (app_sys a)"
  shows "handle_convert_nvram env vm a = Some (r, a1) \<Longrightarrow> good (app_sys a1)"
    "handle_orphan_check env vm a = Some (r, a1) \<Longrightarrow> good (app_sys a1)"
    "handle_orphan_cleanup env vm a = Some (r, a1) \<Longrightarrow> good (app_sys a1)"
  using assms
  by (auto simp: handle_convert_nvram_def handle_orphan_check_def handle_orphan_cleanup_def
      split: prod.splits if_splits option.splits
      dest: keeps_on_sys[OF good_direct(1)] keeps_on_sys[OF good_direct(2)] keeps_on_sys[OF good_direct(3)])

lemma snapshot_keeps:
  assumes "re_backend env = Some be" "re_direct env = direct" "good (app_sys a)"
  shows "handle_delete_snapshot env vm n a = Some (r, a1) \<Longrightarrow> good (app_sys a1)"
    "handle_create_snapshot env vm body a = Some (r, a1) \<Longrightarrow> good (app_sys a1)"
  subgoal using assms
    by (auto simp: handle_delete_snapshot_def lookup_reads split: prod.splits if_splits
        dest: keeps_on_sys[OF good_delete])
  subgoal using assms
    by (auto simp: handle_create_snapshot_def bind_eq_Some_conv Let_def mark_vm_clean_def
        split: prod.splits if_splits dest: keeps_on_sys[OF good_create])
  done

lemma edit_keeps:
  assumes "re_backend env = Some be" "re_direct env = direct" "good (app_sys a)"
    "handle_edit_snapshot env vm n body a = Some (r, a1)"
  shows "good (app_sys a1)"
proof -
  from assms(4) obtain d where d: "form_value body ''description'' = Some d"
    by (auto simp: handle_edit_snapshot_def bind_eq_Some_conv)
  obtain rc a2 where e: "on_sys (ld_edit_description direct vm n (or_empty d)) a = (rc, a2)" by fastforce
  have g: "good (app_sys a2)" using keeps_on_sys[OF good_edit assms(3) e] .
  show ?thesis
  proof (cases "rc = 0")
    case False
    with assms(2,4) d e g show ?thesis by (auto simp: handle_edit_snapshot_def)
  next
    case True
    with assms(2,4) d e obtain f a3 where f: "fresh_detail env vm n VM_OTHER a2 = Some (f, a3)" "a1 = a3"
      by (auto simp: handle_edit_snapshot_def split: option.splits)
    with fresh_detail_reads[OF assms(1) f(1)] g show ?thesis by simp
  qed
qed

lemma revert_keeps:
  assumes "re_backend env = Some be" "good (app_sys a)" "handle_revert_snapshot env vm n arg a = Some (r, a1)"
  shows "good (app_sys a1)"
proof -
  obtain rc a2 where s: "save_before_revert env be vm (arg = Some ''1'') a = (rc, a2)" by fastforce
  then have g2: "good (app_sys a2)"
    using assms(2) by (auto simp: save_before_revert_def split: if_splits intro: keeps_on_sys[OF good_create])
  obtain rc2 a3 where r: "on_sys (be_revert_snapshot be vm n) a2 = (rc2, a3)" by fastforce
  have g3: "good (app_sys a3)" using keeps_on_sys[OF good_revert g2 r] .
  then have "good (app_sys (mark_vm_clean env vm a3))" by (simp add: mark_vm_clean_def)
  with assms s r g2 g3 show ?thesis
    by (auto simp: handle_revert_snapshot_def lookup_reads Let_def split: if_splits option.splits
        dest: fresh_detail_reads[OF assms(1)])
qed

lemma guest_help_keeps:
  "guest_help_page be vm t d a = (html, a1) \<Longrightarrow> good (app_sys a) \<Longrightarrow> good (app_sys a1)"
  by (auto simp: guest_help_page_def split: option.splits prod.splits dest: keeps_on_sys[OF good_guest(3)])

lemma add_folder_keeps:
  assumes "re_backend env = Some be" "re_direct env = direct" "good (app_sys a)"
    "handle_add_shared_folder env vm body a = Some (r, a1)"
  shows "good (app_sys a1)"
proof -
  have added: "good (app_sys a3)"
    if "good (app_sys a2)" "on_sys (be_add_shared_folder be vm src tag ro fs) a2 = (rc, a3)" for a2 a3 rc src tag ro fs
    using keeps_on_sys[OF good_folders(2) that] .
  have g: "good (app_sys (a\<lparr>app_sys := ld_enable_shared_memory direct vm (app_sys a)\<rparr>))"
    using assms(3) good_direct(4) by simp
  from assms(1,2,4) show ?thesis
    by (simp add: handle_add_shared_folder_def form_value_spec Let_def split: if_split_asm prod.split_asm)
      (erule added[OF g] added[OF assms(3)] | use assms(3) in simp)+
qed

lemma folder_keeps:
  assumes "re_backend env = Some be" "re_direct env = direct" "good (app_sys a)"
  shows "handle_shared_folders env vm a = Some (r, a1) \<Longrightarrow> good (app_sys a1)"
    "handle_remove_shared_folder env vm t a = Some (r, a1) \<Longrightarrow> good (app_sys a1)"
    "handle_mount_shared_folder env vm t a = Some (r, a1) \<Longrightarrow> good (app_sys a1)"
    "handle_unmount_shared_folder env vm t a = Some (r, a1) \<Longrightarrow> good (app_sys a1)"
    "handle_automount_setup env vm a = Some (r, a1) \<Longrightarrow> good (app_sys a1)"
  subgoal using assms
    by (auto simp: handle_shared_folders_def Let_def split: prod.splits option.splits
        dest: keeps_on_sys[OF good_folders(1)] keeps_on_sys[OF good_folders(6)] keeps_on_sys[OF good_guest(1)])
  subgoal using assms
    by (auto simp: handle_remove_shared_folder_def Let_def split: prod.splits if_splits
        dest: keeps_on_sys[OF good_folders(3)])
  subgoal using assms
    by (auto simp: handle_mount_shared_folder_def split: prod.splits option.splits if_splits
        dest: keeps_on_sys[OF good_folders(1)] keeps_on_sys[OF good_folders(4)] guest_help_keeps)
  subgoal using assms
    by (auto simp: handle_unmount_shared_folder_def split: prod.splits option.splits if_splits
        dest: keeps_on_sys[OF good_folders(5)] guest_help_keeps)
  subgoal using assms
    by (auto simp: handle_automount_setup_def split: prod.splits option.splits if_splits
        dest: keeps_on_sys[OF good_guest(2)] guest_help_keeps)
  done

lemma run_route_keeps:
  assumes "re_backend env = Some be" "re_direct env = direct" "good (app_sys a)"
    and "run_route env rq body route a = Some (r, a1)"
  shows "good (app_sys a1)"
proof (cases "showing route")
  case True
  from showing_keeps_sys[OF assms(1) True assms(4)] assms(3) show ?thesis by simp
next
  case False
  with assms(4) show ?thesis
    by (cases route) (auto dest: life_keeps[OF assms(1,3)] direct_keeps[OF assms(2,3)]
        snapshot_keeps[OF assms(1-3)] edit_keeps[OF assms(1-3)] revert_keeps[OF assms(1,3)] folder_keeps[OF assms(1-3)]
        add_folder_keeps[OF assms(1-3)])
qed

end

end
