(* ===== verification/Libvirt_Xml.thy ===== *)
theory Libvirt_Xml
  imports Util
begin

text \<open>
  The XML helpers of src/libvirt_backend.c: substring extraction of elements and attributes, the
  escaping of texts that go into XML, and the conversion of time stamps.
\<close>

section \<open>Extraction\<close>

definition open_tag :: "string \<Rightarrow> string" where
  "open_tag tag = snprintf_buf 64 (''<'' @ tag @ ''>'')"

definition close_tag :: "string \<Rightarrow> string" where
  "close_tag tag = snprintf_buf 64 (''</'' @ tag @ ''>'')"

definition extract_xml_content :: "string \<Rightarrow> string \<Rightarrow> string option" where
  "extract_xml_content xml tag =
     (case strstr xml (open_tag tag) of
        None \<Rightarrow> None
      | Some s \<Rightarrow>
          let start = drop (length (open_tag tag)) s in
          (case strstr start (close_tag tag) of
             None \<Rightarrow> None
           | Some e \<Rightarrow> Some (before start e)))"

definition extract_xml_content_ext :: "string \<Rightarrow> string \<Rightarrow> string option" where
  "extract_xml_content_ext xml tag =
     (case extract_xml_content xml tag of
        Some r \<Rightarrow> Some r
      | None \<Rightarrow>
         (case strstr xml (snprintf_buf 64 (''<'' @ tag @ '' '')) of
            None \<Rightarrow> None
          | Some tag_start \<Rightarrow>
             (case strchr tag_start (CHR ''>'') of
                None \<Rightarrow> None
              | Some gt \<Rightarrow>
                  (case strstr (tl gt) (close_tag tag) of
                     None \<Rightarrow> None
                   | Some e \<Rightarrow> Some (before (tl gt) e)))))"

definition extract_xml_attr :: "string \<Rightarrow> string \<Rightarrow> string \<Rightarrow> string option" where
  "extract_xml_attr xml tag attr =
     (case strstr xml (snprintf_buf 128 (''<'' @ tag @ '' '')) of
        None \<Rightarrow> None
      | Some tag_start \<Rightarrow>
          let single = snprintf_buf 128 (attr @ [CHR ''='', SQUOTE]);
              double = snprintf_buf 128 (attr @ [CHR ''='', DQUOTE]) in
          (case (case strstr tag_start single of
                   Some s \<Rightarrow> Some (drop (length single) s, last single)
                 | None \<Rightarrow>
                    (case strstr tag_start double of
                       Some s \<Rightarrow> Some (drop (length double) s, last double)
                     | None \<Rightarrow> None)) of
             None \<Rightarrow> None
           | Some (start, quote) \<Rightarrow>
               (case strchr start quote of
                  None \<Rightarrow> None
                | Some e \<Rightarrow> Some (before start e))))"

definition extract_snapshot_parent_name :: "string option \<Rightarrow> string option" where
  "extract_snapshot_parent_name xml =
     (case xml of
        None \<Rightarrow> None
      | Some x \<Rightarrow>
         (case extract_xml_content_ext x ''parent'' of
            None \<Rightarrow> None
          | Some p \<Rightarrow> extract_xml_content p ''name''))"

section \<open>Escaping\<close>

definition xml_escape1 :: "char \<Rightarrow> string" where
  "xml_escape1 c =
     (if c = CHR ''&'' then ''&amp;''
      else if c = CHR ''<'' then ''&lt;''
      else if c = CHR ''>'' then ''&gt;''
      else if c = DQUOTE then ''&quot;''
      else if c = SQUOTE then ''&apos;''
      else [c])"

text \<open>The first loop of \<open>xml_escape_text\<close> adds up the length of the result, the second writes it.\<close>

fun xml_escape_len :: "string \<Rightarrow> nat" where
  "xml_escape_len [] = 0"
| "xml_escape_len (c # cs) =
     (if c = CHR ''&'' then 5 else if c = CHR ''<'' then 4 else if c = CHR ''>'' then 4
      else if c = DQUOTE then 6 else if c = SQUOTE then 6 else 1) + xml_escape_len cs"

fun xml_escape_loop :: "string \<Rightarrow> string" where
  "xml_escape_loop [] = []"
| "xml_escape_loop (c # cs) = xml_escape1 c @ xml_escape_loop cs"

definition xml_escape_text :: "string option \<Rightarrow> string" where
  "xml_escape_text src = xml_escape_loop (case src of None \<Rightarrow> [] | Some s \<Rightarrow> s)"

definition xml_special :: "char \<Rightarrow> bool" where
  "xml_special c \<longleftrightarrow> c \<in> {CHR ''&'', CHR ''<'', CHR ''>'', DQUOTE, SQUOTE}"

interpretation xml: markup_escape xml_escape1 xml_escape_loop xml_special 6 "CHR ''&''"
  by unfold_locales (auto simp: xml_escape1_def xml_special_def split: if_splits)

text \<open>The allocation of the first loop is exactly what the second loop writes.\<close>

lemma xml_escape_len_exact: "xml_escape_len s = length (xml_escape_loop s)"
  by (induction s) (auto simp: xml_escape1_def)

lemma xml_escape_no_lt: "CHR ''<'' \<notin> set (xml_escape_loop s)"
  by (rule xml.esc_clean) (auto simp: xml_special_def)

section \<open>Time stamps\<close>

text \<open>
  The civil date of a number of days since 1970-01-01, in the proleptic Gregorian calendar, as
  \<open>gmtime_r\<close> computes it: days are counted from 1 March of the year 0 in cycles of 400 years.
\<close>

definition civil_of_days :: "int \<Rightarrow> int \<times> int \<times> int" where
  "civil_of_days d =
     (let z = d + 719468;
          era = z div 146097;
          doe = z mod 146097;
          yoe = (doe - doe div 1460 + doe div 36524 - doe div 146096) div 365;
          doy = doe - (365 * yoe + yoe div 4 - yoe div 100);
          mp = (5 * doy + 2) div 153;
          day = doy - (153 * mp + 2) div 5 + 1;
          m = (if mp < 10 then mp + 3 else mp - 9);
          y = yoe + era * 400 + (if m \<le> 2 then 1 else 0)
      in (y, m, day))"

definition two_digits :: "int \<Rightarrow> string" where
  "two_digits i = (if 0 \<le> i \<and> i < 10 then CHR ''0'' # dec_int i else dec_int i)"

definition iso_of_time :: "int \<Rightarrow> string" where
  "iso_of_time t =
     (let (y, m, d) = civil_of_days (t div 86400); s = t mod 86400 in
      dec_int y @ ''-'' @ two_digits m @ ''-'' @ two_digits d @ ''T'' @
      two_digits (s div 3600) @ '':'' @ two_digits (s mod 3600 div 60) @ '':'' @
      two_digits (s mod 60) @ ''Z'')"

definition unix_to_iso :: "string \<Rightarrow> string" where
  "unix_to_iso s = snprintf_buf 32 (iso_of_time (strtol10 s))"

section \<open>What extraction finds\<close>

text \<open>An extracted content lies in the document between its tags.\<close>

lemma extract_xml_content_sound:
  assumes "extract_xml_content xml tag = Some b"
  shows "\<exists>pre post. xml = pre @ open_tag tag @ b @ close_tag tag @ post"
proof -
  from assms obtain s e where s: "strstr xml (open_tag tag) = Some s"
    and e: "strstr (drop (length (open_tag tag)) s) (close_tag tag) = Some e"
    and b: "b = before (drop (length (open_tag tag)) s) e"
    by (auto simp: extract_xml_content_def Let_def split: option.splits)
  from strstr_SomeD[OF s] obtain pre r where 1: "xml = pre @ s" "s = open_tag tag @ r"
    by (auto simp: prefix_def)
  from strstr_SomeD[OF e] 1 obtain p post where 2: "r = p @ e" "e = close_tag tag @ post"
    by (auto simp: prefix_def)
  have "b = p" using b 1 2 by (simp add: before_append)
  with 1 2 show ?thesis by auto
qed

text \<open>
  In a document where the tag is opened right after a text without it, and the content holds no
  angle bracket, the content is what is extracted.
\<close>

lemma extract_content_at:
  assumes "strstr xml (open_tag tag) = Some (open_tag tag @ b @ close_tag tag @ post)"
    and "strstr (b @ close_tag tag @ post) (close_tag tag) = Some (close_tag tag @ post)"
  shows "extract_xml_content xml tag = Some b"
  using assms by (simp add: extract_xml_content_def before_append)

lemma extract_content_here:
  assumes "strstr xml (open_tag tag) = Some (open_tag tag @ b @ close_tag tag @ post)"
    and "CHR ''<'' \<notin> set b" "length tag < 61"
  shows "extract_xml_content xml tag = Some b"
proof -
  have ct: "close_tag tag = CHR ''<'' # CHR ''/'' # tag @ ''>''"
    using assms(3) by (simp add: close_tag_def snprintf_buf_def)
  have "strstr (b @ close_tag tag @ post) (close_tag tag) = Some (close_tag tag @ post)"
    using strstr_skip[OF assms(2), of "close_tag tag @ post"] strstr_prefix[of "close_tag tag" "close_tag tag @ post"]
    by (simp add: ct)
  with assms(1) show ?thesis
    by (simp add: extract_xml_content_def before_append)
qed

lemma extract_content_skip:
  assumes "CHR ''<'' \<notin> set p"
  shows "extract_xml_content (p @ r) tag = extract_xml_content r tag"
proof -
  obtain x where "open_tag tag = CHR ''<'' # x" by (simp add: open_tag_def snprintf_buf_def)
  with assms show ?thesis by (simp add: extract_xml_content_def strstr_skip)
qed

section \<open>Reading what the program writes\<close>

text \<open>The values of \<open>extract_xml_content\<close> on a document that starts with the wanted or another tag.\<close>

lemma open_tag_short: "length tag < 62 \<Longrightarrow> open_tag tag = ''<'' @ tag @ ''>''"
  by (simp add: open_tag_def snprintf_buf_def)

lemma close_tag_short: "length tag < 61 \<Longrightarrow> close_tag tag = ''</'' @ tag @ ''>''"
  by (simp add: close_tag_def snprintf_buf_def)

lemma extract_hit:
  "CHR ''<'' \<notin> set b \<Longrightarrow> length tag < 61 \<Longrightarrow>
   extract_xml_content (open_tag tag @ b @ close_tag tag @ post) tag = Some b"
  by (rule extract_content_here) (auto intro: strstr_prefix)

text \<open>An element before the wanted one is skipped when it cannot be mistaken for it.\<close>

lemma extract_miss:
  assumes "\<not> prefix (open_tag tag) (CHR ''<'' # p @ r)" "CHR ''<'' \<notin> set p"
  shows "extract_xml_content (CHR ''<'' # p @ r) tag = extract_xml_content r tag"
proof -
  have "strstr (CHR ''<'' # p @ r) (open_tag tag) = strstr (p @ r) (open_tag tag)"
    using assms(1) by simp
  then show ?thesis
    using extract_content_skip[OF assms(2), of r tag] by (simp add: extract_xml_content_def)
qed

end
