(* ===== verification/Libvirt_Core.thy ===== *)
theory Libvirt_Core
  imports Backend Snapshot Libvirt_Xml
begin

text \<open>
  src/libvirt_backend.c: connection, machine list, machine life cycle and snapshot operations.

  libvirt is a parameter, the record \<open>lv_api\<close> of its calls on a world \<open>'w\<close> of which nothing is
  assumed here. A domain and a snapshot handle are the names they were looked up by. A call that
  only reads takes the world, a call that acts returns the new one. Allocation succeeds, so the
  branches for a failed \<open>malloc\<close> are not in the model.

  Beside libvirt the record has what the module uses of the host: \<open>system\<close>, \<open>unlink\<close> and \<open>popen\<close>
  (the whole output of the command), the JSON parser, and \<open>api_uninit\<close>, what a grown array holds in
  the two fields of an element that the program does not set. \<open>api_domain_xml\<close> is the persistent
  description, \<open>api_live_xml\<close> the one of the domain as it is; \<open>api_snapshot_names\<close> are the names that
  \<open>virDomainSnapshotListNames\<close> fills in.
\<close>

section \<open>The interface of libvirt\<close>

datatype vir_state = VIR_DOMAIN_RUNNING | VIR_DOMAIN_PAUSED | VIR_DOMAIN_SHUTOFF | VIR_DOMAIN_ELSE

datatype create_flag =
    SNAPSHOT_CREATE_DISK_ONLY
  | SNAPSHOT_CREATE_ATOMIC
  | SNAPSHOT_CREATE_REDEFINE
  | SNAPSHOT_CREATE_CURRENT

datatype affect_flag = VIR_DOMAIN_AFFECT_LIVE | VIR_DOMAIN_AFFECT_CONFIG

datatype lifecycle = Dom_create | Dom_shutdown | Dom_destroy | Dom_suspend | Dom_resume

record 'w lv_api =
  api_connect :: "string \<Rightarrow> 'w \<Rightarrow> bool \<times> 'w"
  api_list_domains :: "'w \<Rightarrow> string list option"
  api_lookup_domain :: "'w \<Rightarrow> string \<Rightarrow> bool"
  api_uuid :: "'w \<Rightarrow> string \<Rightarrow> string"
  api_state :: "'w \<Rightarrow> string \<Rightarrow> vir_state option"
  api_info :: "'w \<Rightarrow> string \<Rightarrow> (vir_state \<times> int \<times> nat) option"
  api_lifecycle :: "lifecycle \<Rightarrow> string \<Rightarrow> 'w \<Rightarrow> int \<times> 'w"
  api_list_snapshots :: "'w \<Rightarrow> string \<Rightarrow> string list option"
  api_current_snapshot :: "'w \<Rightarrow> string \<Rightarrow> string option"
  api_lookup_snapshot :: "'w \<Rightarrow> string \<Rightarrow> string \<Rightarrow> bool"
  api_snapshot_xml :: "'w \<Rightarrow> string \<Rightarrow> string \<Rightarrow> string option"
  api_create_snapshot :: "string \<Rightarrow> string \<Rightarrow> create_flag list \<Rightarrow> 'w \<Rightarrow> bool \<times> 'w"
  api_delete_snapshot :: "string \<Rightarrow> string \<Rightarrow> bool \<Rightarrow> 'w \<Rightarrow> int \<times> 'w"
  api_revert :: "string \<Rightarrow> string \<Rightarrow> 'w \<Rightarrow> int \<times> 'w"
  api_block_commit :: "string \<Rightarrow> string \<Rightarrow> 'w \<Rightarrow> int \<times> 'w"
  api_last_error :: "'w \<Rightarrow> string option"
  api_domain_xml :: "'w \<Rightarrow> string \<Rightarrow> string option"
  api_define_xml :: "string \<Rightarrow> 'w \<Rightarrow> bool \<times> 'w"
  api_system :: "string \<Rightarrow> 'w \<Rightarrow> int \<times> 'w"
  api_unlink :: "string \<Rightarrow> 'w \<Rightarrow> 'w"
  api_live_xml :: "'w \<Rightarrow> string \<Rightarrow> string option"
  api_attach_device :: "string \<Rightarrow> string \<Rightarrow> affect_flag list \<Rightarrow> 'w \<Rightarrow> int \<times> 'w"
  api_detach_device :: "string \<Rightarrow> string \<Rightarrow> affect_flag list \<Rightarrow> 'w \<Rightarrow> int \<times> 'w"
  api_agent_command :: "string \<Rightarrow> string \<Rightarrow> int \<Rightarrow> 'w \<Rightarrow> string option \<times> 'w"
  api_snapshot_num :: "'w \<Rightarrow> string \<Rightarrow> int"
  api_snapshot_names :: "'w \<Rightarrow> string \<Rightarrow> string list"
  api_popen :: "string \<Rightarrow> 'w \<Rightarrow> string option \<times> 'w"
  api_json_loads :: "string \<Rightarrow> json option"
  api_uninit :: "nat \<Rightarrow> int \<times> bool"

text \<open>The module's own state: the connection and the thread's error text, of 1024 bytes.\<close>

record 'w lv_state =
  lv_conn :: bool
  lv_last_error :: string
  lv_world :: 'w

definition lv_get_last_error :: "'w lv_state \<Rightarrow> string" where
  "lv_get_last_error s = lv_last_error s"

definition set_lv_error :: "string \<Rightarrow> 'w lv_state \<Rightarrow> 'w lv_state" where
  "set_lv_error msg s = s\<lparr>lv_last_error := snprintf_buf 1024 msg\<rparr>"

section \<open>Connection and machine list\<close>

definition lv_lookup_domain :: "'w lv_api \<Rightarrow> string \<Rightarrow> 'w lv_state \<Rightarrow> bool" where
  "lv_lookup_domain api vm s \<longleftrightarrow> lv_conn s \<and> api_lookup_domain api (lv_world s) vm"

definition lv_connect :: "'w lv_api \<Rightarrow> string \<Rightarrow> 'w lv_state \<Rightarrow> int \<times> 'w lv_state" where
  "lv_connect api uri s =
     (case api_connect api uri (lv_world s) of
        (ok, w) \<Rightarrow> (if ok then 0 else - 1, s\<lparr>lv_conn := ok, lv_world := w\<rparr>))"

definition lv_disconnect :: "'w lv_state \<Rightarrow> 'w lv_state" where
  "lv_disconnect s = s\<lparr>lv_conn := False\<rparr>"

definition map_domain_state :: "vir_state option \<Rightarrow> vm_state" where
  "map_domain_state st =
     (case st of
        Some VIR_DOMAIN_RUNNING \<Rightarrow> VM_RUNNING
      | Some VIR_DOMAIN_PAUSED \<Rightarrow> VM_PAUSED
      | Some VIR_DOMAIN_SHUTOFF \<Rightarrow> VM_SHUTOFF
      | _ \<Rightarrow> VM_OTHER)"

definition lv_vm_info :: "'w lv_api \<Rightarrow> 'w \<Rightarrow> string \<Rightarrow> vm_info" where
  "lv_vm_info api w d =
     (let i = (case api_info api w d of None \<Rightarrow> (0, 0) | Some (_, v, m) \<Rightarrow> (v, m)) in
      \<lparr>vm_name = d, vm_uuid = api_uuid api w d, vm_state_of = map_domain_state (api_state api w d),
       vm_vcpus = fst i, vm_memory_kb = snd i\<rparr>)"

text \<open>\<open>None\<close> is the result -1; without a connection libvirt's listing fails.\<close>

definition lv_list_vms :: "'w lv_api \<Rightarrow> 'w lv_state \<Rightarrow> vm_info list option" where
  "lv_list_vms api s =
     (if \<not> lv_conn s then None
      else map_option (map (lv_vm_info api (lv_world s))) (api_list_domains api (lv_world s)))"

section \<open>Life cycle\<close>

text \<open>The common shape of the five operations: look the domain up, act, release.\<close>

definition lv_domain_action ::
  "'w lv_api \<Rightarrow> lifecycle \<Rightarrow> string \<Rightarrow> 'w lv_state \<Rightarrow> int \<times> 'w lv_state" where
  "lv_domain_action api op vm s =
     (if \<not> lv_lookup_domain api vm s then (- 1, s)
      else (case api_lifecycle api op vm (lv_world s) of (r, w) \<Rightarrow> (r, s\<lparr>lv_world := w\<rparr>)))"

definition lv_vm_start :: "'w lv_api \<Rightarrow> string \<Rightarrow> 'w lv_state \<Rightarrow> int \<times> 'w lv_state" where
  "lv_vm_start api = lv_domain_action api Dom_create"

definition lv_vm_stop :: "'w lv_api \<Rightarrow> string \<Rightarrow> 'w lv_state \<Rightarrow> int \<times> 'w lv_state" where
  "lv_vm_stop api = lv_domain_action api Dom_shutdown"

definition lv_vm_force_stop :: "'w lv_api \<Rightarrow> string \<Rightarrow> 'w lv_state \<Rightarrow> int \<times> 'w lv_state" where
  "lv_vm_force_stop api = lv_domain_action api Dom_destroy"

definition lv_vm_pause :: "'w lv_api \<Rightarrow> string \<Rightarrow> 'w lv_state \<Rightarrow> int \<times> 'w lv_state" where
  "lv_vm_pause api = lv_domain_action api Dom_suspend"

definition lv_vm_resume :: "'w lv_api \<Rightarrow> string \<Rightarrow> 'w lv_state \<Rightarrow> int \<times> 'w lv_state" where
  "lv_vm_resume api = lv_domain_action api Dom_resume"

section \<open>Listing snapshots\<close>

definition snapshot_xml_is_external :: "string \<Rightarrow> bool" where
  "snapshot_xml_is_external xml \<longleftrightarrow>
     strstr xml (''snapshot='' @ [SQUOTE] @ ''external'' @ [SQUOTE]) \<noteq> None \<or>
     strstr xml (''snapshot='' @ [DQUOTE] @ ''external'' @ [DQUOTE]) \<noteq> None \<or>
     strstr xml ''disk-only'' \<noteq> None"

text \<open>The first phase: a node for each snapshot, at the addresses from the end of the heap on.\<close>

definition lv_snapshot_node :: "string option \<Rightarrow> string \<Rightarrow> string option \<Rightarrow> heap \<Rightarrow> heap" where
  "lv_snapshot_node current name xml h =
     snd (snapshot_node_new (Some name)
       (Some (case Option.bind xml (\<lambda>x. extract_xml_content x ''description'') of
                None \<Rightarrow> [] | Some d \<Rightarrow> d))
       (Some (case Option.bind xml (\<lambda>x. extract_xml_content x ''creationTime'') of
                None \<Rightarrow> [] | Some t \<Rightarrow> unix_to_iso t))
       (case xml of None \<Rightarrow> SNAP_INTERNAL
        | Some x \<Rightarrow> if snapshot_xml_is_external x then SNAP_EXTERNAL else SNAP_INTERNAL)
       (current \<noteq> None \<and> str_eq (Some name) current) h)"

fun lv_snapshot_nodes ::
  "string option \<Rightarrow> (string \<times> string option) list \<Rightarrow> heap \<Rightarrow> heap" where
  "lv_snapshot_nodes current [] h = h"
| "lv_snapshot_nodes current ((name, xml) # snaps) h =
     lv_snapshot_nodes current snaps (lv_snapshot_node current name xml h)"

text \<open>
  The second phase. \<open>find_parent_node\<close> is the inner loop, which looks for another node that carries
  the name of the parent; \<open>lv_link_snapshots\<close> is the outer one.
\<close>

fun find_parent_node :: "heap \<Rightarrow> string \<Rightarrow> nat \<Rightarrow> nat list \<Rightarrow> nat option" where
  "find_parent_node h p i [] = None"
| "find_parent_node h p i (j # js) =
     (if j \<noteq> i \<and> str_eq (node_id (h ! j)) (Some p) then Some j else find_parent_node h p i js)"

fun lv_link_snapshots ::
  "nat \<Rightarrow> (nat \<times> string option) list \<Rightarrow> addr option \<Rightarrow> heap \<Rightarrow> addr option \<times> heap" where
  "lv_link_snapshots n [] root h = (root, h)"
| "lv_link_snapshots n ((i, pname) # rest) root h =
     (case Option.bind pname (\<lambda>p. find_parent_node h p i [0..<n]) of
        Some j \<Rightarrow> lv_link_snapshots n rest root (snapshot_node_add_child j i h)
      | None \<Rightarrow>
         (case root of
            None \<Rightarrow> lv_link_snapshots n rest (Some i) h
          | Some r \<Rightarrow> lv_link_snapshots n rest root (snapshot_node_add_child r i h)))"

definition lv_build_tree ::
  "string option \<Rightarrow> (string \<times> string option) list \<Rightarrow> addr option \<times> heap" where
  "lv_build_tree current snaps =
     lv_link_snapshots (length snaps)
       (zip [0..<length snaps] (map (\<lambda>(_, xml). extract_snapshot_parent_name xml) snaps)) None
       (lv_snapshot_nodes current snaps [])"

text \<open>\<open>None\<close> is the result -1; otherwise the root of the tree, if any, and the heap it lies in.\<close>

definition lv_list_snapshots ::
  "'w lv_api \<Rightarrow> string \<Rightarrow> 'w lv_state \<Rightarrow> (addr option \<times> heap) option" where
  "lv_list_snapshots api vm s =
     (if \<not> lv_lookup_domain api vm s then None
      else (case api_list_snapshots api (lv_world s) vm of
        None \<Rightarrow> None
      | Some [] \<Rightarrow> Some (None, [])
      | Some names \<Rightarrow>
          Some (lv_build_tree (api_current_snapshot api (lv_world s) vm)
                 (map (\<lambda>n. (n, api_snapshot_xml api (lv_world s) vm n)) names))))"

end
