(* ===== verification/Libvirt_Tree.thy ===== *)
theory Libvirt_Tree
  imports Libvirt_Core
begin

text \<open>
  The tree that \<open>lv_list_snapshots\<close> builds from libvirt's list: under the documented facts that
  snapshot names are unique in a domain and that no snapshot is its own ancestor, the two phases
  yield one tree that holds every snapshot exactly once.
\<close>

section \<open>Parent functions and trees\<close>

primrec build :: "heap \<Rightarrow> nat \<Rightarrow> addr \<Rightarrow> atree" where
  "build h 0 a = ANode a []"
| "build h (Suc k) a = ANode a (map (build h k) (children (h ! a)))"

lemma root_of_build [simp]: "root_of (build h k a) = a"
  by (cases k) auto

text \<open>
  \<open>forest h n par rank r\<close>: among the first \<open>n\<close> nodes the children are given by the parent function
  \<open>par\<close>, parents rank below their children, and \<open>r\<close> alone has no parent.
\<close>

definition forest :: "heap \<Rightarrow> nat \<Rightarrow> (nat \<Rightarrow> nat option) \<Rightarrow> (nat \<Rightarrow> nat) \<Rightarrow> nat \<Rightarrow> bool" where
  "forest h n par rank r \<longleftrightarrow> n \<le> length h \<and> r < n \<and> par r = None \<and>
     (\<forall>a<n. distinct (children (h ! a)) \<and>
        (\<forall>c. c \<in> set (children (h ! a)) \<longleftrightarrow> c < n \<and> par c = Some a)) \<and>
     (\<forall>c<n. c \<noteq> r \<longrightarrow> (\<exists>p<n. par c = Some p \<and> rank p < rank c))"

lemma forest_child:
  "forest h n par rank r \<Longrightarrow> a < n \<Longrightarrow> c \<in> set (children (h ! a)) \<Longrightarrow>
   c < n \<and> par c = Some a \<and> rank a < rank c"
  unfolding forest_def by (metis option.distinct(1) option.inject)

lemma holds_build:
  assumes f: "forest h n par rank r" and B: "\<forall>a<n. rank a \<le> B"
  shows "a < n \<Longrightarrow> B - rank a \<le> k \<Longrightarrow> holds h (build h k a)"
proof (induction k arbitrary: a)
  case 0
  then have "children (h ! a) = []"
    using forest_child[OF f \<open>a < n\<close>] B by (metis diff_is_0_eq le_zero_eq leD le_trans list.set_intros(1) neq_Nil_conv)
  with 0 f show ?case by (auto simp: forest_def)
next
  case (Suc k)
  have "holds h (build h k c)" if "c \<in> set (children (h ! a))" for c
    using forest_child[OF f Suc.prems(1) that] Suc.prems by (intro Suc.IH) auto
  with Suc.prems f show ?case by (auto simp: forest_def comp_def)
qed

lemma holds_children_closed:
  "holds h t \<Longrightarrow> a \<in> set (addrs t) \<Longrightarrow> c \<in> set (children (h ! a)) \<Longrightarrow> c \<in> set (addrs t)"
proof (induction t)
  case (ANode b ts)
  show ?case
  proof (cases "a = b")
    case True
    with ANode.prems obtain t where "t \<in> set ts" "c = root_of t" by auto
    then show ?thesis using root_in_addrs[of t] by auto
  next
    case False
    with ANode.prems obtain t where "t \<in> set ts" "a \<in> set (addrs t)" by auto
    with ANode show ?thesis by auto
  qed
qed

lemma holds_parent:
  "holds h t \<Longrightarrow> a \<in> set (addrs t) \<Longrightarrow> a \<noteq> root_of t \<Longrightarrow>
   \<exists>p\<in>set (addrs t). a \<in> set (children (h ! p))"
proof (induction t)
  case (ANode b ts)
  then obtain t where t: "t \<in> set ts" "a \<in> set (addrs t)" by auto
  show ?case
  proof (cases "a = root_of t")
    case True
    with ANode.prems t show ?thesis by auto
  next
    case False
    with ANode t show ?thesis by fastforce
  qed
qed

lemma forest_below:
  assumes f: "forest h n par rank r"
  shows "holds h t \<Longrightarrow> root_of t < n \<Longrightarrow> \<forall>a\<in>set (addrs t). a < n \<and> rank (root_of t) \<le> rank a"
proof (induction t)
  case (ANode b ts)
  have "\<forall>a\<in>set (addrs t). a < n \<and> rank b \<le> rank a" if t: "t \<in> set ts" for t
  proof -
    have "root_of t \<in> set (children (h ! b))" using ANode.prems t by auto
    from forest_child[OF f _ this] ANode.prems have "root_of t < n" "rank b < rank (root_of t)" by auto
    with ANode t show ?thesis by fastforce
  qed
  with ANode.prems show ?case by auto
qed

text \<open>Two subtrees that meet have the same root: follow the parents of the common node upwards.\<close>

lemma forest_disjoint:
  assumes f: "forest h n par rank r"
    and t: "holds h t" "holds h u" "root_of t < n" "root_of u < n"
    and b: "par (root_of t) = Some b" "par (root_of u) = Some b" "b < n"
  shows "a \<in> set (addrs t) \<Longrightarrow> a \<in> set (addrs u) \<Longrightarrow> root_of t = root_of u"
proof (induction "rank a" arbitrary: a rule: less_induct)
  case less
  have "rank b < rank (root_of t)" "rank b < rank (root_of u)"
    using f b t(3,4) unfolding forest_def by (metis option.distinct(1) option.inject)+
  then have nb: "b \<notin> set (addrs t)" "b \<notin> set (addrs u)"
    using forest_below[OF f t(1,3)] forest_below[OF f t(2,4)] by fastforce+
  have up: "\<exists>p\<in>set (addrs v). par a = Some p \<and> rank p < rank a"
    if "holds h v" "root_of v < n" "a \<in> set (addrs v)" "a \<noteq> root_of v" for v
    using holds_parent[OF that(1,3,4)] forest_below[OF f that(1,2)] forest_child[OF f] by blast
  show ?case
  proof (cases "a = root_of t \<or> a = root_of u")
    case True
    with less.prems nb b up[of t] up[of u] t show ?thesis
      by (cases "root_of t = root_of u") auto
  next
    case False
    with up[of t] up[of u] t less.prems obtain p where
      "p \<in> set (addrs t)" "p \<in> set (addrs u)" "rank p < rank a" by auto
    with less.hyps show ?thesis by blast
  qed
qed

lemma distinct_concat_addrs:
  assumes "distinct (map root_of ts)" "\<forall>t\<in>set ts. distinct (addrs t)"
    and "\<And>t u a. t \<in> set ts \<Longrightarrow> u \<in> set ts \<Longrightarrow> a \<in> set (addrs t) \<Longrightarrow> a \<in> set (addrs u) \<Longrightarrow>
      root_of t = root_of u"
  shows "distinct (concat (map addrs ts))"
  using assms
proof (induction ts)
  case (Cons t ts)
  have "set (addrs t) \<inter> set (addrs u) = {}" if "u \<in> set ts" for u
    using Cons.prems(1) Cons.prems(3)[of t u] that by auto
  then have "set (addrs t) \<inter> set (concat (map addrs ts)) = {}" by fastforce
  moreover have "distinct (concat (map addrs ts))"
    using Cons.prems by (intro Cons.IH) auto
  ultimately show ?case using Cons.prems(2) by auto
qed simp

lemma forest_distinct:
  assumes f: "forest h n par rank r"
  shows "holds h t \<Longrightarrow> root_of t < n \<Longrightarrow> distinct (addrs t)"
proof (induction t)
  case (ANode b ts)
  have child: "root_of t < n \<and> par (root_of t) = Some b \<and> rank b < rank (root_of t)"
    if "t \<in> set ts" for t
    using ANode.prems that by (intro forest_child[OF f]) auto
  have "distinct (map root_of ts)" using ANode.prems f by (auto simp: forest_def)
  moreover have "\<forall>t\<in>set ts. distinct (addrs t)" using ANode child by auto
  moreover have "root_of t = root_of u"
    if "t \<in> set ts" "u \<in> set ts" "a \<in> set (addrs t)" "a \<in> set (addrs u)" for t u a
    using forest_disjoint[OF f, of t u b] ANode.prems child that by auto
  ultimately have "distinct (concat (map addrs ts))" by (rule distinct_concat_addrs)
  moreover have "b \<notin> set (addrs t)" if "t \<in> set ts" for t
    using forest_below[OF f, of t] ANode.prems child[OF that] that by fastforce
  ultimately show ?case by auto
qed

lemma forest_tree:
  assumes f: "forest h n par rank r"
  shows "\<exists>t. root_of t = r \<and> holds h t \<and> distinct (addrs t) \<and> set (addrs t) = {..<n}"
proof -
  define B where "B = Max (rank ` {..<n})"
  have B: "\<forall>a<n. rank a \<le> B" by (simp add: B_def)
  let ?t = "build h B r"
  have r: "r < n" using f by (simp add: forest_def)
  have h: "holds h ?t" by (rule holds_build[OF f B r]) simp
  have "c \<in> set (addrs ?t)" if "c < n" for c
    using that
  proof (induction "rank c" arbitrary: c rule: less_induct)
    case less
    show ?case
    proof (cases "c = r")
      case True
      then show ?thesis using root_in_addrs[of ?t] by simp
    next
      case False
      with f less.prems obtain p where p: "p < n" "par c = Some p" "rank p < rank c"
        unfolding forest_def by blast
      moreover have "c \<in> set (children (h ! p))" using f p less.prems by (auto simp: forest_def)
      ultimately show ?thesis using holds_children_closed[OF h] less.hyps by blast
    qed
  qed
  then have "set (addrs ?t) = {..<n}" using forest_below[OF f h] r by auto
  with h forest_distinct[OF f h] r show ?thesis by (intro exI[of _ ?t]) auto
qed

section \<open>The two phases\<close>

lemma lv_snapshot_node_snoc:
  "lv_snapshot_node cur name xml h =
     h @ [\<lparr>node_id = Some name,
       node_description = Some (case Option.bind xml (\<lambda>x. extract_xml_content x ''description'') of
         None \<Rightarrow> [] | Some d \<Rightarrow> d),
       node_creation_time = Some (case Option.bind xml (\<lambda>x. extract_xml_content x ''creationTime'') of
         None \<Rightarrow> [] | Some t \<Rightarrow> unix_to_iso t),
       node_type = (case xml of None \<Rightarrow> SNAP_INTERNAL
         | Some x \<Rightarrow> if snapshot_xml_is_external x then SNAP_EXTERNAL else SNAP_INTERNAL),
       is_current = (cur = Some name), is_dirty = False, parent = None, children = [],
       child_capacity = INITIAL_CHILD_CAPACITY\<rparr>]"
  by (auto simp: lv_snapshot_node_def snapshot_node_new_def)

lemma lv_snapshot_nodes_append:
  "\<exists>ns. lv_snapshot_nodes cur snaps h = h @ ns \<and> length ns = length snaps \<and>
     map node_id ns = map (\<lambda>s. Some (fst s)) snaps \<and>
     map is_current ns = map (\<lambda>s. cur = Some (fst s)) snaps \<and>
     (\<forall>m\<in>set ns. children m = [] \<and> parent m = None \<and> child_capacity m = INITIAL_CHILD_CAPACITY)"
proof (induction snaps arbitrary: h)
  case (Cons s snaps)
  obtain name xml where s: "s = (name, xml)" by (cases s)
  let ?h = "lv_snapshot_node cur name xml h"
  from Cons.IH[of ?h] obtain ns where ns: "lv_snapshot_nodes cur snaps ?h = ?h @ ns"
    "length ns = length snaps" "map node_id ns = map (\<lambda>s. Some (fst s)) snaps"
    "map is_current ns = map (\<lambda>s. cur = Some (fst s)) snaps"
    "\<forall>m\<in>set ns. children m = [] \<and> parent m = None \<and> child_capacity m = INITIAL_CHILD_CAPACITY"
    by blast
  show ?case
    using ns unfolding s lv_snapshot_nodes.simps lv_snapshot_node_snoc
    by (intro exI[of _ "_ # ns"]) auto
qed simp

text \<open>Which of the first \<open>n\<close> snapshots is the parent of snapshot \<open>i\<close>, by the names alone.\<close>

definition name_parent :: "string list \<Rightarrow> string option list \<Rightarrow> nat \<Rightarrow> nat option" where
  "name_parent names pnames i =
     Option.bind (pnames ! i) (\<lambda>p. find (\<lambda>j. j \<noteq> i \<and> names ! j = p) [0..<length names])"

lemma find_parent_node_find:
  "\<forall>j\<in>set js. node_id (h ! j) = Some (names ! j) \<Longrightarrow>
   find_parent_node h p i js = find (\<lambda>j. j \<noteq> i \<and> names ! j = p) js"
  by (induction js) auto

lemma name_parent_SomeD:
  "name_parent names pnames i = Some j \<Longrightarrow>
   j < length names \<and> j \<noteq> i \<and> pnames ! i = Some (names ! j)"
  by (auto simp: name_parent_def bind_eq_Some_conv find_Some_iff)

text \<open>The parent that a snapshot ends up with, given the first one without a parent.\<close>

definition final_parent :: "string list \<Rightarrow> string option list \<Rightarrow> nat \<Rightarrow> nat \<Rightarrow> nat option" where
  "final_parent names pnames r i =
     (case name_parent names pnames i of
        Some j \<Rightarrow> Some j
      | None \<Rightarrow> if i = r then None else Some r)"

text \<open>What the second phase keeps and what it has built after the first \<open>i\<close> snapshots.\<close>

definition linked ::
  "string list \<Rightarrow> string option list \<Rightarrow> heap \<Rightarrow> nat \<Rightarrow> nat \<Rightarrow> heap \<Rightarrow> bool" where
  "linked names pnames h0 r i h \<longleftrightarrow>
     length h = length names \<and> heap_ok h \<and>
     map node_id h = map Some names \<and> map is_current h = map is_current h0 \<and>
     (\<forall>a<length names. i \<le> a \<longrightarrow> parent (h ! a) = None) \<and>
     (\<forall>a<length names. children (h ! a)
        = filter (\<lambda>c. final_parent names pnames r c = Some a) [0..<i])"

lemma linked_add_child:
  assumes l: "linked names pnames h0 r i h" and i: "i < length names"
    and f: "final_parent names pnames r i = Some j" "j < length names" "j \<noteq> i"
  shows "linked names pnames h0 r (Suc i) (snapshot_node_add_child j i h)"
proof -
  have len: "length h = length names" and free: "parent (h ! i) = None"
    using l i by (auto simp: linked_def)
  have nth: "snapshot_node_add_child j i h ! a =
    (if a = i then (h ! i)\<lparr>parent := Some j\<rparr>
     else if a = j then (h ! j)\<lparr>children := children (h ! j) @ [i],
       child_capacity := (if length (children (h ! j)) = child_capacity (h ! j)
         then child_capacity (h ! j) * 2 else child_capacity (h ! j))\<rparr>
     else h ! a)" for a
    using len i f by (intro nth_add_child) auto
  have "heap_ok (snapshot_node_add_child j i h)"
    using l len i f free by (intro snapshot_node_add_child_ok) (auto simp: linked_def)
  moreover have "map node_id (snapshot_node_add_child j i h) = map node_id h"
    "map is_current (snapshot_node_add_child j i h) = map is_current h"
    by (auto intro!: nth_equalityI simp: nth split: if_splits)
  ultimately show ?thesis
    using l i f unfolding linked_def
    by (auto simp: nth)
qed

lemma linked_skip:
  assumes "linked names pnames h0 r r h"
    and "final_parent names pnames r r = None"
  shows "linked names pnames h0 r (Suc r) h"
  using assms by (auto simp: linked_def)

lemma lv_link_linked:
  assumes n: "n = length names" "length pnames = n"
    and r: "r < n" "name_parent names pnames r = None" "\<forall>i<r. name_parent names pnames i \<noteq> None"
  shows "i \<le> n \<Longrightarrow> linked names pnames h0 r i h \<Longrightarrow>
    \<exists>h'. lv_link_snapshots n (zip [i..<n] (drop i pnames)) (if r < i then Some r else None) h
        = (Some r, h') \<and> linked names pnames h0 r n h'"
proof (induction "n - i" arbitrary: i h)
  case 0
  with r show ?case by auto
next
  case (Suc d)
  then have i: "i < n" "i < length names" using n by auto
  have step: "zip [i..<n] (drop i pnames) = (i, pnames ! i) # zip [Suc i..<n] (drop (Suc i) pnames)"
    using i n by (simp add: upt_conv_Cons Cons_nth_drop_Suc[symmetric])
  have IH: "linked names pnames h0 r (Suc i) h1 \<Longrightarrow>
    \<exists>h'. lv_link_snapshots n (zip [Suc i..<n] (drop (Suc i) pnames))
      (if r < Suc i then Some r else None) h1 = (Some r, h') \<and> linked names pnames h0 r n h'" for h1
    using Suc i by (intro Suc.hyps) auto
  have par: "Option.bind (pnames ! i) (\<lambda>p. find_parent_node h p i [0..<n]) = name_parent names pnames i"
  proof -
    have "\<forall>j\<in>set [0..<n]. node_id (h ! j) = Some (names ! j)"
      using Suc.prems(2) n unfolding linked_def by (metis atLeastLessThan_iff length_map nth_map set_upt)
    from find_parent_node_find[OF this] show ?thesis by (simp add: name_parent_def n)
  qed
  show ?case
  proof (cases "name_parent names pnames i")
    case (Some j)
    then have j: "j < length names" "j \<noteq> i" by (auto dest: name_parent_SomeD)
    have "linked names pnames h0 r (Suc i) (snapshot_node_add_child j i h)"
      using Some j i by (intro linked_add_child[OF Suc.prems(2)]) (auto simp: final_parent_def)
    moreover have "(r < Suc i) = (r < i)" using r Some by (metis less_antisym less_SucI option.distinct(1))
    ultimately show ?thesis using IH[of "snapshot_node_add_child j i h"] Some par step by simp
  next
    case None
    show ?thesis
    proof (cases "i = r")
      case True
      have "linked names pnames h0 r (Suc r) h"
        using Suc.prems(2) True r by (intro linked_skip) (auto simp: final_parent_def)
      with IH[of h] True None par step show ?thesis by simp
    next
      case False
      with r None have ri: "r < i" by (metis linorder_neqE_nat)
      have "linked names pnames h0 r (Suc i) (snapshot_node_add_child r i h)"
        using None False ri i r n by (intro linked_add_child[OF Suc.prems(2)]) (auto simp: final_parent_def)
      with IH[of "snapshot_node_add_child r i h"] ri None par step show ?thesis by simp
    qed
  qed
qed

text \<open>
  \<open>ranked snaps rank\<close>: the documented facts about libvirt's list: no two snapshots share a name, and
  the snapshots can be ranked so that a parent that is in the list ranks below its children.
\<close>

definition ranked :: "(string \<times> string option) list \<Rightarrow> (string \<Rightarrow> nat) \<Rightarrow> bool" where
  "ranked snaps rank \<longleftrightarrow> distinct (map fst snaps) \<and>
     (\<forall>(n, xml)\<in>set snaps. \<forall>p. extract_snapshot_parent_name xml = Some p \<longrightarrow>
        p \<in> set (map fst snaps) \<longrightarrow> rank p < rank n)"

lemma ranked_first_root:
  assumes R: "ranked snaps rank" "snaps \<noteq> []"
    and defs: "names = map fst snaps" "pnames = map (\<lambda>(_, xml). extract_snapshot_parent_name xml) snaps"
  obtains r where "r < length names" "name_parent names pnames r = None"
    "\<forall>i<r. name_parent names pnames i \<noteq> None"
proof -
  have down: "rank (names ! j) < rank (names ! i)"
    if "name_parent names pnames i = Some j" "i < length names" for i j
  proof -
    from name_parent_SomeD[OF that(1)] have j: "j < length names" "pnames ! i = Some (names ! j)" by auto
    have "snaps ! i \<in> set snaps" "i < length snaps" using that(2) by (auto simp: defs)
    moreover obtain n xml where "snaps ! i = (n, xml)" by fastforce
    moreover have "names ! j \<in> set (map fst snaps)" using j by (auto simp: defs)
    ultimately show ?thesis using R(1) j unfolding ranked_def by (auto simp: defs)
  qed
  have "\<exists>i<length names. name_parent names pnames i = None"
  proof (rule ccontr)
    assume none: "\<not> ?thesis"
    have "\<forall>i<length names. \<exists>j<length names. rank (names ! j) < rank (names ! i)"
      using none down name_parent_SomeD by (metis option.exhaust)
    moreover obtain m where "m < length names" "\<forall>i<length names. rank (names ! m) \<le> rank (names ! i)"
      using ex_has_least_nat[of "\<lambda>i. i < length names" 0 "\<lambda>i. rank (names ! i)"] R(2)
      by (auto simp: defs)
    ultimately show False by (meson leD)
  qed
  then show ?thesis
    using that[of "LEAST i. i < length names \<and> name_parent names pnames i = None"]
      LeastI_ex[of "\<lambda>i. i < length names \<and> name_parent names pnames i = None"]
      not_less_Least[of _ "\<lambda>i. i < length names \<and> name_parent names pnames i = None"]
    by (metis (mono_tags, lifting) order.strict_trans)
qed

lemma lv_build_tree_linked:
  assumes R: "ranked snaps rank" "snaps \<noteq> []"
    and defs: "names = map fst snaps" "pnames = map (\<lambda>(_, xml). extract_snapshot_parent_name xml) snaps"
  shows "\<exists>r h. lv_build_tree cur snaps = (Some r, h) \<and> r < length names \<and>
    name_parent names pnames r = None \<and>
    linked names pnames (lv_snapshot_nodes cur snaps []) r (length names) h"
proof -
  obtain r where r: "r < length names" "name_parent names pnames r = None"
    "\<forall>i<r. name_parent names pnames i \<noteq> None"
    using ranked_first_root[OF R defs] .
  from lv_snapshot_nodes_append[of cur snaps "[]"] obtain ns where
    ns: "lv_snapshot_nodes cur snaps [] = ns" "length ns = length snaps"
      "map node_id ns = map (\<lambda>s. Some (fst s)) snaps"
      "\<forall>m\<in>set ns. children m = [] \<and> parent m = None \<and> child_capacity m = INITIAL_CHILD_CAPACITY"
    by auto
  then have "linked names pnames ns r 0 ns"
    by (auto simp: linked_def defs comp_def heap_ok_def node_ok_def INITIAL_CHILD_CAPACITY_def)
  from lv_link_linked[OF refl _ r, of 0 ns ns] this show ?thesis
    using r ns by (auto simp: lv_build_tree_def defs)
qed

text \<open>The linked heap is a forest in the sense of the first section, so it holds one tree.\<close>

lemma linked_forest:
  assumes R: "ranked snaps rank"
    and defs: "names = map fst snaps" "pnames = map (\<lambda>(_, xml). extract_snapshot_parent_name xml) snaps"
    and l: "linked names pnames h0 r (length names) h" and r: "r < length names"
    "name_parent names pnames r = None"
  shows "forest h (length names) (final_parent names pnames r)
    (\<lambda>i. if i = r then 0 else Suc (rank (names ! i))) r"
proof -
  have kids: "children (h ! a) = filter (\<lambda>c. final_parent names pnames r c = Some a) [0..<length names]"
    if "a < length names" for a
    using l that by (simp add: linked_def)
  have up: "\<exists>p<length names. final_parent names pnames r c = Some p \<and>
      (if p = r then 0 else Suc (rank (names ! p))) < Suc (rank (names ! c))"
    if c: "c < length names" "c \<noteq> r" for c
  proof (cases "name_parent names pnames c")
    case None
    with c r show ?thesis by (auto simp: final_parent_def)
  next
    case (Some j)
    from name_parent_SomeD[OF Some] have j: "j < length names" "pnames ! c = Some (names ! j)" by auto
    obtain n xml where nx: "snaps ! c = (n, xml)" by fastforce
    have "(n, xml) \<in> set snaps" using c nx by (metis defs(1) length_map nth_mem)
    moreover have "names ! j \<in> set (map fst snaps)" using j by (simp add: defs)
    moreover have "extract_snapshot_parent_name xml = Some (names ! j)" "n = names ! c"
      using j c nx by (simp_all add: defs)
    ultimately have "rank (names ! j) < rank (names ! c)"
      using R unfolding ranked_def by blast
    with Some j show ?thesis by (auto simp: final_parent_def)
  qed
  show ?thesis
    unfolding forest_def
    using l r kids up by (auto simp: linked_def final_parent_def)
qed

section \<open>Properties\<close>

lemma lv_tree_facts:
  assumes "lv_lookup_domain api vm s" "api_list_snapshots api (lv_world s) vm = Some names"
    and "names \<noteq> []"
    and "ranked (map (\<lambda>n. (n, api_snapshot_xml api (lv_world s) vm n)) names) rank"
  shows "\<exists>t h. lv_list_snapshots api vm s = Some (Some (root_of t), h) \<and> holds h t \<and> heap_ok h \<and>
    distinct (addrs t) \<and> set (addrs t) = {..<length names} \<and> map node_id h = map Some names \<and>
    map is_current h = map (\<lambda>n. api_current_snapshot api (lv_world s) vm = Some n) names \<and>
    (\<forall>i<length names. \<forall>j<length names. i \<noteq> j \<longrightarrow>
       extract_snapshot_parent_name (api_snapshot_xml api (lv_world s) vm (names ! i)) = Some (names ! j) \<longrightarrow>
       i \<in> set (children (h ! j)))"
proof -
  let ?xml = "api_snapshot_xml api (lv_world s) vm"
  let ?cur = "api_current_snapshot api (lv_world s) vm"
  let ?snaps = "map (\<lambda>n. (n, ?xml n)) names"
  let ?pn = "map (\<lambda>(_, xml). extract_snapshot_parent_name xml) ?snaps"
  have names: "names = map fst ?snaps" by (simp add: comp_def)
  have ne: "?snaps \<noteq> []" using assms(3) by simp
  have dist: "distinct names" using assms(4) by (simp add: ranked_def comp_def)
  from lv_build_tree_linked[OF assms(4) ne names refl, of ?cur] obtain r h where
    b: "lv_build_tree ?cur ?snaps = (Some r, h)" and r: "r < length names"
    "name_parent names ?pn r = None"
    and l: "linked names ?pn (lv_snapshot_nodes ?cur ?snaps []) r (length names) h" by blast
  from forest_tree[OF linked_forest[OF assms(4) names refl l r]] obtain t where
    t: "root_of t = r" "holds h t" "distinct (addrs t)" "set (addrs t) = {..<length names}" by blast
  have cur: "map is_current h = map (\<lambda>n. ?cur = Some n) names"
    using l lv_snapshot_nodes_append[of ?cur ?snaps "[]"] by (auto simp: linked_def comp_def)
  have link: "i \<in> set (children (h ! j))"
    if "i < length names" "j < length names" "i \<noteq> j"
      "extract_snapshot_parent_name (?xml (names ! i)) = Some (names ! j)" for i j
  proof -
    have "find (\<lambda>k. k \<noteq> i \<and> names ! k = names ! j) [0..<length names] = Some j"
      unfolding find_Some_iff using that dist by (auto simp: nth_eq_iff_index_eq intro!: exI[of _ j])
    then have "name_parent names ?pn i = Some j" using that by (simp add: name_parent_def)
    with l that show ?thesis by (auto simp: linked_def final_parent_def)
  qed
  have "lv_list_snapshots api vm s = Some (Some r, h)"
    using assms(1-3) b by (cases names) (simp_all add: lv_list_snapshots_def)
  then show ?thesis using t l cur link by (intro exI[of _ t] exI[of _ h]) (auto simp: linked_def)
qed

text \<open>C6: the snapshot tree is complete. If libvirt lists at least one snapshot, names them
  uniquely, and no snapshot is an ancestor of itself, then \<open>lv_list_snapshots\<close> succeeds with one
  tree that holds every listed snapshot exactly once, whatever the order of the list and whichever
  parents are missing from it; the node of a snapshot lies below the node of its parent when
  exactly that name is in the list, exactly the current snapshot is marked, and the child arrays
  and parent pointers are consistent.\<close>

theorem lv_list_snapshots_complete:
  assumes "lv_lookup_domain api vm s" "api_list_snapshots api (lv_world s) vm = Some names"
    and "names \<noteq> []"
    and "ranked (map (\<lambda>n. (n, api_snapshot_xml api (lv_world s) vm n)) names) rank"
  shows "\<exists>t h. lv_list_snapshots api vm s = Some (Some (root_of t), h) \<and> holds h t \<and> heap_ok h \<and>
    distinct (addrs t) \<and> set (addrs t) = {..<length names} \<and> map node_id h = map Some names \<and>
    map is_current h = map (\<lambda>n. api_current_snapshot api (lv_world s) vm = Some n) names \<and>
    (\<forall>i<length names. \<forall>j<length names. i \<noteq> j \<longrightarrow>
       extract_snapshot_parent_name (api_snapshot_xml api (lv_world s) vm (names ! i)) = Some (names ! j) \<longrightarrow>
       i \<in> set (children (h ! j)))"
  using assms by (rule lv_tree_facts)

text \<open>Three snapshots of a machine as libvirt describes them, the second one current.\<close>

definition demo_xml :: "string \<Rightarrow> string option" where
  "demo_xml n =
     (if n = ''old'' then Some ''<name>old</name>''
      else if n = ''base'' then Some ''<name>base</name><description>first</description>''
      else Some ''<name>work</name><parent><name>base</name></parent>'')"

definition demo_api :: "'w lv_api" where
  "demo_api =
     \<lparr>api_connect = (\<lambda>_ w. (True, w)), api_list_domains = (\<lambda>_. Some [''vm'']),
      api_lookup_domain = (\<lambda>_ d. d = ''vm''), api_uuid = (\<lambda>_ _. ''0''),
      api_state = (\<lambda>_ _. Some VIR_DOMAIN_SHUTOFF), api_info = (\<lambda>_ _. None),
      api_lifecycle = (\<lambda>_ _ w. (0, w)),
      api_list_snapshots = (\<lambda>_ _. Some [''work'', ''base'', ''old'']),
      api_current_snapshot = (\<lambda>_ _. Some ''work''), api_lookup_snapshot = (\<lambda>_ _ _. True),
      api_snapshot_xml = (\<lambda>_ _. demo_xml), api_create_snapshot = (\<lambda>_ _ _ w. (True, w)),
      api_delete_snapshot = (\<lambda>_ _ _ w. (0, w)), api_revert = (\<lambda>_ _ w. (0, w)),
      api_block_commit = (\<lambda>_ _ w. (0, w)), api_last_error = (\<lambda>_. None),
      api_domain_xml = (\<lambda>_ _. None), api_define_xml = (\<lambda>_ w. (True, w)),
      api_system = (\<lambda>_ w. (0, w)), api_unlink = (\<lambda>_ w. w),
      api_live_xml = (\<lambda>_ _. None), api_attach_device = (\<lambda>_ _ _ w. (0, w)),
      api_detach_device = (\<lambda>_ _ _ w. (0, w)), api_agent_command = (\<lambda>_ _ _ w. (None, w)),
      api_snapshot_num = (\<lambda>_ _. 3), api_snapshot_names = (\<lambda>_ _. [''work'', ''base'', ''old'']),
      api_popen = (\<lambda>_ w. (None, w)), api_json_loads = (\<lambda>_. None), api_uninit = (\<lambda>_. (0, False))\<rparr>"

definition demo_lv :: "unit lv_state" where
  "demo_lv = \<lparr>lv_conn = True, lv_last_error = [], lv_world = ()\<rparr>"

lemmas extract_eval = extract_snapshot_parent_name_def extract_xml_content_ext_def
  extract_xml_content_def open_tag_def close_tag_def snprintf_buf_def before_def Let_def

lemma demo_parents:
  "extract_snapshot_parent_name (demo_xml ''work'') = Some ''base''"
  "extract_snapshot_parent_name (demo_xml ''base'') = None"
  "extract_snapshot_parent_name (demo_xml ''old'') = None"
  by (simp_all add: demo_xml_def extract_eval)

theorem lv_list_snapshots_complete_witness:
  "\<exists>t h. lv_list_snapshots demo_api ''vm'' demo_lv = Some (Some (root_of t), h) \<and> holds h t \<and>
     set (addrs t) = {0, 1, 2} \<and> 0 \<in> set (children (h ! 1)) \<and>
     map node_id h = [Some ''work'', Some ''base'', Some ''old''] \<and>
     map is_current h = [True, False, False]"
proof -
  have r: "ranked (map (\<lambda>n. (n, api_snapshot_xml demo_api (lv_world demo_lv) ''vm'' n))
      [''work'', ''base'', ''old'']) (\<lambda>n. if n = ''work'' then 1 else 0)"
    by (simp add: ranked_def demo_api_def demo_parents)
  have api: "lv_lookup_domain demo_api ''vm'' demo_lv"
    "api_list_snapshots demo_api (lv_world demo_lv) ''vm'' = Some [''work'', ''base'', ''old'']"
    "api_current_snapshot demo_api (lv_world demo_lv) ''vm'' = Some ''work''"
    "api_snapshot_xml demo_api (lv_world demo_lv) ''vm'' = demo_xml"
    by (simp_all add: demo_api_def demo_lv_def lv_lookup_domain_def)
  obtain t h where t: "lv_list_snapshots demo_api ''vm'' demo_lv = Some (Some (root_of t), h)" "holds h t"
    "set (addrs t) = {..<length [''work'', ''base'', ''old'']}"
    "map node_id h = map Some [''work'', ''base'', ''old'']"
    "map is_current h = map (\<lambda>n. Some ''work'' = Some n) [''work'', ''base'', ''old'']"
    and up: "\<forall>i<length [''work'', ''base'', ''old'']. \<forall>j<length [''work'', ''base'', ''old'']. i \<noteq> j \<longrightarrow>
       extract_snapshot_parent_name (demo_xml ([''work'', ''base'', ''old''] ! i)) =
         Some ([''work'', ''base'', ''old''] ! j) \<longrightarrow> i \<in> set (children (h ! j))"
    using lv_list_snapshots_complete[OF api(1,2) _ r] unfolding api by blast
  have three: "{..<length [''work'', ''base'', ''old'']} = {0, 1, 2}" by auto
  show ?thesis
  proof (intro exI conjI)
    show "lv_list_snapshots demo_api ''vm'' demo_lv = Some (Some (root_of t), h)" "holds h t"
      by (fact t)+
    show "set (addrs t) = {0, 1, 2}" by (rule trans[OF t(3) three])
    show "0 \<in> set (children (h ! 1))" using up[rule_format, of 0 1] by (simp add: demo_parents)
    show "map node_id h = [Some ''work'', Some ''base'', Some ''old'']" by (subst t(4)) simp
    show "map is_current h = [True, False, False]" by (subst t(5)) simp
  qed
qed

text \<open>C40: a parent whose name holds one of the five XML specials is not recognised. libvirt
  escapes the name in the description, and the extraction does not undo it. Among snapshots with
  different names of which none is its own ancestor, a snapshot whose parent element carries the escaped name of \<open>p\<close>, while no snapshot has the escaped text as its own
  name, becomes the root of the tree or a child of the root. So its node is below the one of \<open>p\<close> only
  if \<open>p\<close> itself is the root, where every snapshot without a recognised parent is put.\<close>

theorem escaped_parent_is_lost:
  assumes "ranked snaps rank" "snaps ! i = (n, Some xml)" "i < length snaps"
    and "extract_snapshot_parent_name (Some xml) = Some (xml_escape_loop p)"
    and "\<exists>c\<in>set p. xml_special c" "xml_escape_loop p \<notin> set (map fst snaps)"
    and "snaps ! j = (p, pxml)" "j < length snaps"
  shows "\<exists>r h. lv_build_tree cur snaps = (Some r, h) \<and> (i = r \<or> i \<in> set (children (h ! r))) \<and>
    (i \<in> set (children (h ! j)) \<longrightarrow> j = r)"
proof -
  have ne: "snaps \<noteq> []" using assms(3) by auto
  let ?names = "map fst snaps"
  let ?pn = "map (\<lambda>(_, xml). extract_snapshot_parent_name xml) snaps"
  from lv_build_tree_linked[OF assms(1) ne refl refl, of cur] obtain r h where
    b: "lv_build_tree cur snaps = (Some r, h)" "r < length snaps"
    and l: "linked ?names ?pn (lv_snapshot_nodes cur snaps []) r (length snaps) h" by auto
  have "?pn ! i = Some (xml_escape_loop p)" using assms(2-4) by simp
  moreover have "?names ! k \<noteq> xml_escape_loop p" if "k < length snaps" for k
    using assms(6) that by (metis length_map nth_mem)
  ultimately have "name_parent ?names ?pn i = None"
    by (auto simp: name_parent_def find_None_iff)
  then have "final_parent ?names ?pn r i = (if i = r then None else Some r)"
    by (simp add: final_parent_def)
  with l b assms(3,8) show ?thesis
    by (intro exI[of _ r] exI[of _ h]) (auto simp: linked_def)
qed

theorem escaped_parent_is_lost_witness:
  "\<exists>r h. lv_build_tree None
      [(''base'', None), (''a&b'', Some ''<parent><name>base</name></parent>''),
       (''c'', Some ''<parent><name>a&amp;b</name></parent>'')] = (Some r, h) \<and>
     (2 = r \<or> 2 \<in> set (children (h ! r))) \<and> (2 \<in> set (children (h ! 1)) \<longrightarrow> 1 = r)"
  by (rule escaped_parent_is_lost[where p = "''a&b''" and n = "''c''" and pxml = "Some ''<parent><name>base</name></parent>''"
        and xml = "''<parent><name>a&amp;b</name></parent>''" and rank = "\<lambda>n. if n = ''base'' then 0 else if n = ''a&b'' then 1 else 2"])
    (auto simp: ranked_def extract_eval xml_escape1_def xml_special_def)

end
