(* ===== verification/Libvirt_Ops.thy ===== *)
theory Libvirt_Ops
  imports Libvirt_Tree
begin

text \<open>
  The operations of src/libvirt_backend.c that change snapshots and NVRAM: create, edit the
  description, delete, revert, merge, check and convert the NVRAM format.
\<close>

section \<open>Creating a snapshot\<close>

definition domainsnapshot_fmt :: string where
  "domainsnapshot_fmt =
     ''<domainsnapshot><name>%s</name><description>%s</description>%s</domainsnapshot>''"

definition domainsnapshot_external_fmt :: string where
  "domainsnapshot_external_fmt =
     ''<domainsnapshot><name>%s</name><description>%s</description>%s<disks><disk name='' @
     SQUOTE # ''vda'' @ SQUOTE # '' snapshot='' @ SQUOTE # ''external'' @ SQUOTE #
     ''/></disks></domainsnapshot>''"

text \<open>The parent element is written only when the current snapshot is not the one created.\<close>

definition snapshot_create_xml ::
  "string option \<Rightarrow> string \<Rightarrow> string option \<Rightarrow> snap_type \<Rightarrow> string" where
  "snapshot_create_xml current snap_name description ty =
     (let have_parent = (current \<noteq> None \<and> \<not> str_eq current (Some snap_name));
          parent_xml = (if have_parent
            then fmt ''<parent><name>%s</name></parent>'' [xml_escape_text current] else [])
      in fmt (if ty = SNAP_EXTERNAL then domainsnapshot_external_fmt else domainsnapshot_fmt)
           [xml_escape_text (Some snap_name), xml_escape_text (Some (or_empty description)), parent_xml])"

definition lv_create_snapshot ::
  "'w lv_api \<Rightarrow> string \<Rightarrow> string \<Rightarrow> string option \<Rightarrow> snap_type \<Rightarrow> 'w lv_state \<Rightarrow> int \<times> 'w lv_state" where
  "lv_create_snapshot api vm snap_name description ty s =
     (if \<not> lv_lookup_domain api vm s then (- 1, s)
      else
       (let xml = snapshot_create_xml (api_current_snapshot api (lv_world s) vm) snap_name description ty;
            flags = (if ty = SNAP_EXTERNAL then [SNAPSHOT_CREATE_DISK_ONLY, SNAPSHOT_CREATE_ATOMIC] else [])
        in case api_create_snapshot api vm xml flags (lv_world s) of
             (True, w) \<Rightarrow> (0, s\<lparr>lv_world := w\<rparr>)
           | (False, w) \<Rightarrow>
               (- 1, set_lv_error (case api_last_error api w of None \<Rightarrow> ''Unknown error'' | Some m \<Rightarrow> m)
                       (s\<lparr>lv_world := w\<rparr>))))"

section \<open>Editing the description\<close>

text \<open>
  The new document: the content of the first description element is replaced; without one, a
  description built in a buffer of 2048 bytes is inserted after the first name element. \<open>None\<close>
  when the document has neither.
\<close>

definition edit_description_xml :: "string \<Rightarrow> string \<Rightarrow> string option" where
  "edit_description_xml xml new_description =
     (case (strstr xml ''<description>'', strstr xml ''</description>'') of
        (Some ds, Some de) \<Rightarrow>
          Some (take (length xml - length ds + length ''<description>'') xml @ new_description @ de)
      | _ \<Rightarrow>
         (case strstr xml ''</name>'' of
            None \<Rightarrow> None
          | Some ne \<Rightarrow>
             (let prefix_len = length xml - length ne + length ''</name>'' in
              Some (take prefix_len xml @
                snprintf_buf 2048 (fmt ''<description>%s</description>'' [new_description]) @
                drop prefix_len xml))))"

definition lv_edit_snapshot_description ::
  "'w lv_api \<Rightarrow> string \<Rightarrow> string \<Rightarrow> string \<Rightarrow> 'w lv_state \<Rightarrow> int \<times> 'w lv_state" where
  "lv_edit_snapshot_description api vm snap_name new_description s =
     (if \<not> lv_lookup_domain api vm s then (- 1, s)
      else if \<not> api_lookup_snapshot api (lv_world s) vm snap_name
      then (- 1, set_lv_error (fmt (''Snapshot '' @ SQUOTE # ''%s'' @ SQUOTE # '' not found'') [snap_name]) s)
      else
       (let cur = (api_current_snapshot api (lv_world s) vm = Some snap_name) in
        case api_snapshot_xml api (lv_world s) vm snap_name of
          None \<Rightarrow> (- 1, set_lv_error ''Failed to get snapshot XML'' s)
        | Some xml \<Rightarrow>
           (case edit_description_xml xml new_description of
              None \<Rightarrow> (- 1, set_lv_error ''Failed to build modified snapshot XML'' s)
            | Some new_xml \<Rightarrow>
               (case api_create_snapshot api vm new_xml
                       (SNAPSHOT_CREATE_REDEFINE # (if cur then [SNAPSHOT_CREATE_CURRENT] else []))
                       (lv_world s) of
                  (True, w) \<Rightarrow> (0, s\<lparr>lv_world := w\<rparr>)
                | (False, w) \<Rightarrow>
                    (- 1, set_lv_error (case api_last_error api w of None \<Rightarrow> ''REDEFINE failed'' | Some m \<Rightarrow> m)
                            (s\<lparr>lv_world := w\<rparr>))))))"

section \<open>Deleting, reverting, merging\<close>

text \<open>The flag of the call says whether only the metadata is deleted.\<close>

definition lv_delete_snapshot ::
  "'w lv_api \<Rightarrow> string \<Rightarrow> string \<Rightarrow> 'w lv_state \<Rightarrow> int \<times> 'w lv_state" where
  "lv_delete_snapshot api vm snap_name s =
     (if \<not> lv_lookup_domain api vm s \<or> \<not> api_lookup_snapshot api (lv_world s) vm snap_name then (- 1, s)
      else
       (let external = (case api_snapshot_xml api (lv_world s) vm snap_name of
                          None \<Rightarrow> False | Some xml \<Rightarrow> snapshot_xml_is_external xml)
        in case api_delete_snapshot api vm snap_name external (lv_world s) of
             (r, w) \<Rightarrow> (r, s\<lparr>lv_world := w\<rparr>)))"

definition lv_revert_snapshot ::
  "'w lv_api \<Rightarrow> string \<Rightarrow> string \<Rightarrow> 'w lv_state \<Rightarrow> int \<times> 'w lv_state" where
  "lv_revert_snapshot api vm snap_name s =
     (if \<not> lv_lookup_domain api vm s \<or> \<not> api_lookup_snapshot api (lv_world s) vm snap_name then (- 1, s)
      else (case api_revert api vm snap_name (lv_world s) of (r, w) \<Rightarrow> (r, s\<lparr>lv_world := w\<rparr>)))"

text \<open>The block commit works on the disk \<open>vda\<close>; the snapshot's name only has to exist.\<close>

definition lv_merge_snapshot ::
  "'w lv_api \<Rightarrow> string \<Rightarrow> string \<Rightarrow> 'w lv_state \<Rightarrow> int \<times> 'w lv_state" where
  "lv_merge_snapshot api vm snap_name s =
     (if \<not> lv_lookup_domain api vm s \<or> \<not> api_lookup_snapshot api (lv_world s) vm snap_name then (- 1, s)
      else (case api_block_commit api vm ''vda'' (lv_world s) of (r, w) \<Rightarrow> (r, s\<lparr>lv_world := w\<rparr>)))"

section \<open>NVRAM\<close>

definition lv_check_nvram_format :: "'w lv_api \<Rightarrow> string \<Rightarrow> 'w lv_state \<Rightarrow> int" where
  "lv_check_nvram_format api vm s =
     (if \<not> lv_lookup_domain api vm s then - 1
      else (case api_domain_xml api (lv_world s) vm of
        None \<Rightarrow> - 1
      | Some dom_xml \<Rightarrow>
         (case extract_xml_content_ext dom_xml ''nvram'' of
            None \<Rightarrow> - 1
          | Some [] \<Rightarrow> - 1
          | Some _ \<Rightarrow> if extract_xml_attr dom_xml ''nvram'' ''format'' = Some ''qcow2'' then 1 else 0)))"

definition nvram_qcow2_path :: "string \<Rightarrow> string" where
  "nvram_qcow2_path path =
     snprintf_buf 4096
       ((case strrchr path (CHR ''.'') of None \<Rightarrow> path | Some dot \<Rightarrow> before path dot) @ ''.qcow2'')"

text \<open>
  The format attribute in the \<open>nvram\<close> tag: the single-quoted spelling is looked for first, then the
  double-quoted one, from the tag on; it is replaced only if it begins before the tag ends.
\<close>

definition nvram_fix_format :: "string \<Rightarrow> string" where
  "nvram_fix_format xml =
     (case strstr xml ''<nvram '' of
        None \<Rightarrow> xml
      | Some tag \<Rightarrow>
         (case strchr tag (CHR ''>'') of
            None \<Rightarrow> xml
          | Some tag_end \<Rightarrow>
             (let raw = strstr tag (''format='' @ [SQUOTE] @ ''raw'' @ [SQUOTE]);
                  raw2 = strstr tag (''format='' @ [DQUOTE] @ ''raw'' @ [DQUOTE]);
                  quote = (if raw \<noteq> None then SQUOTE else DQUOTE)
              in case (if raw \<noteq> None then raw else raw2) of
                   None \<Rightarrow> xml
                 | Some pos \<Rightarrow>
                    if length tag_end < length pos
                    then before xml pos @ ''format='' @ [quote] @ ''qcow2'' @ [quote] @ drop 12 pos
                    else xml)))"

text \<open>The new domain description; \<open>None\<close> when the path does not occur in the old one.\<close>

definition nvram_new_xml :: "string \<Rightarrow> string \<Rightarrow> string \<Rightarrow> string option" where
  "nvram_new_xml dom_xml nvram_path qcow2_path =
     (case strstr dom_xml nvram_path of
        None \<Rightarrow> None
      | Some start \<Rightarrow>
          Some (nvram_fix_format (before dom_xml start @ qcow2_path @ drop (length nvram_path) start)))"

definition qemu_img_convert :: "string \<Rightarrow> string \<Rightarrow> string" where
  "qemu_img_convert old new =
     snprintf_buf 8320
       (fmt (''qemu-img convert -f raw -O qcow2 '' @ SQUOTE # ''%s'' @ SQUOTE # '' '' @
             SQUOTE # ''%s'' @ [SQUOTE]) [old, new])"

definition wexitstatus :: "int \<Rightarrow> int" where
  "wexitstatus rc = (rc div 256) mod 256"

definition lv_convert_nvram :: "'w lv_api \<Rightarrow> string \<Rightarrow> 'w lv_state \<Rightarrow> int \<times> 'w lv_state" where
  "lv_convert_nvram api vm s =
     (if \<not> lv_lookup_domain api vm s then (- 1, s)
      else if map_option fst (api_info api (lv_world s) vm) \<noteq> Some VIR_DOMAIN_SHUTOFF
      then (- 1, set_lv_error ''VM must be stopped before converting NVRAM'' s)
      else (case api_domain_xml api (lv_world s) vm of
        None \<Rightarrow> (- 1, set_lv_error ''Failed to get domain XML'' s)
      | Some dom_xml \<Rightarrow>
         (case extract_xml_content_ext dom_xml ''nvram'' of
            None \<Rightarrow> (- 1, set_lv_error ''No NVRAM path found in domain XML (not a UEFI VM?)'' s)
          | Some [] \<Rightarrow> (- 1, set_lv_error ''No NVRAM path found in domain XML (not a UEFI VM?)'' s)
          | Some path \<Rightarrow>
              if extract_xml_attr dom_xml ''nvram'' ''format'' = Some ''qcow2'' then (1, s)
              else
               (let qcow2 = nvram_qcow2_path path in
                case api_system api (qemu_img_convert path qcow2) (lv_world s) of (rc, w) \<Rightarrow>
                 (let s1 = s\<lparr>lv_world := w\<rparr> in
                  if rc \<noteq> 0
                  then (- 1, set_lv_error (fmt ''qemu-img convert failed (exit %d)'' [dec_int (wexitstatus rc)]) s1)
                  else (case nvram_new_xml dom_xml path qcow2 of
                    None \<Rightarrow> (- 1, set_lv_error ''Could not find NVRAM path in XML for replacement'' s1)
                  | Some new_xml \<Rightarrow>
                     (case api_define_xml api new_xml w of
                        (True, w2) \<Rightarrow> (0, s1\<lparr>lv_world := w2\<rparr>)
                      | (False, w2) \<Rightarrow>
                          (- 1, set_lv_error (fmt ''Failed to redefine domain: %s''
                                  [case api_last_error api w2 of None \<Rightarrow> ''unknown'' | Some m \<Rightarrow> m])
                                (s1\<lparr>lv_world := api_unlink api qcow2 w2\<rparr>)))))))))"

section \<open>Lemmas on the documents\<close>

lemma strstr_escaped [simp]:
  "strstr (xml_escape_loop t @ r) (CHR ''<'' # pat) = strstr r (CHR ''<'' # pat)"
  using strstr_skip[OF xml_escape_no_lt] .

lemma domainsnapshot_fmt_eq:
  "fmt domainsnapshot_fmt [n, d, p] =
     ''<domainsnapshot><name>'' @ n @ ''</name><description>'' @ d @ ''</description>'' @ p @
     ''</domainsnapshot>''"
  by (simp add: domainsnapshot_fmt_def)

lemma domainsnapshot_external_fmt_eq:
  "fmt domainsnapshot_external_fmt [n, d, p] =
     ''<domainsnapshot><name>'' @ n @ ''</name><description>'' @ d @ ''</description>'' @ p @
     ''<disks><disk name='' @ SQUOTE # ''vda'' @ SQUOTE # '' snapshot='' @ SQUOTE # ''external'' @
     SQUOTE # ''/></disks></domainsnapshot>''"
  by (simp add: domainsnapshot_external_fmt_def)

lemma snapshot_create_xml_shape:
  "\<exists>tail. snapshot_create_xml cur n d ty =
     ''<domainsnapshot><name>'' @ xml_escape_loop n @ ''</name><description>'' @
     xml_escape_loop (or_empty d) @ ''</description>'' @
     (case cur of Some c \<Rightarrow> if c = n then [] else
        ''<parent><name>'' @ xml_escape_loop c @ ''</name></parent>'' | None \<Rightarrow> []) @ tail \<and>
     tail \<in> {''</domainsnapshot>'',
       ''<disks><disk name='' @ SQUOTE # ''vda'' @ SQUOTE # '' snapshot='' @ SQUOTE # ''external'' @
       SQUOTE # ''/></disks></domainsnapshot>''} \<and> (tail = ''</domainsnapshot>'' \<longleftrightarrow> ty \<noteq> SNAP_EXTERNAL)"
  by (cases cur)
    (auto simp: snapshot_create_xml_def domainsnapshot_fmt_eq domainsnapshot_external_fmt_eq Let_def
      xml_escape_text_def)

lemma sublist_escape_plain:
  assumes "sublist x t" "\<forall>c\<in>set x. \<not> xml_special c"
  shows "sublist x (xml_escape_loop t)"
proof -
  from assms(1) obtain a b where "t = a @ x @ b" by (auto simp: sublist_def)
  moreover have "xml_escape_loop x = x" using assms(2) by (rule xml.esc_harmless)
  ultimately show ?thesis by (auto simp: xml.esc_append)
qed

lemma xml_with_disk_only_is_external: "sublist ''disk-only'' xml \<Longrightarrow> snapshot_xml_is_external xml"
  by (simp add: snapshot_xml_is_external_def strstr_None_iff)

section \<open>Properties\<close>

text \<open>C10: the request for a new snapshot says what the caller asked for. Read with the program's
  own helpers, the document that is sent holds the escaped name, the escaped description and, when
  there is another current snapshot, its escaped name as the parent; no byte of the three texts can
  end an element early. The flags ask for a disk-only, atomic snapshot exactly for an external one;
  there is one libvirt call, and the result is 0 exactly when it succeeds; when it fails the error
  text is libvirt's, cut to 1023 bytes.\<close>

theorem lv_create_snapshot_request:
  fixes cur n d ty
  defines "xml \<equiv> snapshot_create_xml cur n d ty"
  shows "extract_xml_content xml ''name'' = Some (xml_escape_text (Some n)) \<and>
    extract_xml_content xml ''description'' = Some (xml_escape_text (Some (or_empty d))) \<and>
    extract_snapshot_parent_name (Some xml) =
      (if cur = None \<or> cur = Some n then None else Some (xml_escape_text cur)) \<and>
    (lv_lookup_domain api vm s \<longrightarrow> api_current_snapshot api (lv_world s) vm = cur \<longrightarrow>
     lv_create_snapshot api vm n d ty s =
       (case api_create_snapshot api vm xml
               (if ty = SNAP_EXTERNAL then [SNAPSHOT_CREATE_DISK_ONLY, SNAPSHOT_CREATE_ATOMIC] else [])
               (lv_world s) of (ok, w) \<Rightarrow>
          if ok then (0, s\<lparr>lv_world := w\<rparr>)
          else (- 1, s\<lparr>lv_world := w, lv_last_error := take 1023
                  (case api_last_error api w of None \<Rightarrow> ''Unknown error'' | Some m \<Rightarrow> m)\<rparr>)))"
proof (intro conjI impI)
  obtain tail where x: "xml = ''<domainsnapshot><name>'' @ xml_escape_loop n @ ''</name><description>'' @
     xml_escape_loop (or_empty d) @ ''</description>'' @
     (case cur of Some c \<Rightarrow> if c = n then [] else
        ''<parent><name>'' @ xml_escape_loop c @ ''</name></parent>'' | None \<Rightarrow> []) @ tail"
    and tail: "tail = ''</domainsnapshot>'' \<or> tail =
       ''<disks><disk name='' @ SQUOTE # ''vda'' @ SQUOTE # '' snapshot='' @ SQUOTE # ''external'' @
       SQUOTE # ''/></disks></domainsnapshot>''"
    using snapshot_create_xml_shape[of cur n d ty] unfolding xml_def by blast
  show "extract_xml_content xml ''name'' = Some (xml_escape_text (Some n))"
    unfolding x by (simp add: extract_eval xml_escape_text_def)
  show "extract_xml_content xml ''description'' = Some (xml_escape_text (Some (or_empty d)))"
    unfolding x by (simp add: extract_eval xml_escape_text_def)
  show "extract_snapshot_parent_name (Some xml) =
      (if cur = None \<or> cur = Some n then None else Some (xml_escape_text cur))"
  proof (cases "cur = None \<or> cur = Some n")
    case True
    with tail show ?thesis unfolding x by (cases cur) (auto simp: extract_eval)
  next
    case False
    then obtain c where c: "cur = Some c" "c \<noteq> n" by auto
    have "extract_xml_content xml ''parent'' = Some (''<name>'' @ xml_escape_loop c @ ''</name>'')"
      using c unfolding x
      by (intro extract_content_at[where post = tail]) (simp_all add: open_tag_short close_tag_short)
    moreover have "extract_xml_content (''<name>'' @ xml_escape_loop c @ ''</name>'') ''name''
        = Some (xml_escape_loop c)"
      using extract_hit[of "xml_escape_loop c" "''name''" "[]"] xml_escape_no_lt
      by (simp add: open_tag_short close_tag_short)
    ultimately show ?thesis
      using c by (simp add: extract_snapshot_parent_name_def extract_xml_content_ext_def xml_escape_text_def)
  qed
  show "lv_create_snapshot api vm n d ty s =
       (case api_create_snapshot api vm xml
               (if ty = SNAP_EXTERNAL then [SNAPSHOT_CREATE_DISK_ONLY, SNAPSHOT_CREATE_ATOMIC] else [])
               (lv_world s) of (ok, w) \<Rightarrow>
          if ok then (0, s\<lparr>lv_world := w\<rparr>)
          else (- 1, s\<lparr>lv_world := w, lv_last_error := take 1023
                  (case api_last_error api w of None \<Rightarrow> ''Unknown error'' | Some m \<Rightarrow> m)\<rparr>))"
    if "lv_lookup_domain api vm s" "api_current_snapshot api (lv_world s) vm = cur"
    using that
    by (auto simp: lv_create_snapshot_def xml_def set_lv_error_def snprintf_buf_def Let_def
        split: prod.split bool.split)
qed

theorem lv_create_snapshot_request_witness:
  "extract_xml_content (snapshot_create_xml (Some ''work'') ''a<b'' None SNAP_EXTERNAL) ''name''
     = Some ''a&lt;b'' \<and>
   lv_create_snapshot demo_api ''vm'' ''a<b'' None SNAP_EXTERNAL demo_lv = (0, demo_lv)"
  using lv_create_snapshot_request[of "Some ''work''" "''a<b''" None SNAP_EXTERNAL demo_api "''vm''" demo_lv]
  by (auto simp: demo_api_def demo_lv_def lv_lookup_domain_def xml_escape_text_def xml_escape1_def)

text \<open>C30: editing a description changes nothing else. When the document has a description element
  and no end tag of one stands before it, the new document differs from the old one only in the
  content of the first description element, whatever elements stand before and after it. A new
  description without an opening angle bracket is what the program reads back from the new document.\<close>

theorem edit_description_replaces:
  assumes "xml = pre @ ''<description>'' @ old @ ''</description>'' @ post"
    and "strstr xml ''<description>'' = Some (''<description>'' @ old @ ''</description>'' @ post)"
    and "strstr xml ''</description>'' = Some (''</description>'' @ post)"
  shows "edit_description_xml xml new = Some (pre @ ''<description>'' @ new @ ''</description>'' @ post) \<and>
    (CHR ''<'' \<notin> set new \<longrightarrow>
      extract_xml_content (pre @ ''<description>'' @ new @ ''</description>'' @ post) ''description'' = Some new)"
proof (intro conjI impI)
  have "take (length pre + 13) xml = pre @ ''<description>''" by (simp add: assms(1))
  then show "edit_description_xml xml new = Some (pre @ ''<description>'' @ new @ ''</description>'' @ post)"
    unfolding edit_description_xml_def assms(2,3) by (simp add: assms(1))
  assume new: "CHR ''<'' \<notin> set new"
  have first: "\<not> sublist ''<description>'' pre"
  proof
    assume "sublist ''<description>'' pre"
    then obtain u v where "pre = u @ ''<description>'' @ v" by (auto simp: sublist_def)
    then obtain r where "strstr xml ''<description>'' = Some r" "length r \<ge> length (''<description>'' @ v @ ''<description>'' @ old @ ''</description>'' @ post)"
      using strstr_earliest[of u "''<description>''" "v @ ''<description>'' @ old @ ''</description>'' @ post"]
      by (auto simp: assms(1))
    with assms(2) show False by simp
  qed
  from strstr_at[of "CHR ''<''" "''description>''" pre "new @ ''</description>'' @ post"] first
  have "strstr (pre @ ''<description>'' @ new @ ''</description>'' @ post) ''<description>'' =
      Some (''<description>'' @ new @ ''</description>'' @ post)" by simp
  moreover have "extract_xml_content (''<description>'' @ new @ ''</description>'' @ post) ''description'' = Some new"
    using extract_hit[of new "''description''" post] new by (simp add: open_tag_short close_tag_short)
  ultimately show "extract_xml_content (pre @ ''<description>'' @ new @ ''</description>'' @ post) ''description'' = Some new"
    by (simp add: extract_xml_content_def open_tag_short strstr_prefix del: strstr.simps)
qed

theorem edit_description_replaces_witness:
  "edit_description_xml ''<name>n</name><description>a</description><state/>'' ''b & c''
     = Some ''<name>n</name><description>b & c</description><state/>'' \<and>
   extract_xml_content ''<name>n</name><description>b & c</description><state/>'' ''description'' = Some ''b & c''"
  using edit_description_replaces[of "''<name>n</name><description>a</description><state/>''"
      "''<name>n</name>''" "''a''" "''<state/>''" "''b & c''"]
  by simp

text \<open>A snapshot without a description cannot be given a long one. The element to insert is
  built in 2048 bytes: a description of 2034 bytes or more without angle brackets loses the end tag,
  and the document that is sent to libvirt has none.\<close>

theorem edit_description_truncated:
  assumes "strstr xml ''<description>'' = None" "xml = pre @ ''</name>'' @ post"
    and "strstr xml ''</name>'' = Some (''</name>'' @ post)"
    and "\<not> sublist ''</description>'' post" "CHR ''<'' \<notin> set new" "2034 \<le> length new"
  shows "edit_description_xml xml new = Some (pre @ ''</name><description>'' @ take 2034 new @ post) \<and>
    strstr (''<description>'' @ take 2034 new @ post) ''</description>'' = None"
proof
  let ?d = "''<description>'' @ new @ ''</description>''"
  have "fmt ''<description>%s</description>'' [new] = ?d" by simp
  moreover have d: "snprintf_buf 2048 ?d = ''<description>'' @ take 2034 new"
    using assms(6) by (simp add: snprintf_buf_def)
  moreover have len: "length xml - length (''</name>'' @ post) + length ''</name>'' = length pre + 7"
    by (simp add: assms(2))
  moreover have "take (length pre + 7) xml = pre @ ''</name>''" "drop (length pre + 7) xml = post"
    by (simp_all add: assms(2))
  ultimately show "edit_description_xml xml new = Some (pre @ ''</name><description>'' @ take 2034 new @ post)"
    unfolding edit_description_xml_def Let_def assms(1,3)
    by (simp only: option.case prod.case d len) simp
  have "CHR ''<'' \<notin> set (take 2034 new)" using assms(5) by (auto dest: in_set_takeD)
  from strstr_skip[OF this, of post "''/description>''"] assms(4)
  show "strstr (''<description>'' @ take 2034 new @ post) ''</description>'' = None"
    by (simp add: strstr_None_iff)
qed

theorem edit_description_truncated_witness:
  "edit_description_xml ''<name>n</name><state/>'' (replicate 3000 (CHR ''d''))
     = Some (''<name>n</name><description>'' @ replicate 2034 (CHR ''d'') @ ''<state/>'')"
proof -
  have "edit_description_xml ''<name>n</name><state/>'' (replicate 3000 (CHR ''d''))
    = Some (''<name>n'' @ ''</name><description>'' @ take 2034 (replicate 3000 (CHR ''d'')) @ ''<state/>'')"
    by (rule edit_description_truncated[THEN conjunct1])
      (simp_all add: sublist_Cons_right in_set_replicate)
  moreover have "take 2034 (replicate 3000 (CHR ''d'')) = replicate 2034 (CHR ''d'')"
    by (simp only: take_replicate) simp
  ultimately show ?thesis by (simp only:) simp
qed

text \<open>Deleting asks libvirt to keep the disk data exactly when the description of the snapshot
  looks external, and that test is fooled by ordinary text: any snapshot whose name or description
  contains \<open>disk-only\<close> is taken for an external one, so only its metadata is deleted.\<close>

theorem lv_delete_disk_only_text:
  assumes "lv_lookup_domain api vm s" "api_lookup_snapshot api (lv_world s) vm n"
    and "api_snapshot_xml api (lv_world s) vm n = Some (pre @ xml_escape_loop user_text @ post)"
    and "sublist ''disk-only'' user_text"
  shows "lv_delete_snapshot api vm n s =
    (case api_delete_snapshot api vm n True (lv_world s) of (r, w) \<Rightarrow> (r, s\<lparr>lv_world := w\<rparr>))"
proof -
  have "sublist ''disk-only'' (xml_escape_loop user_text)"
    by (rule sublist_escape_plain[OF assms(4)]) (simp add: xml_special_def)
  then have "sublist ''disk-only'' (pre @ xml_escape_loop user_text @ post)"
    by (meson sublist_appendI sublist_order.order_trans)
  with assms show ?thesis
    by (simp add: lv_delete_snapshot_def xml_with_disk_only_is_external)
qed

theorem lv_delete_disk_only_text_witness:
  "lv_delete_snapshot
     (demo_api\<lparr>api_snapshot_xml := (\<lambda>_ _ _. Some ''<name>pre disk-only test</name>''),
               api_delete_snapshot := (\<lambda>_ _ meta w. (if meta then 1 else 0, w))\<rparr>)
     ''vm'' ''pre disk-only test'' demo_lv = (1, demo_lv)"
  using lv_delete_disk_only_text[of
      "demo_api\<lparr>api_snapshot_xml := (\<lambda>_ _ _. Some ''<name>pre disk-only test</name>''),
        api_delete_snapshot := (\<lambda>_ _ meta w. (if meta then 1 else 0, w))\<rparr>"
      "''vm''" demo_lv "''pre disk-only test''" "''<name>''" "''pre disk-only test''" "''</name>''"]
  by (simp add: demo_api_def demo_lv_def lv_lookup_domain_def xml_escape1_def sublist_Cons_right)

definition error_kept_or_set :: "'w lv_state \<Rightarrow> int \<times> 'w lv_state \<Rightarrow> bool" where
  "error_kept_or_set s r \<longleftrightarrow> length (lv_last_error (snd r)) < 1024 \<or>
     lv_last_error (snd r) = lv_last_error s"

text \<open>Which operations report why they failed. The life cycle operations, delete, revert and
  merge never touch the error text, so what the routes show after one of them fails is the text of an
  earlier failure, if any. Each of the others either leaves it alone, which it does when it
  succeeds or finds no domain, or sets it to at most 1023 bytes.\<close>

theorem lv_error_texts:
  "lv_last_error (snd (lv_domain_action api op vm s)) = lv_last_error s \<and>
   lv_last_error (snd (lv_delete_snapshot api vm n s)) = lv_last_error s \<and>
   lv_last_error (snd (lv_revert_snapshot api vm n s)) = lv_last_error s \<and>
   lv_last_error (snd (lv_merge_snapshot api vm n s)) = lv_last_error s \<and>
   error_kept_or_set s (lv_create_snapshot api vm n d ty s) \<and>
   error_kept_or_set s (lv_edit_snapshot_description api vm n new s) \<and>
   error_kept_or_set s (lv_convert_nvram api vm s)"
proof (intro conjI)
  have short: "length (lv_last_error (set_lv_error m u)) < 1024" for m and u :: "'a lv_state"
    by (simp add: set_lv_error_def length_snprintf_buf)
  show "error_kept_or_set s (lv_create_snapshot api vm n d ty s)"
    by (auto simp: error_kept_or_set_def lv_create_snapshot_def Let_def short
        split: prod.split bool.split)
  show "error_kept_or_set s (lv_edit_snapshot_description api vm n new s)"
    by (auto simp: error_kept_or_set_def lv_edit_snapshot_description_def Let_def short
        split: prod.split bool.split option.split)
  show "error_kept_or_set s (lv_convert_nvram api vm s)"
    by (auto simp: error_kept_or_set_def lv_convert_nvram_def Let_def short
        split: prod.split bool.split option.split list.split)
qed (auto simp: lv_domain_action_def lv_delete_snapshot_def lv_revert_snapshot_def
    lv_merge_snapshot_def Let_def split: prod.split)

text \<open>C29: converting the NVRAM rewrites exactly the path and the format. For a domain description
  whose first \<open>nvram\<close> element carries the format attribute \<open>raw\<close> (in single quotes) and the path at
  its first occurrence, the new description has the format \<open>qcow2\<close> and the new path in these places
  and is otherwise the same; the program's own format check then reads \<open>qcow2\<close>.\<close>

theorem nvram_new_xml_rewrites:
  assumes xml: "xml = pre @ ''<nvram '' @ at1 @ ''format='' @ SQUOTE # ''raw'' @ SQUOTE # at2 @ ''>'' @
      path @ ''</nvram>'' @ post"
    and "\<not> sublist ''<nvram '' pre" "CHR ''>'' \<notin> set at1" "CHR ''>'' \<notin> set at2"
    and "\<not> sublist (''format='' @ [SQUOTE]) at1"
    and path: "strstr xml path = Some (path @ ''</nvram>'' @ post)"
  shows "nvram_new_xml xml path q = Some (pre @ ''<nvram '' @ at1 @ ''format='' @ SQUOTE # ''qcow2'' @
      SQUOTE # at2 @ ''>'' @ q @ ''</nvram>'' @ post) \<and>
    extract_xml_attr (pre @ ''<nvram '' @ at1 @ ''format='' @ SQUOTE # ''qcow2'' @
      SQUOTE # at2 @ ''>'' @ q @ ''</nvram>'' @ post) ''nvram'' ''format'' = Some ''qcow2''"
proof -
  have noraw: "\<not> sublist (''format='' @ SQUOTE # ''raw'' @ [SQUOTE]) at1"
  proof
    assume "sublist (''format='' @ SQUOTE # ''raw'' @ [SQUOTE]) at1"
    moreover have "sublist (''format='' @ [SQUOTE]) ((''format='' @ [SQUOTE]) @ ''raw'' @ [SQUOTE])"
      by (rule sublist_append_rightI)
    ultimately show False using assms(5) sublist_order.order_trans by fastforce
  qed
  let ?rest = "at2 @ ''>'' @ q @ ''</nvram>'' @ post"
  let ?tag = "\<lambda>v. ''<nvram '' @ at1 @ ''format='' @ SQUOTE # v @ SQUOTE # ?rest"
  have tag: "strstr (pre @ ?tag v) ''<nvram '' = Some (?tag v)" for v
    using strstr_at[of "CHR ''<''" "''nvram ''" pre "at1 @ ''format='' @ SQUOTE # v @ SQUOTE # ?rest"] assms(2)
    by simp
  have gt: "strchr (?tag ''raw'') (CHR ''>'') = Some (''>'' @ q @ ''</nvram>'' @ post)"
    using strchr_first[of "CHR ''>''" "''<nvram '' @ at1 @ ''format='' @ SQUOTE # ''raw'' @ SQUOTE # at2"
        "q @ ''</nvram>'' @ post"] assms(3,4) by simp
  have skip: "strstr (?tag v) (CHR ''f'' # p) = strstr (at1 @ ''format='' @ SQUOTE # v @ SQUOTE # ?rest) (CHR ''f'' # p)" for v p
    using strstr_skip[of "CHR ''f''" "''<nvram ''" "at1 @ ''format='' @ SQUOTE # v @ SQUOTE # ?rest" p] by simp
  have raw: "strstr (?tag ''raw'') (''format='' @ [SQUOTE] @ ''raw'' @ [SQUOTE])
      = Some (''format='' @ SQUOTE # ''raw'' @ SQUOTE # ?rest)"
    using strstr_at[of "CHR ''f''" "''ormat='' @ SQUOTE # ''raw'' @ [SQUOTE]" at1 ?rest] noraw
      skip[of "''raw''" "''ormat='' @ SQUOTE # ''raw'' @ [SQUOTE]"] by simp
  have attr: "strstr (?tag ''qcow2'') (''format='' @ [SQUOTE])
      = Some (''format='' @ SQUOTE # ''qcow2'' @ SQUOTE # ?rest)"
    using strstr_at[of "CHR ''f''" "''ormat='' @ [SQUOTE]" at1 "''qcow2'' @ SQUOTE # ?rest"] assms(5)
      skip[of "''qcow2''" "''ormat='' @ [SQUOTE]"] by simp
  have swap: "before xml (path @ ''</nvram>'' @ post) @ q @ drop (length path) (path @ ''</nvram>'' @ post)
      = pre @ ?tag ''raw''"
    using before_append[of "pre @ ''<nvram '' @ at1 @ ''format='' @ SQUOTE # ''raw'' @ SQUOTE # at2 @ ''>''"
        "path @ ''</nvram>'' @ post"]
    by (simp add: xml)
  have bef: "before (pre @ ?tag ''raw'') (''format='' @ SQUOTE # ''raw'' @ SQUOTE # ?rest) = pre @ ''<nvram '' @ at1"
    using before_append[of "pre @ ''<nvram '' @ at1" "''format='' @ SQUOTE # ''raw'' @ SQUOTE # ?rest"] by simp
  have fmtok: "nvram_fix_format (pre @ ?tag ''raw'') = pre @ ?tag ''qcow2''"
    unfolding nvram_fix_format_def tag option.case gt Let_def raw using bef by simp
  have "nvram_new_xml xml path q = Some (pre @ ?tag ''qcow2'')"
    unfolding nvram_new_xml_def path option.case swap fmtok ..
  moreover have "extract_xml_attr (pre @ ?tag ''qcow2'') ''nvram'' ''format'' = Some ''qcow2''"
    using tag[of "''qcow2''"] attr by (simp add: extract_xml_attr_def snprintf_buf_def Let_def before_def)
  ultimately show ?thesis by simp
qed

theorem nvram_new_xml_rewrites_witness:
  "nvram_new_xml (''<os><nvram format='' @ SQUOTE # ''raw'' @ SQUOTE # ''>/v.fd</nvram></os>'') ''/v.fd'' ''/v.qcow2''
     = Some (''<os><nvram format='' @ SQUOTE # ''qcow2'' @ SQUOTE # ''>/v.qcow2</nvram></os>'')"
  using nvram_new_xml_rewrites[of "''<os><nvram format='' @ SQUOTE # ''raw'' @ SQUOTE # ''>/v.fd</nvram></os>''"
      "''<os>''" "[]" "[]" "''/v.fd''" "''</os>''" "''/v.qcow2''"]
  by (simp add: sublist_Cons_right)

end
