(* ===== verification/Agent_Scripts.thy ===== *)
theory Agent_Scripts
  imports Prelude
begin

text \<open>
  The string literals of src/libvirt_backend.c that reach libvirt or the guest: the commands and
  scripts for the guest agent, and the devices and elements put into a domain description.
\<close>

definition s_guest_exec :: string where
  \<open>s_guest_exec =
     ''{"execute":"guest-exec",'' @
     ''"arguments":{"path":"/usr/bin/bash",'' @
     ''"arg":["-c","%s"],'' @
     ''"env":["PATH=/usr/sbin:/usr/bin:/sbin:/bin"],'' @
     ''"capture-output":true}}''\<close>

definition s_guest_status :: string where
  \<open>s_guest_status =
     ''{"execute":"guest-exec-status","arguments":{"pid":%d}}''\<close>

definition s_no_agent :: string where
  \<open>s_no_agent =
     ''Guest agent not available. Is qemu-guest-agent installed and running in the VM?''\<close>

definition s_selinux :: string where
  \<open>s_selinux =
     ''Permission denied inside guest (SELinux may be blocking mount from the guest agent context).''\<close>

definition s_not_found :: string where
  \<open>s_not_found =
     ''Command not found inside guest. Required packages may not be installed.''\<close>

definition s_memory_backing :: string where
  \<open>s_memory_backing =
     ''<memoryBacking>'' @ [LF] @
     ''    <source type=\'memfd\'/>'' @ [LF] @
     ''    <access mode=\'shared\'/>'' @ [LF] @
     ''  </memoryBacking>'' @ [LF]\<close>

definition s_fs_9p :: string where
  \<open>s_fs_9p =
     ''<filesystem type=\'mount\' accessmode=\'mapped\'>'' @ [LF] @
     ''  <driver type=\'path\' wrpolicy=\'immediate\'/>'' @ [LF] @
     ''  <source dir=\'%s\'/>'' @ [LF] @
     ''  <target dir=\'%s\'/>'' @ [LF] @
     ''%s'' @
     ''</filesystem>''\<close>

definition s_fs_virtiofs :: string where
  \<open>s_fs_virtiofs =
     ''<filesystem type=\'mount\' accessmode=\'passthrough\'>'' @ [LF] @
     ''  <driver type=\'virtiofs\'/>'' @ [LF] @
     ''  <source dir=\'%s\'/>'' @ [LF] @
     ''  <target dir=\'%s\'/>'' @ [LF] @
     ''%s'' @
     ''</filesystem>''\<close>

definition s_mount_now :: string where
  \<open>s_mount_now =
     ''mkdir -p /media/%s && mount -t %s %s /media/%s 2>/dev/null''\<close>

definition s_umount_forget :: string where
  \<open>s_umount_forget =
     ''umount /media/%s 2>/dev/null; '' @
     ''sed -i \'/^%s$/d\' /etc/qemu-no-automount 2>/dev/null; true''\<close>

definition s_unskip :: string where
  \<open>s_unskip =
     ''sed -i \'/^%s$/d\' /etc/qemu-no-automount 2>/dev/null; true''\<close>

definition s_mount_9p :: string where
  \<open>s_mount_9p =
     ''/usr/bin/mkdir -p /media/%s && /usr/bin/mount -t 9p -o trans=virtio %s /media/%s''\<close>

definition s_mount_virtiofs :: string where
  \<open>s_mount_virtiofs =
     ''/usr/bin/mkdir -p /media/%s && /usr/bin/mount -t virtiofs %s /media/%s''\<close>

definition s_skip :: string where
  \<open>s_skip =
     ''grep -qxF \'%s\' /etc/qemu-no-automount 2>/dev/null || '' @
     ''echo \'%s\' >> /etc/qemu-no-automount''\<close>

definition s_refresh_script :: string where
  \<open>s_refresh_script =
     ''cat > /usr/local/bin/qemu-automount << \'SCRIPT'' @ [SQUOTE] @ [LF] @
     ''#!/bin/bash'' @ [LF] @
     ''SKIP=/etc/qemu-no-automount'' @ [LF] @
     ''for tag_path in /sys/fs/virtiofs/*/tag; do'' @ [LF] @
     ''    [ -e "$tag_path" ] || continue'' @ [LF] @
     ''    TAG=$(cat "$tag_path")'' @ [LF] @
     ''    if [ -f "$SKIP" ] && grep -qxF "$TAG" "$SKIP"; then continue; fi'' @ [LF] @
     ''    MP="/media/$TAG"'' @ [LF] @
     ''    mkdir -p "$MP"'' @ [LF] @
     ''    if ! mountpoint -q "$MP"; then'' @ [LF] @
     ''        mount -t virtiofs "$TAG" "$MP" >/dev/null 2>&1'' @ [LF] @
     ''    fi'' @ [LF] @
     ''done'' @ [LF] @
     ''SCRIPT'' @ [LF] @
     ''chmod +x /usr/local/bin/qemu-automount''\<close>

definition s_umount :: string where
  \<open>s_umount =
     ''/usr/bin/umount /media/%s''\<close>

definition s_findmnt :: string where
  \<open>s_findmnt =
     ''findmnt -n -o TARGET,FSTYPE --list''\<close>

definition s_osinfo :: string where
  \<open>s_osinfo =
     ''{"execute":"guest-get-osinfo"}''\<close>

definition s_has_systemd :: string where
  \<open>s_has_systemd =
     ''systemctl --version >/dev/null 2>&1''\<close>

definition s_has_openrc :: string where
  \<open>s_has_openrc =
     ''rc-service --version >/dev/null 2>&1''\<close>

definition s_has_windows :: string where
  \<open>s_has_windows =
     ''cmd.exe /c echo ok''\<close>

definition s_has_freebsd :: string where
  \<open>s_has_freebsd =
     ''freebsd-version >/dev/null 2>&1''\<close>

definition s_has_macos :: string where
  \<open>s_has_macos =
     ''sw_vers >/dev/null 2>&1''\<close>

definition s_timer_active :: string where
  \<open>s_timer_active =
     ''systemctl is-active qemu-automount.timer 2>/dev/null''\<close>

definition s_openrc_active :: string where
  \<open>s_openrc_active =
     ''rc-service qemu-automount status 2>/dev/null | grep -q started''\<close>

definition s_task_active :: string where
  \<open>s_task_active =
     ''schtasks.exe /Query /TN "QEMU-AutoMount" >NUL 2>&1''\<close>

definition s_rc_active :: string where
  \<open>s_rc_active =
     ''service qemu_automount status 2>/dev/null | grep -q running''\<close>

definition s_launchd_active :: string where
  \<open>s_launchd_active =
     ''launchctl list com.qemu.automount 2>/dev/null''\<close>

definition s_permissive :: string where
  \<open>s_permissive =
     ''which semanage >/dev/null 2>&1 && semanage permissive -a virt_qemu_ga_t 2>/dev/null; true''\<close>

definition s_systemd_script :: string where
  \<open>s_systemd_script =
     ''cat > /usr/local/bin/qemu-automount << \'SCRIPT'' @ [SQUOTE] @ [LF] @
     ''#!/bin/bash'' @ [LF] @
     ''SKIP=/etc/qemu-no-automount'' @ [LF] @
     ''for tag_path in /sys/fs/virtiofs/*/tag; do'' @ [LF] @
     ''    [ -e "$tag_path" ] || continue'' @ [LF] @
     ''    TAG=$(cat "$tag_path")'' @ [LF] @
     ''    if [ -f "$SKIP" ] && grep -qxF "$TAG" "$SKIP"; then continue; fi'' @ [LF] @
     ''    MOUNT_POINT="/media/$TAG"'' @ [LF] @
     ''    mkdir -p "$MOUNT_POINT"'' @ [LF] @
     ''    if ! mountpoint -q "$MOUNT_POINT"; then'' @ [LF] @
     ''        mount -t virtiofs "$TAG" "$MOUNT_POINT" >/dev/null 2>&1'' @ [LF] @
     ''    fi'' @ [LF] @
     ''done'' @ [LF] @
     ''SCRIPT'' @ [LF] @
     ''chmod +x /usr/local/bin/qemu-automount''\<close>

definition s_systemd_denied :: string where
  \<open>s_systemd_denied =
     ''SELinux blocked writing to /usr/local/bin/. '' @
     ''Run this inside the guest VM: '' @
     ''sudo semanage permissive -a virt_qemu_ga_t '' @
     ''(requires: sudo dnf install policycoreutils-python-utils)''\<close>

definition s_systemd_service :: string where
  \<open>s_systemd_service =
     ''cat > /etc/systemd/system/qemu-automount.service << \'EOF'' @ [SQUOTE] @ [LF] @
     ''[Unit]'' @ [LF] @
     ''Description=QEMU/KVM VirtioFS Auto-Mounter'' @ [LF] @
     [LF] @
     ''[Service]'' @ [LF] @
     ''Type=oneshot'' @ [LF] @
     ''ExecStart=/usr/local/bin/qemu-automount'' @ [LF] @
     ''EOF''\<close>

definition s_systemd_timer :: string where
  \<open>s_systemd_timer =
     ''cat > /etc/systemd/system/qemu-automount.timer << \'EOF'' @ [SQUOTE] @ [LF] @
     ''[Unit]'' @ [LF] @
     ''Description=Run QEMU Auto-Mounter every 5 seconds'' @ [LF] @
     [LF] @
     ''[Timer]'' @ [LF] @
     ''OnBootSec=5s'' @ [LF] @
     ''OnUnitActiveSec=5s'' @ [LF] @
     ''AccuracySec=100ms'' @ [LF] @
     [LF] @
     ''[Install]'' @ [LF] @
     ''WantedBy=timers.target'' @ [LF] @
     ''EOF''\<close>

definition s_systemd_enable :: string where
  \<open>s_systemd_enable =
     ''systemctl daemon-reload && systemctl enable --now qemu-automount.timer''\<close>

definition s_openrc_script :: string where
  \<open>s_openrc_script =
     ''cat > /usr/local/bin/qemu-automount << \'SCRIPT'' @ [SQUOTE] @ [LF] @
     ''#!/bin/sh'' @ [LF] @
     ''for tag_path in /sys/fs/virtiofs/*/tag; do'' @ [LF] @
     ''    [ -e "$tag_path" ] || continue'' @ [LF] @
     ''    TAG=$(cat "$tag_path")'' @ [LF] @
     ''    MOUNT_POINT="/media/$TAG"'' @ [LF] @
     ''    mkdir -p "$MOUNT_POINT"'' @ [LF] @
     ''    if ! mountpoint -q "$MOUNT_POINT"; then'' @ [LF] @
     ''        mount -t virtiofs "$TAG" "$MOUNT_POINT" 2>/dev/null'' @ [LF] @
     ''    fi'' @ [LF] @
     ''done'' @ [LF] @
     ''SCRIPT'' @ [LF] @
     ''chmod +x /usr/local/bin/qemu-automount''\<close>

definition s_openrc_init :: string where
  \<open>s_openrc_init =
     ''cat > /etc/init.d/qemu-automount << \'EOF'' @ [SQUOTE] @ [LF] @
     ''#!/sbin/openrc-run'' @ [LF] @
     ''description="QEMU/KVM VirtioFS Auto-Mounter"'' @ [LF] @
     ''command=/usr/local/bin/qemu-automount'' @ [LF] @
     ''command_background=false'' @ [LF] @
     [LF] @
     ''depend() {'' @ [LF] @
     ''    need localmount'' @ [LF] @
     ''}'' @ [LF] @
     ''EOF'' @ [LF] @
     ''chmod +x /etc/init.d/qemu-automount''\<close>

definition s_openrc_enable :: string where
  \<open>s_openrc_enable =
     ''rc-update add qemu-automount default 2>/dev/null; '' @
     ''rc-service qemu-automount start 2>/dev/null; '' @
     ''(crontab -l 2>/dev/null | grep -v qemu-automount; '' @
     ''echo \'*/1 * * * * /usr/local/bin/qemu-automount\') | crontab -''\<close>

definition s_windows_script :: string where
  \<open>s_windows_script =
     ''cmd.exe /c "mkdir C:'' @ [BACKSLASH] @ ''ProgramData'' @ [BACKSLASH] @ ''QEMU 2>NUL & '' @
     ''echo # QEMU VirtioFS Auto-Mounter > C:'' @ [BACKSLASH] @ ''ProgramData'' @ [BACKSLASH] @ ''QEMU'' @ [BACKSLASH] @ ''automount.ps1 & '' @
     ''echo $vfs = Get-PnpDevice -FriendlyName \'*VirtIO FS*\' -ErrorAction SilentlyContinue >> C:'' @ [BACKSLASH] @ ''ProgramData'' @ [BACKSLASH] @ ''QEMU'' @ [BACKSLASH] @ ''automount.ps1 & '' @
     ''echo if (-not $vfs) { exit } >> C:'' @ [BACKSLASH] @ ''ProgramData'' @ [BACKSLASH] @ ''QEMU'' @ [BACKSLASH] @ ''automount.ps1 & '' @
     ''echo $shares = Get-CimInstance -ClassName Win32_NetworkConnection -ErrorAction SilentlyContinue >> C:'' @ [BACKSLASH] @ ''ProgramData'' @ [BACKSLASH] @ ''QEMU'' @ [BACKSLASH] @ ''automount.ps1 & '' @
     ''echo # Mount any unmounted VirtioFS shares >> C:'' @ [BACKSLASH] @ ''ProgramData'' @ [BACKSLASH] @ ''QEMU'' @ [BACKSLASH] @ ''automount.ps1 & '' @
     ''echo Get-PSDrive -PSProvider FileSystem -ErrorAction SilentlyContinue ^| Out-Null >> C:'' @ [BACKSLASH] @ ''ProgramData'' @ [BACKSLASH] @ ''QEMU'' @ [BACKSLASH] @ ''automount.ps1"''\<close>

definition s_windows_failed :: string where
  \<open>s_windows_failed =
     ''Failed to create auto-mount script. '' @
     ''Windows VirtioFS support requires the VirtIO-Win drivers '' @
     ''and WinFsp to be installed.''\<close>

definition s_windows_task :: string where
  \<open>s_windows_task =
     ''cmd.exe /c "schtasks.exe /Create /TN QEMU-AutoMount '' @
     ''/SC MINUTE /MO 5 '' @
     ''/TR '' @ [BACKSLASH] @ ''"powershell.exe -ExecutionPolicy Bypass -File C:'' @ [BACKSLASH] @ ''ProgramData'' @ [BACKSLASH] @ ''QEMU'' @ [BACKSLASH] @ ''automount.ps1'' @ [BACKSLASH] @ ''" '' @
     ''/RU SYSTEM /F"''\<close>

definition s_freebsd_script :: string where
  \<open>s_freebsd_script =
     ''cat > /usr/local/bin/qemu-automount << \'SCRIPT'' @ [SQUOTE] @ [LF] @
     ''#!/bin/sh'' @ [LF] @
     ''# Mount all VirtioFS shares'' @ [LF] @
     ''for tag in $(sysctl -n vfs.virtiofs.tags 2>/dev/null); do'' @ [LF] @
     ''    MOUNT_POINT="/media/$tag"'' @ [LF] @
     ''    mkdir -p "$MOUNT_POINT"'' @ [LF] @
     ''    mount | grep -q "$MOUNT_POINT" || mount -t virtiofs "$tag" "$MOUNT_POINT" 2>/dev/null'' @ [LF] @
     ''done'' @ [LF] @
     ''SCRIPT'' @ [LF] @
     ''chmod +x /usr/local/bin/qemu-automount''\<close>

definition s_freebsd_rc :: string where
  \<open>s_freebsd_rc =
     ''cat > /usr/local/etc/rc.d/qemu_automount << \'EOF'' @ [SQUOTE] @ [LF] @
     ''#!/bin/sh'' @ [LF] @
     ''# PROVIDE: qemu_automount'' @ [LF] @
     ''# REQUIRE: FILESYSTEMS'' @ [LF] @
     ''. /etc/rc.subr'' @ [LF] @
     ''name=qemu_automount'' @ [LF] @
     ''rcvar=qemu_automount_enable'' @ [LF] @
     ''start_cmd="/usr/local/bin/qemu-automount"'' @ [LF] @
     ''load_rc_config $name'' @ [LF] @
     ''run_rc_command "$1"'' @ [LF] @
     ''EOF'' @ [LF] @
     ''chmod +x /usr/local/etc/rc.d/qemu_automount''\<close>

definition s_freebsd_enable :: string where
  \<open>s_freebsd_enable =
     ''sysrc qemu_automount_enable=YES 2>/dev/null; '' @
     ''service qemu_automount start 2>/dev/null; '' @
     ''(crontab -l 2>/dev/null | grep -v qemu-automount; '' @
     ''echo \'*/1 * * * * /usr/local/bin/qemu-automount\') | crontab -''\<close>

definition s_macos_script :: string where
  \<open>s_macos_script =
     ''cat > /usr/local/bin/qemu-automount << \'SCRIPT'' @ [SQUOTE] @ [LF] @
     ''#!/bin/bash'' @ [LF] @
     ''# Mount VirtioFS shares on macOS guest'' @ [LF] @
     ''# Note: macOS VirtioFS support is limited; this is best-effort'' @ [LF] @
     ''for tag in $(mount -t virtiofs 2>/dev/null | awk \'{print $1}\'); do'' @ [LF] @
     ''    MOUNT_POINT="/Volumes/$tag"'' @ [LF] @
     ''    mkdir -p "$MOUNT_POINT" 2>/dev/null'' @ [LF] @
     ''    mount | grep -q "$MOUNT_POINT" || mount -t virtiofs "$tag" "$MOUNT_POINT" 2>/dev/null'' @ [LF] @
     ''done'' @ [LF] @
     ''SCRIPT'' @ [LF] @
     ''chmod +x /usr/local/bin/qemu-automount''\<close>

definition s_macos_plist :: string where
  \<open>s_macos_plist =
     ''cat > /Library/LaunchDaemons/com.qemu.automount.plist << \'EOF'' @ [SQUOTE] @ [LF] @
     ''<?xml version="1.0" encoding="UTF-8"?>'' @ [LF] @
     ''<!DOCTYPE plist PUBLIC "-//Apple//DTD PLIST 1.0//EN" '' @
     ''"http://www.apple.com/DTDs/PropertyList-1.0.dtd">'' @ [LF] @
     ''<plist version="1.0">'' @ [LF] @
     ''<dict>'' @ [LF] @
     ''    <key>Label</key>'' @ [LF] @
     ''    <string>com.qemu.automount</string>'' @ [LF] @
     ''    <key>ProgramArguments</key>'' @ [LF] @
     ''    <array>'' @ [LF] @
     ''        <string>/usr/local/bin/qemu-automount</string>'' @ [LF] @
     ''    </array>'' @ [LF] @
     ''    <key>StartInterval</key>'' @ [LF] @
     ''    <integer>5</integer>'' @ [LF] @
     ''    <key>RunAtLoad</key>'' @ [LF] @
     ''    <true/>'' @ [LF] @
     ''</dict>'' @ [LF] @
     ''</plist>'' @ [LF] @
     ''EOF''\<close>

definition s_macos_load :: string where
  \<open>s_macos_load =
     ''launchctl load /Library/LaunchDaemons/com.qemu.automount.plist 2>/dev/null''\<close>

definition s_no_init :: string where
  \<open>s_no_init =
     ''Could not detect init system. '' @
     ''Tried systemd but it\'s not available. '' @
     ''Supported: Linux (systemd, OpenRC), Windows, FreeBSD, macOS.''\<close>

end
