(* ===== verification/Libvirt_Agent.thy ===== *)
theory Libvirt_Agent
  imports Agent_Scripts Libvirt_Tree Util
begin

text \<open>
  src/libvirt_backend.c: commands run inside a guest through the QEMU guest agent, and what the
  program does with them: mounting and unmounting shares, their status, and the kind of the guest.
  An exchange with the agent is a call of libvirt that takes a JSON text and may give one back.
\<close>

section \<open>Reading the replies\<close>

definition json_get :: "json option \<Rightarrow> string \<Rightarrow> json option" where
  "json_get j k = Option.bind j (\<lambda>obj. json_object_get obj k)"

definition json_integer_value :: "json option \<Rightarrow> int" where
  "json_integer_value j = (case j of Some (JInt i) \<Rightarrow> i | _ \<Rightarrow> 0)"

text \<open>The conversion of a 64-bit integer to \<open>int\<close>.\<close>

definition int_of_json :: "json option \<Rightarrow> int" where
  "int_of_json j = signed_take_bit 31 (json_integer_value j)"

section \<open>Running a command\<close>

definition guest_exec_json :: "string \<Rightarrow> string" where
  "guest_exec_json command =
     (let escaped = json_escape (Some command) in
      snprintf_buf (length escaped + 256) (fmt s_guest_exec [escaped]))"

definition guest_status_json :: "int \<Rightarrow> string" where
  "guest_status_json pid = snprintf_buf 256 (fmt s_guest_status [dec_int pid])"

text \<open>
  Up to \<open>k\<close> questions whether the command has ended: a failure of the exchange, no end so far, or
  the \<open>return\<close> object of the reply that says so.
\<close>

datatype poll_result =
    Poll_failed string
  | Poll_running
  | Poll_exited "json option"

fun guest_poll :: "'w lv_api \<Rightarrow> string \<Rightarrow> int \<Rightarrow> nat \<Rightarrow> 'w \<Rightarrow> poll_result \<times> 'w" where
  "guest_poll api vm pid 0 w = (Poll_running, w)"
| "guest_poll api vm pid (Suc k) w =
     (case api_agent_command api vm (guest_status_json pid) 30 w of
        (None, w1) \<Rightarrow> (Poll_failed ''Failed to get command status from guest agent'', w1)
      | (Some result, w1) \<Rightarrow>
         (case api_json_loads api result of
            None \<Rightarrow> (Poll_failed ''Failed to parse status response'', w1)
          | Some resp \<Rightarrow>
              if json_get (json_object_get resp ''return'') ''exited'' = Some (JBool True)
              then (Poll_exited (json_object_get resp ''return''), w1)
              else guest_poll api vm pid k w1))"

text \<open>The text of a data field of a reply, \<open>None\<close> when it is missing or empty.\<close>

definition reply_data :: "json option \<Rightarrow> string \<Rightarrow> string option" where
  "reply_data ret k =
     (case json_string_value (json_get ret k) of
        None \<Rightarrow> None | Some s \<Rightarrow> if s = [] then None else Some s)"

definition exit_failure_text :: "int \<Rightarrow> json option \<Rightarrow> string" where
  "exit_failure_text code ret =
     (if code = 126 then s_selinux
      else if code = 127 then s_not_found
      else (case (case reply_data ret ''err-data'' of
                    Some e \<Rightarrow> Some e | None \<Rightarrow> reply_data ret ''out-data'') of
              Some b64 \<Rightarrow>
                snprintf_buf 1024 (fmt ''Command exited with code %d: %s''
                  [dec_int code, c_str (base64_decode b64)])
            | None \<Rightarrow> snprintf_buf 256 (fmt ''Command exited with code %d inside guest'' [dec_int code])))"

definition exited_result :: "json option \<Rightarrow> int \<times> string" where
  "exited_result ret =
     (let code = int_of_json (json_get ret ''exitcode'') in
      if code \<noteq> 0 then (- 1, exit_failure_text code ret)
      else (0, (case reply_data ret ''out-data'' of None \<Rightarrow> [] | Some b64 \<Rightarrow> c_str (base64_decode b64))))"

text \<open>The result with its message (every caller asks for one), and the new world.\<close>

definition guest_exec :: "'w lv_api \<Rightarrow> string \<Rightarrow> string \<Rightarrow> 'w \<Rightarrow> (int \<times> string) \<times> 'w" where
  "guest_exec api vm command w =
     (case api_agent_command api vm (guest_exec_json command) 30 w of
        (None, w1) \<Rightarrow>
          ((- 1, case api_last_error api w1 of Some m \<Rightarrow> m | None \<Rightarrow> s_no_agent), w1)
      | (Some result, w1) \<Rightarrow>
         (case api_json_loads api result of
            None \<Rightarrow> ((- 1, ''Failed to parse guest agent response''), w1)
          | Some resp \<Rightarrow>
             (let pid = int_of_json (json_get (json_object_get resp ''return'') ''pid'') in
              if pid \<le> 0 then ((- 1, ''Guest agent returned invalid PID''), w1)
              else (case guest_poll api vm pid 10 w1 of
                      (Poll_failed m, w2) \<Rightarrow> ((- 1, m), w2)
                    | (Poll_running, w2) \<Rightarrow> ((- 1, ''Command still running in guest''), w2)
                    | (Poll_exited ret, w2) \<Rightarrow> (exited_result ret, w2)))))"

text \<open>A command whose outcome does not matter, and one of which only the result does.\<close>

definition guest_try :: "'w lv_api \<Rightarrow> string \<Rightarrow> string \<Rightarrow> 'w \<Rightarrow> 'w" where
  "guest_try api vm command w = snd (guest_exec api vm command w)"

definition guest_runs :: "'w lv_api \<Rightarrow> string \<Rightarrow> string \<Rightarrow> 'w \<Rightarrow> bool \<times> 'w" where
  "guest_runs api vm command w =
     (case guest_exec api vm command w of ((rc, _), w1) \<Rightarrow> (rc = 0, w1))"

section \<open>Mounting and unmounting\<close>

definition vm_running :: "'w lv_api \<Rightarrow> string \<Rightarrow> 'w lv_state \<Rightarrow> bool" where
  "vm_running api vm s \<longleftrightarrow> map_option fst (api_info api (lv_world s) vm) = Some VIR_DOMAIN_RUNNING"

text \<open>A command that decides the operation: its message becomes the error text when it fails.\<close>

definition guest_or_error :: "'w lv_api \<Rightarrow> string \<Rightarrow> string \<Rightarrow> 'w lv_state \<Rightarrow> int \<times> 'w lv_state" where
  "guest_or_error api vm command s =
     (case guest_exec api vm command (lv_world s) of
        ((rc, msg), w) \<Rightarrow>
          (rc, if rc \<noteq> 0 then set_lv_error msg (s\<lparr>lv_world := w\<rparr>) else s\<lparr>lv_world := w\<rparr>))"

definition mount_command :: "string \<Rightarrow> string \<Rightarrow> string" where
  "mount_command tag fs_type =
     snprintf_buf 512
       (fmt (if (if fs_type \<noteq> [] then fs_type else ''virtiofs'') = ''9p'' then s_mount_9p else s_mount_virtiofs)
          [tag, tag, tag])"

definition lv_mount_shared_folder ::
  "'w lv_api \<Rightarrow> string \<Rightarrow> string \<Rightarrow> string \<Rightarrow> 'w lv_state \<Rightarrow> int \<times> 'w lv_state" where
  "lv_mount_shared_folder api vm tag fs_type s =
     (if \<not> lv_lookup_domain api vm s then (- 1, s)
      else if \<not> vm_running api vm s then (- 1, set_lv_error ''VM is not running'' s)
      else guest_or_error api vm (mount_command tag fs_type)
             (s\<lparr>lv_world := guest_try api vm (snprintf_buf 512 (fmt s_unskip [tag])) (lv_world s)\<rparr>))"

definition lv_unmount_shared_folder ::
  "'w lv_api \<Rightarrow> string \<Rightarrow> string \<Rightarrow> 'w lv_state \<Rightarrow> int \<times> 'w lv_state" where
  "lv_unmount_shared_folder api vm tag s =
     (if \<not> lv_lookup_domain api vm s then (- 1, s)
      else if \<not> vm_running api vm s then (- 1, set_lv_error ''VM is not running'' s)
      else guest_or_error api vm (snprintf_buf 256 (fmt s_umount [tag]))
             (s\<lparr>lv_world := guest_try api vm s_refresh_script
                 (guest_try api vm (snprintf_buf 512 (fmt s_skip [tag, tag])) (lv_world s))\<rparr>))"

section \<open>Mount status\<close>

text \<open>
  The scan of the output for one mount point: at every line the blanks are skipped, the line ends at
  the next newline or at the end of the text, and the mount point must be followed by a blank or end
  the line.
\<close>

function mounted_in :: "string \<Rightarrow> string \<Rightarrow> bool" where
  "mounted_in expected out =
     (if out = [] then False
      else
       (let line = dropWhile blank out;
            eol = strchr line LF;
            linelen = (case eol of None \<Rightarrow> length line | Some e \<Rightarrow> length line - length e)
        in if length expected \<le> linelen \<and> take (length expected) line = expected \<and>
              (case drop (length expected) line of [] \<Rightarrow> True | c # _ \<Rightarrow> blank c \<or> c = LF)
           then True
           else (case eol of None \<Rightarrow> False | Some e \<Rightarrow> mounted_in expected (tl e))))"
  by auto
termination
proof (relation "measure (\<lambda>(_, out). length out)", goal_cases)
  case (2 expected out line eol linelen e)
  from 2 have "strchr (dropWhile blank out) LF = Some e" by simp
  then obtain p where "dropWhile blank out = p @ LF # tl e" by (metis strchr_SomeD list.sel(3))
  then have "length (tl e) < length (dropWhile blank out)" by simp
  also have "\<dots> \<le> length out" by (rule length_dropWhile_le)
  finally show ?case by simp
qed simp

declare mounted_in.simps [simp del]

definition mark_mounted :: "string \<Rightarrow> shared_folder \<Rightarrow> shared_folder" where
  "mark_mounted out f =
     f\<lparr>sf_mounted := (if mounted_in (snprintf_buf 512 (''/media/'' @ sf_mount_tag f)) out then 1 else 0)\<rparr>"

definition lv_check_mount_status ::
  "'w lv_api \<Rightarrow> string \<Rightarrow> shared_folder list \<Rightarrow> 'w lv_state \<Rightarrow> shared_folder list \<times> 'w lv_state" where
  "lv_check_mount_status api vm folders s =
     (if folders = [] \<or> \<not> lv_lookup_domain api vm s then (folders, s)
      else if \<not> vm_running api vm s then (map (\<lambda>f. f\<lparr>sf_mounted := - 1\<rparr>) folders, s)
      else (case guest_exec api vm s_findmnt (lv_world s) of
              ((rc, out), w) \<Rightarrow>
                (if rc \<noteq> 0 then map (\<lambda>f. f\<lparr>sf_mounted := - 1\<rparr>) folders
                 else map (mark_mounted out) folders,
                 s\<lparr>lv_world := w\<rparr>)))"

section \<open>Properties\<close>

text \<open>C34: Quoting of guest commands. The JSON text that carries a command to the agent is not cut
  off, whatever the length of the command, and a reader of JSON strings that starts at the argument
  gets exactly the command back and goes on with the rest of the request; the command may hold every
  byte except the control characters that the program's escaping leaves alone.\<close>

theorem guest_command_roundtrip:
  assumes "\<forall>c\<in>set command. json_control c \<longrightarrow> json_special c"
  shows \<open>\<exists>rest. guest_exec_json command =
      ''{"execute":"guest-exec","arguments":{"path":"/usr/bin/bash","arg":["-c","'' @ rest \<and>
    json_read_string rest =
      Some (command, ''],"env":["PATH=/usr/sbin:/usr/bin:/sbin:/bin"],"capture-output":true}}'')\<close>
proof -
  let ?post = \<open>''],"env":["PATH=/usr/sbin:/usr/bin:/sbin:/bin"],"capture-output":true}}''\<close>
  let ?pre = \<open>''{"execute":"guest-exec","arguments":{"path":"/usr/bin/bash","arg":["-c","''\<close>
  have "guest_exec_json command = ?pre @ json_escape_loop command @ DQUOTE # ?post"
    by (simp add: guest_exec_json_def s_guest_exec_def json_escape_def snprintf_buf_def)
  moreover have "json_read_string (json_escape_loop command @ DQUOTE # ?post) = Some (command, ?post)"
    using assms by (subst json_read_escape) auto
  ultimately show ?thesis by auto
qed

theorem guest_command_roundtrip_witness:
  \<open>\<exists>rest. guest_exec_json (mount_command ''docs'' ''9p'') =
      ''{"execute":"guest-exec","arguments":{"path":"/usr/bin/bash","arg":["-c","'' @ rest \<and>
    json_read_string rest =
      Some (mount_command ''docs'' ''9p'',
        ''],"env":["PATH=/usr/sbin:/usr/bin:/sbin:/bin"],"capture-output":true}}'')\<close>
  by (rule guest_command_roundtrip) (simp add: mount_command_def s_mount_9p_def snprintf_buf_def json_control_def)

text \<open>A guest whose agent counts the calls; \<open>status\<close> is its answer to the question for a command.\<close>

definition demo_guest :: "json \<Rightarrow> nat lv_api" where
  \<open>demo_guest status = demo_api
     \<lparr>api_info := (\<lambda>_ _. Some (VIR_DOMAIN_RUNNING, 1, 1024)),
      api_agent_command := (\<lambda>_ c _ w.
        (Some (if prefix ''{"execute":"guest-exec-status"'' c then ''status'' else ''pid''), w + 1)),
      api_json_loads := (\<lambda>t. Some (JObject [(''return'',
        if t = ''pid'' then JObject [(''pid'', JInt 7)] else status)]))\<rparr>\<close>

lemma demo_guest_exec:
  "guest_exec (demo_guest status) vm c w =
     (case guest_poll (demo_guest status) vm 7 10 (w + 1) of
        (Poll_failed m, w2) \<Rightarrow> ((- 1, m), w2)
      | (Poll_running, w2) \<Rightarrow> ((- 1, ''Command still running in guest''), w2)
      | (Poll_exited ret, w2) \<Rightarrow> (exited_result ret, w2))"
  by (simp add: guest_exec_def demo_guest_def guest_exec_json_def s_guest_exec_def snprintf_buf_def Let_def
      json_get_def json_object_get_def int_of_json_def json_integer_value_def signed_take_bit_31_id
      del: guest_poll.simps)

definition demo_guest_state :: "nat lv_state" where
  "demo_guest_state = \<lparr>lv_conn = True, lv_last_error = [], lv_world = 0\<rparr>"

definition demo_docs :: shared_folder where
  "demo_docs = \<lparr>sf_source_dir = ''/srv/docs'', sf_mount_tag = ''docs'', sf_fs_type = ''virtiofs'',
     sf_read_only = False, sf_mounted = 0, sf_needs_restart = False\<rparr>"

definition demo_findmnt :: json where
  "demo_findmnt = JObject [(''exited'', JBool True), (''exitcode'', JInt 0),
     (''out-data'', JString ''L21lZGlhL2RvY3MgdmlydGlvZnMK'')]"

definition line_shows :: "string \<Rightarrow> string \<Rightarrow> bool" where
  "line_shows e l \<longleftrightarrow>
     (let line = dropWhile blank l in
      prefix e line \<and> (case drop (length e) line of [] \<Rightarrow> True | c # _ \<Rightarrow> blank c))"

lemma prefix_take: "prefix e l \<longleftrightarrow> length e \<le> length l \<and> take (length e) l = e"
  by (auto simp: prefix_def) (metis append_take_drop_id)

lemma mounted_in_line:
  assumes "LF \<notin> set l"
  shows "mounted_in e (l @ LF # out) \<longleftrightarrow> line_shows e l \<or> mounted_in e out"
proof -
  let ?l = "dropWhile blank l"
  have lf: "LF \<notin> set ?l" using assms by (meson set_dropWhileD)
  have d: "dropWhile blank (l @ LF # out) = ?l @ LF # out"
    by (simp add: dropWhile_append blank_def dropWhile_eq_Nil_conv)
  have s: "strchr (?l @ LF # out) LF = Some (LF # out)" using strchr_first[OF lf] .
  have "(case drop (length e) (?l @ LF # out) of [] \<Rightarrow> True | c # _ \<Rightarrow> blank c \<or> c = LF) =
      (case drop (length e) ?l of [] \<Rightarrow> True | c # _ \<Rightarrow> blank c)" if "length e \<le> length ?l"
    using that lf by (auto split: list.split dest: in_set_dropD) (metis in_set_dropD list.set_intros(1))
  then show ?thesis
    by (subst mounted_in.simps) (auto simp: d s line_shows_def prefix_take Let_def)
qed

lemma mounted_in_last:
  assumes "LF \<notin> set l" "e \<noteq> []"
  shows "mounted_in e l \<longleftrightarrow> line_shows e l"
proof -
  let ?l = "dropWhile blank l"
  have lf: "LF \<notin> set ?l" using assms(1) by (meson set_dropWhileD)
  then have "(case drop (length e) ?l of [] \<Rightarrow> True | c # _ \<Rightarrow> blank c \<or> c = LF) =
      (case drop (length e) ?l of [] \<Rightarrow> True | c # _ \<Rightarrow> blank c)"
    by (auto split: list.split) (metis in_set_dropD list.set_intros(1))
  then show ?thesis
    using assms(2) strchr_None_iff[of ?l LF] lf
    by (subst mounted_in.simps) (auto simp: line_shows_def prefix_take Let_def)
qed

lemma mounted_in_lines:
  assumes "e \<noteq> []"
  shows "mounted_in e out \<longleftrightarrow> (\<exists>l\<in>set (split_on LF out). line_shows e l)"
proof (induction out rule: measure_induct_rule[of length])
  case (less out)
  show ?case
  proof (cases "LF \<in> set out")
    case True
    then obtain l r where "out = l @ LF # r" "LF \<notin> set l" by (meson split_list_first)
    with less assms show ?thesis by (auto simp: mounted_in_line split_on_append_sep)
  next
    case False
    with assms show ?thesis by (auto simp: mounted_in_last split_on_no_sep)
  qed
qed

text \<open>C33: mount status. When the machine runs and findmnt succeeds in the guest, a folder is
  marked as mounted exactly when, in some line of the output, the text after the leading blanks begins
  with the folder's mount point under /media (cut to the 511 bytes of its buffer) and a blank or the
  end of the line follows it. This holds for every output and every tag, also for tags with blanks;
  a longer path, or the mount point elsewhere in a line, does not count.\<close>

theorem mount_status_reads_findmnt:
  assumes "lv_lookup_domain api vm s" "vm_running api vm s"
    and "guest_exec api vm s_findmnt (lv_world s) = ((0, out), w)"
  shows "fst (lv_check_mount_status api vm folders s) =
    map (\<lambda>f. f\<lparr>sf_mounted :=
      if \<exists>l\<in>set (split_on LF out). line_shows (take 511 (''/media/'' @ sf_mount_tag f)) l then 1 else 0\<rparr>) folders"
  using assms
  by (auto simp: lv_check_mount_status_def mark_mounted_def snprintf_buf_def mounted_in_lines)

theorem mount_status_reads_findmnt_witness:
  "fst (lv_check_mount_status (demo_guest demo_findmnt) ''vm''
      [demo_docs, demo_docs\<lparr>sf_mount_tag := ''doc''\<rparr>] demo_guest_state) =
    [demo_docs\<lparr>sf_mounted := 1\<rparr>, demo_docs\<lparr>sf_mount_tag := ''doc'', sf_mounted := 0\<rparr>]"
proof -
  have e: "guest_exec (demo_guest demo_findmnt) ''vm'' s_findmnt (lv_world demo_guest_state) =
      ((0, ''/media/docs virtiofs'' @ [LF]), 2)"
    by code_simp
  show ?thesis
    by (subst mount_status_reads_findmnt[OF _ _ e])
      (simp_all add: demo_guest_def demo_guest_state_def demo_docs_def demo_api_def lv_lookup_domain_def
        vm_running_def blank_def line_shows_def)
qed

section \<open>Agent traffic\<close>

text \<open>Any measure that a call of the agent raises by at most one: a command costs at most eleven calls.\<close>

lemma guest_poll_traffic:
  assumes "\<And>c t w. f (snd (api_agent_command api vm c t w)) \<le> f w + (1::nat)"
  shows "guest_poll api vm pid k w = (r, w') \<Longrightarrow> f w' \<le> f w + k"
proof (induction k arbitrary: w)
  case (Suc k)
  obtain a w1 where c: "api_agent_command api vm (guest_status_json pid) 30 w = (a, w1)" by fastforce
  then have "f w1 \<le> f w + 1" using assms[of "guest_status_json pid" 30 w] by simp
  with Suc c show ?case by (fastforce split: option.splits if_splits)
qed simp

lemma guest_exec_traffic:
  assumes "\<And>c t w. f (snd (api_agent_command api vm c t w)) \<le> f w + (1::nat)"
  shows "guest_exec api vm c w = (r, w') \<Longrightarrow> f w' \<le> f w + 11"
proof -
  assume e: "guest_exec api vm c w = (r, w')"
  obtain a w1 where c: "api_agent_command api vm (guest_exec_json c) 30 w = (a, w1)" by fastforce
  then have "f w1 \<le> f w + 1" using assms[of "guest_exec_json c" 30 w] by simp
  with e c guest_poll_traffic[of f api vm _ 10 w1, OF assms] show ?thesis
    by (fastforce simp: guest_exec_def Let_def split: option.splits if_splits prod.splits poll_result.splits)
qed

end
