(* ===== verification/Libvirt_Folders.thy ===== *)
theory Libvirt_Folders
  imports Libvirt_Agent
begin

text \<open>
  src/libvirt_backend.c: the shared folders of a domain, listed from its XML description, added and
  removed as \<open>filesystem\<close> devices, and the memory setting that virtiofs needs.
\<close>

section \<open>The filesystem elements of a description\<close>

lemma strstr_rest_shorter [termination_simp]:
  "strstr s p = Some q \<Longrightarrow> strstr q e = Some r \<Longrightarrow> p \<noteq> [] \<Longrightarrow> length r - 1 < length s"
  using strstr_length[of q e r] strstr_length[of s p q] by (cases q) (auto dest!: strstr_SomeD[of s])

text \<open>
  The scan shared by the list and the removal: each block begins at the next \<open>filesystem\<close> tag and
  ends before the next end tag; the scan goes on one byte into that end tag.
\<close>

function fs_blocks :: "string \<Rightarrow> string list" where
  "fs_blocks pos =
     (case strstr pos ''<filesystem'' of
        None \<Rightarrow> []
      | Some p \<Rightarrow>
         (case strstr p ''</filesystem>'' of
            None \<Rightarrow> []
          | Some fs_end \<Rightarrow> before p fs_end # fs_blocks (drop 1 fs_end)))"
  by auto
termination
  by (relation "measure length") (auto dest: strstr_rest_shorter)

declare fs_blocks.simps [simp del]

section \<open>Listing\<close>

text \<open>Source directory, mount tag, file-system type and read-only flag of a block.\<close>

definition folder_of_block :: "string \<Rightarrow> (string \<times> string \<times> string \<times> bool) option" where
  "folder_of_block block =
     (let is_virtiofs = strstr block ''virtiofs'' \<noteq> None;
          is_9p = strstr block ''9p'' \<noteq> None \<or> strstr block (SQUOTE # ''path'' @ [SQUOTE]) \<noteq> None
      in if is_virtiofs \<or> is_9p
         then (case (extract_xml_attr block ''source'' ''dir'', extract_xml_attr block ''target'' ''dir'') of
                 (Some source, Some target) \<Rightarrow>
                   Some (source, target, if is_virtiofs then ''virtiofs'' else ''9p'',
                         strstr block ''readonly'' \<noteq> None)
               | _ \<Rightarrow> None)
         else None)"

text \<open>
  The array has four zeroed elements at first; the elements it grows by are not zeroed, and the
  program sets only four of their six fields.
\<close>

definition new_folder :: "'w lv_api \<Rightarrow> nat \<Rightarrow> string \<times> string \<times> string \<times> bool \<Rightarrow> shared_folder" where
  "new_folder api n f =
     (let (mounted, needs_restart) = (if n < 4 then (0, False) else api_uninit api n) in
      \<lparr>sf_source_dir = fst f, sf_mount_tag = fst (snd f), sf_fs_type = fst (snd (snd f)),
       sf_read_only = snd (snd (snd f)), sf_mounted = mounted, sf_needs_restart = needs_restart\<rparr>)"

definition listed_folders :: "'w lv_api \<Rightarrow> string \<Rightarrow> shared_folder list" where
  "listed_folders api xml =
     (let fs = List.map_filter folder_of_block (fs_blocks xml)
      in map (\<lambda>(n, f). new_folder api n f) (zip [0..<length fs] fs))"

definition mark_pending :: "string \<Rightarrow> shared_folder \<Rightarrow> shared_folder" where
  "mark_pending live_xml f =
     (if strstr live_xml (snprintf_buf 256 (''dir='' @ SQUOTE # sf_mount_tag f @ [SQUOTE])) = None
      then f\<lparr>sf_needs_restart := True\<rparr> else f)"

definition vm_active :: "'w lv_api \<Rightarrow> string \<Rightarrow> 'w lv_state \<Rightarrow> bool" where
  "vm_active api vm s \<longleftrightarrow>
     api_state api (lv_world s) vm \<in> {Some VIR_DOMAIN_RUNNING, Some VIR_DOMAIN_PAUSED}"

definition lv_list_shared_folders :: "'w lv_api \<Rightarrow> string \<Rightarrow> 'w lv_state \<Rightarrow> shared_folder list option" where
  "lv_list_shared_folders api vm s =
     (if \<not> lv_lookup_domain api vm s then None
      else (case api_domain_xml api (lv_world s) vm of
        None \<Rightarrow> None
      | Some xml \<Rightarrow>
         (let folders = listed_folders api xml in
          Some (if vm_active api vm s
                then (case api_live_xml api (lv_world s) vm of
                        None \<Rightarrow> folders
                      | Some live_xml \<Rightarrow> map (mark_pending live_xml) folders)
                else folders))))"

section \<open>Shared memory\<close>

definition has_shared_memory :: "string \<Rightarrow> bool" where
  "has_shared_memory xml \<longleftrightarrow> strstr xml (''<access mode='' @ SQUOTE # ''shared'' @ [SQUOTE]) \<noteq> None"

text \<open>\<open>None\<close> when the description has no end of the \<open>domain\<close> element.\<close>

definition shared_memory_xml :: "string \<Rightarrow> string option" where
  "shared_memory_xml domxml =
     (case strstr domxml ''</domain>'' of
        None \<Rightarrow> None
      | Some p \<Rightarrow> Some (before domxml p @ ''  '' @ s_memory_backing @ p))"

definition lv_enable_shared_memory :: "'w lv_api \<Rightarrow> string \<Rightarrow> 'w lv_state \<Rightarrow> int \<times> 'w lv_state" where
  "lv_enable_shared_memory api vm s =
     (if \<not> lv_lookup_domain api vm s then (- 1, s)
      else (case api_domain_xml api (lv_world s) vm of
        None \<Rightarrow> (- 1, s)
      | Some domxml \<Rightarrow>
          if has_shared_memory domxml then (0, s)
          else (case shared_memory_xml domxml of
            None \<Rightarrow> (- 1, s)
          | Some newxml \<Rightarrow>
             (case api_define_xml api newxml (lv_world s) of
                (True, w) \<Rightarrow> (0, s\<lparr>lv_world := w\<rparr>)
              | (False, w) \<Rightarrow>
                  (- 1, set_lv_error (fmt ''Failed to enable shared memory: %s''
                          [case api_last_error api w of None \<Rightarrow> ''unknown'' | Some m \<Rightarrow> m])
                        (s\<lparr>lv_world := w\<rparr>))))))"

section \<open>Adding\<close>

definition folder_xml :: "string \<Rightarrow> string \<Rightarrow> string \<Rightarrow> bool \<Rightarrow> string" where
  "folder_xml fs_type source tag read_only =
     snprintf_buf 2048
       (fmt (if fs_type = ''9p'' then s_fs_9p else s_fs_virtiofs)
          [source, tag, if read_only then ''  <readonly/>'' @ [LF] else []])"

text \<open>
  How the device is attached: the flags, and whether the domain has to be restarted, which it has
  when virtiofs meets a running domain without shared memory.
\<close>

definition attach_mode :: "'w lv_api \<Rightarrow> string \<Rightarrow> string \<Rightarrow> 'w lv_state \<Rightarrow> affect_flag list \<times> bool" where
  "attach_mode api vm fs_type s =
     (if \<not> vm_active api vm s then ([VIR_DOMAIN_AFFECT_CONFIG], False)
      else if fs_type = ''9p'' then ([VIR_DOMAIN_AFFECT_LIVE, VIR_DOMAIN_AFFECT_CONFIG], False)
      else (case api_live_xml api (lv_world s) vm of
        None \<Rightarrow> ([VIR_DOMAIN_AFFECT_LIVE, VIR_DOMAIN_AFFECT_CONFIG], False)
      | Some livexml \<Rightarrow>
          if has_shared_memory livexml then ([VIR_DOMAIN_AFFECT_LIVE, VIR_DOMAIN_AFFECT_CONFIG], False)
          else ([VIR_DOMAIN_AFFECT_CONFIG], True)))"

definition mount_now_command :: "string \<Rightarrow> string \<Rightarrow> string" where
  "mount_now_command fs_type tag =
     snprintf_buf 1024
       (fmt s_mount_now [tag, if fs_type = ''9p'' then ''9p'' else ''virtiofs'', tag, tag])"

text \<open>\<open>-2\<close> asks for shared memory, \<open>1\<close> says that the domain has to be restarted.\<close>

definition lv_add_shared_folder ::
  "'w lv_api \<Rightarrow> string \<Rightarrow> string \<Rightarrow> string \<Rightarrow> bool \<Rightarrow> string \<Rightarrow> 'w lv_state \<Rightarrow> int \<times> 'w lv_state" where
  "lv_add_shared_folder api vm source tag read_only fs_type s =
     (if \<not> lv_lookup_domain api vm s then (- 1, s)
      else if fs_type \<noteq> ''9p'' \<and>
        (case api_domain_xml api (lv_world s) vm of
           None \<Rightarrow> False | Some domxml \<Rightarrow> \<not> has_shared_memory domxml)
      then (- 2, set_lv_error ''VirtioFS requires shared memory to be enabled on this VM'' s)
      else
       (case attach_mode api vm fs_type s of (flags, needs_restart) \<Rightarrow>
         (case api_attach_device api vm (folder_xml fs_type source tag read_only) flags (lv_world s) of (ret, w) \<Rightarrow>
           (if ret \<noteq> 0
            then (ret, set_lv_error (case api_last_error api w of None \<Rightarrow> ''unknown error'' | Some m \<Rightarrow> m)
                         (s\<lparr>lv_world := w\<rparr>))
            else
             (let s1 = s\<lparr>lv_world := w, lv_last_error := []\<rparr> in
              if needs_restart then (1, s1)
              else if VIR_DOMAIN_AFFECT_LIVE \<in> set flags
              then (0, s1\<lparr>lv_world := guest_try api vm (mount_now_command fs_type tag) w\<rparr>)
              else (0, s1))))))"

section \<open>Removing\<close>

text \<open>The test of a block: the tag as a \<open>dir\<close> attribute at or after the first \<open>target\<close> element.\<close>

definition block_has_tag :: "string \<Rightarrow> string \<Rightarrow> bool" where
  "block_has_tag tag block =
     (case strstr block ''<target '' of
        None \<Rightarrow> False
      | Some t \<Rightarrow>
          strstr t (snprintf_buf 256 (''dir='' @ SQUOTE # tag @ [SQUOTE])) \<noteq> None \<or>
          strstr t (snprintf_buf 256 (''dir='' @ DQUOTE # tag @ [DQUOTE])) \<noteq> None)"

definition find_fs_xml :: "string \<Rightarrow> string \<Rightarrow> string option" where
  "find_fs_xml tag xml =
     find (block_has_tag tag) (map (\<lambda>b. b @ ''</filesystem>'') (fs_blocks xml))"

definition lv_remove_shared_folder :: "'w lv_api \<Rightarrow> string \<Rightarrow> string \<Rightarrow> 'w lv_state \<Rightarrow> int \<times> 'w lv_state" where
  "lv_remove_shared_folder api vm tag s =
     (if \<not> lv_lookup_domain api vm s then (- 1, s)
      else (case Option.bind (api_live_xml api (lv_world s) vm) (find_fs_xml tag) of
        None \<Rightarrow> (- 1, s)
      | Some fs_xml \<Rightarrow>
         (let (flags, w) =
            (if vm_active api vm s
             then ([VIR_DOMAIN_AFFECT_LIVE, VIR_DOMAIN_AFFECT_CONFIG],
                   guest_try api vm (snprintf_buf 512 (fmt s_umount_forget [tag, tag])) (lv_world s))
             else ([VIR_DOMAIN_AFFECT_CONFIG], lv_world s))
          in case api_detach_device api vm fs_xml flags w of
               (ret, w1) \<Rightarrow> (if ret \<noteq> 0 then - 1 else 0, s\<lparr>lv_world := w1\<rparr>))))"

section \<open>Reading back what was written\<close>

text \<open>A folder as the user gives it: source directory, mount tag, type and read-only flag.\<close>

type_synonym folder_spec = "string \<times> string \<times> string \<times> bool"

definition folder_element :: "folder_spec \<Rightarrow> string" where
  "folder_element f = (case f of (source, tag, fs_type, read_only) \<Rightarrow> folder_xml fs_type source tag read_only)"

text \<open>Texts that stay inside their attribute, and an element that fits its buffer.\<close>

definition folder_plain :: "folder_spec \<Rightarrow> bool" where
  "folder_plain f =
     (case f of (source, tag, _, _) \<Rightarrow>
        SQUOTE \<notin> set source \<and> CHR ''<'' \<notin> set source \<and> SQUOTE \<notin> set tag \<and> CHR ''<'' \<notin> set tag \<and>
        length source + length tag < 1800)"

definition has_word :: "string \<Rightarrow> folder_spec \<Rightarrow> bool" where
  "has_word p f = (case f of (source, tag, _, _) \<Rightarrow> strstr source p \<noteq> None \<or> strstr tag p \<noteq> None)"

definition read_back :: "folder_spec \<Rightarrow> folder_spec" where
  "read_back f =
     (case f of (source, tag, fs_type, read_only) \<Rightarrow>
        (source, tag, if fs_type \<noteq> ''9p'' \<or> has_word ''virtiofs'' f then ''virtiofs'' else ''9p'',
         read_only \<or> has_word ''readonly'' f))"

definition folder_body :: "folder_spec \<Rightarrow> string" where
  "folder_body f =
     (case f of (source, tag, fs_type, read_only) \<Rightarrow>
       (if fs_type = ''9p''
        then ''<filesystem type='' @ SQUOTE # ''mount'' @ SQUOTE # '' accessmode='' @ SQUOTE # ''mapped'' @
          SQUOTE # ''>'' @ [LF] @ ''  <driver type='' @ SQUOTE # ''path'' @ SQUOTE # '' wrpolicy='' @
          SQUOTE # ''immediate'' @ SQUOTE # ''/>'' @ [LF]
        else ''<filesystem type='' @ SQUOTE # ''mount'' @ SQUOTE # '' accessmode='' @ SQUOTE #
          ''passthrough'' @ SQUOTE # ''>'' @ [LF] @ ''  <driver type='' @ SQUOTE # ''virtiofs'' @ SQUOTE #
          ''/>'' @ [LF]) @
       ''  <source dir='' @ SQUOTE # source @ SQUOTE # ''/>'' @ [LF] @
       ''  <target dir='' @ SQUOTE # tag @ SQUOTE # ''/>'' @ [LF] @
       (if read_only then ''  <readonly/>'' @ [LF] else []))"

lemma folder_element_body: "folder_plain f \<Longrightarrow> folder_element f = folder_body f @ ''</filesystem>''"
  by (cases f) (simp add: folder_plain_def folder_element_def folder_body_def folder_xml_def s_fs_9p_def
      s_fs_virtiofs_def snprintf_buf_fits)

lemma body_source: "folder_plain (src, tag, fs, ro) \<Longrightarrow>
    extract_xml_attr (folder_body (src, tag, fs, ro)) ''source'' ''dir'' = Some src"
  by (simp add: folder_body_def folder_plain_def extract_xml_attr_def snprintf_buf_def before_def strchr_first)

lemma body_target: "folder_plain (src, tag, fs, ro) \<Longrightarrow>
    extract_xml_attr (folder_body (src, tag, fs, ro)) ''target'' ''dir'' = Some tag"
  by (simp add: folder_body_def folder_plain_def extract_xml_attr_def snprintf_buf_def before_def strchr_first
      strstr_skip)

lemma body_virtiofs:
    "strstr (folder_body (src, tag, fs, ro)) ''virtiofs'' = None \<longleftrightarrow>
      fs = ''9p'' \<and> strstr src ''virtiofs'' = None \<and> strstr tag ''virtiofs'' = None"
  by (simp add: folder_body_def strstr_separated)

lemma body_readonly:
    "strstr (folder_body (src, tag, fs, ro)) ''readonly'' = None \<longleftrightarrow>
      \<not> ro \<and> strstr src ''readonly'' = None \<and> strstr tag ''readonly'' = None"
  by (simp add: folder_body_def strstr_separated)

lemma body_path: "strstr (folder_body (src, tag, ''9p'', ro)) (SQUOTE # ''path'' @ [SQUOTE]) \<noteq> None"
  by (simp add: folder_body_def)

lemma folder_block_read:
  assumes "folder_plain f"
  shows "folder_of_block (folder_body f) = Some (read_back f)"
proof -
  obtain src tag fs ro where f: "f = (src, tag, fs, ro)" by (metis surj_pair)
  show ?thesis
    using body_source[OF assms[unfolded f]] body_target[OF assms[unfolded f]] body_path[of src tag ro]
    by (auto simp: f folder_of_block_def Let_def body_virtiofs body_readonly read_back_def has_word_def)
qed

lemma folder_body_no_end: "folder_plain f \<Longrightarrow> strstr (folder_body f @ ''</filesystem>'' @ r) ''</filesystem>'' =
    Some (''</filesystem>'' @ r)"
  by (cases f) (simp add: folder_body_def folder_plain_def strstr_skip)

lemma folder_body_start: "\<exists>r. folder_body f = ''<filesystem'' @ r"
  by (cases f) (simp add: folder_body_def)

lemma strstr_filesystem: 
  assumes "strstr gap ''<filesystem'' = None"
  shows "strstr (gap @ ''<filesystem'' @ r) ''<filesystem'' = Some (''<filesystem'' @ r)"
  using strstr_at[of "CHR ''<''" "''filesystem''" gap r] assms by (simp add: strstr_None_iff)

text \<open>A description that holds the elements of folders between texts without such elements.\<close>

definition folders_text :: "(string \<times> folder_spec) list \<Rightarrow> string \<Rightarrow> string" where
  "folders_text fs rest = concat (map (\<lambda>(gap, f). gap @ folder_element f) fs) @ rest"

definition folders_plain :: "(string \<times> folder_spec) list \<Rightarrow> string \<Rightarrow> bool" where
  "folders_plain fs rest \<longleftrightarrow> (\<forall>(gap, f)\<in>set fs. strstr gap ''<filesystem'' = None \<and> folder_plain f) \<and>
     strstr rest ''<filesystem'' = None"

lemma fs_blocks_skip: "CHR ''<'' \<notin> set p \<Longrightarrow> fs_blocks (p @ s) = fs_blocks s"
  by (subst (1 2) fs_blocks.simps) (simp add: strstr_skip)

lemma fs_blocks_text:
  "folders_plain fs rest \<Longrightarrow> fs_blocks (folders_text fs rest) = map (\<lambda>(_, f). folder_body f) fs"
proof (induction fs)
  case Nil
  then show ?case by (subst fs_blocks.simps) (simp add: folders_text_def folders_plain_def)
next
  case (Cons x fs)
  obtain gap f where x: "x = (gap, f)" by (cases x)
  have g: "strstr gap ''<filesystem'' = None" and f: "folder_plain f" and fs: "folders_plain fs rest"
    using Cons.prems by (auto simp: x folders_plain_def)
  obtain r where r: "folder_body f = ''<filesystem'' @ r" using folder_body_start by blast
  have e: "folders_text (x # fs) rest = gap @ folder_body f @ ''</filesystem>'' @ folders_text fs rest"
    by (simp add: folders_text_def x folder_element_body[OF f])
  have "strstr (folders_text (x # fs) rest) ''<filesystem'' = Some (folder_body f @ ''</filesystem>'' @ folders_text fs rest)"
    using strstr_filesystem[OF g, of "r @ ''</filesystem>'' @ folders_text fs rest"] by (simp add: e r)
  then have "fs_blocks (folders_text (x # fs) rest) =
      folder_body f # fs_blocks (drop 1 (''</filesystem>'' @ folders_text fs rest))"
    by (subst fs_blocks.simps)
      (simp only: folder_body_no_end[OF f] before_append option.case)
  also have "drop 1 (''</filesystem>'' @ folders_text fs rest) = ''/filesystem>'' @ folders_text fs rest" by simp
  finally show ?case using Cons.IH[OF fs] fs_blocks_skip[of "''/filesystem>''" "folders_text fs rest"] by (simp add: x)
qed

definition folder_fields :: "shared_folder \<Rightarrow> folder_spec" where
  "folder_fields f = (sf_source_dir f, sf_mount_tag f, sf_fs_type f, sf_read_only f)"

lemma fields_mark_pending [simp]: "folder_fields (mark_pending x f) = folder_fields f"
  by (simp add: mark_pending_def folder_fields_def)

lemma fields_new_folder [simp]: "folder_fields (new_folder api n f) = f"
  by (simp add: new_folder_def folder_fields_def Let_def split: prod.split)

lemma map_filter_total: "(\<And>x. x \<in> set xs \<Longrightarrow> g x = Some (h x)) \<Longrightarrow> List.map_filter g xs = map h xs"
  by (induction xs) (auto simp: List.map_filter_simps)

lemma map_filter_map: "List.map_filter g (map h xs) = List.map_filter (\<lambda>x. g (h x)) xs"
  by (induction xs) (auto simp: List.map_filter_simps split: option.split)

lemma listed_folders_fields:
  "map folder_fields (listed_folders api xml) = List.map_filter folder_of_block (fs_blocks xml)"
proof -
  let ?fs = "List.map_filter folder_of_block (fs_blocks xml)"
  have "map folder_fields (listed_folders api xml) = map snd (zip [0..<length ?fs] ?fs)"
    by (simp add: listed_folders_def Let_def case_prod_beta comp_def)
  also have "\<dots> = ?fs" by simp
  finally show ?thesis .
qed

lemma listed_text:
  assumes "folders_plain fs rest"
  shows "map folder_fields (listed_folders api (folders_text fs rest)) = map (\<lambda>(_, f). read_back f) fs"
proof -
  have "folder_of_block (folder_body (snd x)) = Some (read_back (snd x))" if "x \<in> set fs" for x
    by (rule folder_block_read) (use assms that in \<open>auto simp: folders_plain_def\<close>)
  then have "List.map_filter (\<lambda>x. folder_of_block (folder_body (snd x))) fs = map (\<lambda>x. read_back (snd x)) fs"
    by (intro map_filter_total)
  then show ?thesis
    by (simp add: listed_folders_fields fs_blocks_text[OF assms] map_filter_map case_prod_beta)
qed

text \<open>C13: the list of shared folders reads back what was written. Take folders whose source and
  tag hold neither a single quote nor an opening angle bracket and are together shorter than 1800
  bytes, so that the element that \<open>lv_add_shared_folder\<close> writes for them fits its buffer. In a
  description that holds the elements of such folders, in any number and between texts in which no
  filesystem element begins, \<open>lv_list_shared_folders\<close> finds exactly those folders in order, each with
  its source, its tag, its type (9p, or virtiofs for everything else) and its read-only flag; except that
  the words virtiofs and readonly in a source or a tag are taken for the type and for the flag.\<close>

theorem shared_folders_read_back:
  assumes "lv_lookup_domain api vm s" "folders_plain fs rest"
    and "api_domain_xml api (lv_world s) vm = Some (folders_text fs rest)"
  shows "map_option (map folder_fields) (lv_list_shared_folders api vm s) = Some (map (\<lambda>(_, f). read_back f) fs)"
  using assms listed_text[OF assms(2), of api]
  by (auto simp: lv_list_shared_folders_def Let_def comp_def split: option.split)

theorem shared_folders_read_back_witness:
  "map_option (map folder_fields) (lv_list_shared_folders
      (demo_api\<lparr>api_domain_xml := \<lambda>_ _. Some (folders_text
         [(''<domain>'', ''/srv/docs'', ''docs'', ''9p'', True), ([], ''/srv/virtiofs'', ''v'', ''9p'', False)]
         ''</domain>'')\<rparr>) ''vm'' demo_lv) =
    Some [(''/srv/docs'', ''docs'', ''9p'', True), (''/srv/virtiofs'', ''v'', ''virtiofs'', False)]"
  by (subst shared_folders_read_back)
    (auto simp: demo_api_def demo_lv_def lv_lookup_domain_def folders_plain_def folder_plain_def
      read_back_def has_word_def)

lemma split_at_first: "xs @ q # ys = xs' @ q # ys' \<Longrightarrow> q \<notin> set xs \<Longrightarrow> q \<notin> set xs' \<Longrightarrow> xs = xs' \<and> ys = ys'"
proof (induction xs arbitrary: xs')
  case Nil
  then show ?case by (cases xs') auto
next
  case (Cons x xs)
  then show ?case by (cases xs') auto
qed

text \<open>Two quotes of a pattern can only meet the two quotes of a text.\<close>

lemma quoted_sublist:
  assumes "sublist (a @ q # b @ [q]) (x @ q # y @ q # z)"
    and "q \<notin> set a" "q \<notin> set b" "q \<notin> set x" "q \<notin> set y" "q \<notin> set z"
  shows "b = y"
proof -
  from assms(1) obtain ps ss where e: "x @ q # y @ q # z = (ps @ a) @ q # b @ q # ss"
    by (auto simp: sublist_def)
  have "count_list (x @ q # y @ q # z) q = 2"
    using assms(4-6) by (simp add: count_notin)
  then have "count_list ps q = 0" unfolding e using assms(2,3) by (simp add: count_notin)
  then have "q \<notin> set (ps @ a)" using assms(2) by (simp add: count_list_0_iff)
  from split_at_first[OF e assms(4) this] have "y @ q # z = b @ q # ss" by simp
  from split_at_first[OF this assms(5,3)] show ?thesis by simp
qed

lemma block_has_tag_iff:
  assumes "folder_plain (src, tag', fs, ro)" "DQUOTE \<notin> set tag'" "length tag < 250" "SQUOTE \<notin> set tag"
  shows "block_has_tag tag (folder_element (src, tag', fs, ro)) \<longleftrightarrow> tag = tag'"
proof -
  let ?z = "''/>'' @ [LF] @ (if ro then ''  <readonly/>'' @ [LF] else []) @ ''</filesystem>''"
  let ?t = "''<target dir='' @ SQUOTE # tag' @ SQUOTE # ?z"
  have t: "strstr (folder_element (src, tag', fs, ro)) ''<target '' = Some ?t"
    using assms(1) unfolding folder_element_body[OF assms(1)]
    by (simp add: folder_body_def folder_plain_def strstr_skip)
  have "strstr ?t (''dir='' @ DQUOTE # tag @ [DQUOTE]) = None"
  proof -
    have "DQUOTE \<notin> set ?t" using assms(2) by simp
    then show ?thesis by (auto simp: strstr_None_iff simp del: append.simps dest!: set_mono_sublist)
  qed
  moreover have "strstr ?t (''dir='' @ SQUOTE # tag @ [SQUOTE]) = None \<longleftrightarrow> tag \<noteq> tag'"
  proof
    assume "tag \<noteq> tag'"
    then show "strstr ?t (''dir='' @ SQUOTE # tag @ [SQUOTE]) = None"
      using quoted_sublist[of "''dir=''" SQUOTE tag "''<target dir=''" tag' ?z] assms(1,4)
      by (auto simp: strstr_None_iff folder_plain_def simp del: append.simps)
  next
    assume "strstr ?t (''dir='' @ SQUOTE # tag @ [SQUOTE]) = None"
    then show "tag \<noteq> tag'" by auto
  qed
  ultimately show ?thesis
    using assms(3) by (simp add: block_has_tag_def t snprintf_buf_fits del: strstr.simps append.simps)
qed

lemma find_fs_text:
  assumes "folders_plain fs rest" "(gap, (src, tag, ty, ro)) \<in> set fs"
    and "distinct (map (\<lambda>(_, _, t, _). t) fs)"
    and "\<forall>(_, _, t, _)\<in>set fs. DQUOTE \<notin> set t \<and> length t < 250"
  shows "find_fs_xml tag (folders_text fs rest) = Some (folder_element (src, tag, ty, ro))"
proof -
  let ?el = "\<lambda>x. folder_element (snd x)"
  have "map (\<lambda>b. b @ ''</filesystem>'') (fs_blocks (folders_text fs rest)) = map ?el fs"
    using assms(1) by (auto simp: fs_blocks_text folders_plain_def folder_element_body)
  moreover have "find (block_has_tag tag) (map ?el xs) = Some (folder_element (src, tag, ty, ro))"
    if "set xs \<subseteq> set fs" "distinct (map (\<lambda>(_, _, t, _). t) xs)" "(gap, (src, tag, ty, ro)) \<in> set xs" for xs
    using that
  proof (induction xs)
    case (Cons x xs)
    obtain g src' tag' ty' ro' where x: "x = (g, src', tag', ty', ro')" by (metis surj_pair)
    have "folder_plain (src', tag', ty', ro')" "DQUOTE \<notin> set tag'"
      using Cons.prems(1) assms(1,4) by (auto simp: x folders_plain_def)
    moreover have "length tag < 250" "SQUOTE \<notin> set tag"
      using assms(1,2,4) by (fastforce simp: folders_plain_def folder_plain_def)+
    ultimately have "block_has_tag tag (?el x) \<longleftrightarrow> tag = tag'" by (simp add: x block_has_tag_iff)
    moreover have "(gap, (src, tag, ty, ro)) \<notin> set xs" if "tag = tag'"
      using Cons.prems(2) that by (force simp: x)
    ultimately show ?case using Cons by (auto simp: x)
  qed simp
  ultimately show ?thesis using assms(2,3) by (simp add: find_fs_xml_def)
qed

text \<open>C14: removal detaches the right element. Let the live description hold elements that the
  program wrote, between texts in which no filesystem element begins, for folders whose sources and tags
  hold neither a single quote nor an opening angle bracket and are together shorter than 1800 bytes,
  and whose tags are all different, shorter than 250 bytes (the search pattern is cut at 255) and
  without double quotes. Then \<open>lv_remove_shared_folder\<close> hands libvirt exactly the element of the
  folder with the given tag, for the live domain and its configuration when it is active (after the
  unmount in the guest) and for the configuration alone otherwise, and reports libvirt's result.\<close>

theorem removal_detaches_the_folder:
  assumes "lv_lookup_domain api vm s" "api_live_xml api (lv_world s) vm = Some (folders_text fs rest)"
    and "folders_plain fs rest" "(gap, (src, tag, ty, ro)) \<in> set fs"
    and "distinct (map (\<lambda>(_, _, t, _). t) fs)"
    and "\<forall>(_, _, t, _)\<in>set fs. DQUOTE \<notin> set t \<and> length t < 250"
  shows "lv_remove_shared_folder api vm tag s =
    (let active = vm_active api vm s;
         flags = (if active then [VIR_DOMAIN_AFFECT_LIVE, VIR_DOMAIN_AFFECT_CONFIG] else [VIR_DOMAIN_AFFECT_CONFIG]);
         w = (if active then guest_try api vm (snprintf_buf 512 (fmt s_umount_forget [tag, tag])) (lv_world s)
              else lv_world s);
         (ret, w1) = api_detach_device api vm (folder_xml ty src tag ro) flags w
     in (if ret = 0 then 0 else - 1, s\<lparr>lv_world := w1\<rparr>))"
  using assms(1,2) find_fs_text[OF assms(3-6)]
  by (simp add: lv_remove_shared_folder_def folder_element_def Let_def split: prod.split)

lemma shared_memory_xml_has: "shared_memory_xml d = Some x \<Longrightarrow> has_shared_memory x"
proof -
  assume "shared_memory_xml d = Some x"
  then obtain p q where x: "x = (p @ ''  '') @ s_memory_backing @ q"
    by (auto simp: shared_memory_xml_def split: option.splits)
  have "strstr s_memory_backing (''<access mode='' @ SQUOTE # ''shared'' @ [SQUOTE]) \<noteq> None"
    by (simp add: s_memory_backing_def)
  then have "sublist (''<access mode='' @ SQUOTE # ''shared'' @ [SQUOTE]) s_memory_backing"
    by (simp only: strstr_None_iff not_not)
  also have "sublist s_memory_backing x" unfolding x by (rule sublist_appendI)
  finally show ?thesis by (simp only: has_shared_memory_def strstr_None_iff not_not)
qed

lemma find_fs_demo:
  "find_fs_xml t (folders_text [] ''<domain/>'') = None"
  by (simp add: find_fs_xml_def fs_blocks_text folders_plain_def)

theorem removal_detaches_the_folder_witness:
  "lv_remove_shared_folder
      (demo_api\<lparr>api_live_xml := \<lambda>_ _. Some (folders_text
         [(''<domain>'', ''/srv/docs'', ''docs'', ''9p'', True), ([], ''/srv/v'', ''v'', ''9p'', False)] ''</domain>'')\<rparr>)
      ''vm'' ''v'' demo_lv = (0, demo_lv)"
  by (subst removal_detaches_the_folder[where gap = "[]" and src = "''/srv/v''" and ty = "''9p''" and ro = False
        and rest = "''</domain>''" and fs = "[(''<domain>'', ''/srv/docs'', ''docs'', ''9p'', True),
          ([], ''/srv/v'', ''v'', ''9p'', False)]"])
    (auto simp: demo_api_def demo_lv_def lv_lookup_domain_def folders_plain_def folder_plain_def vm_active_def)

text \<open>A libvirt whose world is the persistent description of its one domain.\<close>

definition demo_describe :: "string lv_api" where
  "demo_describe = demo_api
     \<lparr>api_domain_xml := (\<lambda>w _. Some w), api_define_xml := (\<lambda>x _. (True, x)),
      api_state := (\<lambda>_ _. Some VIR_DOMAIN_RUNNING), api_live_xml := (\<lambda>_ _. Some ''<domain/>''),
      api_lookup_domain := (\<lambda>_ _. True)\<rparr>"

definition demo_described :: "string \<Rightarrow> string lv_state" where
  "demo_described x = \<lparr>lv_conn = True, lv_last_error = [], lv_world = x\<rparr>"

lemma strstr_domain_end:
  "strstr p ''</domain>'' = None \<Longrightarrow> strstr (p @ ''</domain>'' @ q) ''</domain>'' = Some (''</domain>'' @ q)"
  using strstr_at[of "CHR ''<''" "''/domain>''" p q] by (simp add: strstr_None_iff)

text \<open>C15: the prompt for shared memory, and what enabling it does. Let libvirt find and describe the
  machine, and let its attach call return 0 or -1, as it is documented to. Adding a folder asks for shared memory (the result -2, with nothing
  attached, no command sent and only the error text set) exactly when the folder is not a 9p one and the persistent description
  \<open>d\<close> of the machine has no shared access element. Enabling is a request to libvirt exactly when \<open>d\<close> has
  no such element and has an end tag of the domain: then libvirt is asked once to define \<open>d\<close> with the memory
  backing inserted before the first end tag, which is a text with the element, and the result is 0
  or -1 as libvirt accepts it. Otherwise nothing is done, and the result is 0 when the element is
  there and -1 when there is no end tag. So as soon as libvirt describes the machine with the element, there
  is neither a prompt nor another request.\<close>

theorem shared_memory_prompt_and_request:
  fixes api vm s d
  defines "shared \<equiv> \<lambda>xml. sublist (''<access mode='' @ SQUOTE # ''shared'' @ [SQUOTE]) xml"
  assumes "lv_lookup_domain api vm s" "api_domain_xml api (lv_world s) vm = Some d"
    and "\<And>x fl w. fst (api_attach_device api vm x fl w) \<in> {0, - 1}"
  shows "(fst (lv_add_shared_folder api vm src tag ro ty s) = - 2 \<longleftrightarrow> ty \<noteq> ''9p'' \<and> \<not> shared d) \<and>
    (ty \<noteq> ''9p'' \<and> \<not> shared d \<longrightarrow> lv_add_shared_folder api vm src tag ro ty s =
      (- 2, set_lv_error ''VirtioFS requires shared memory to be enabled on this VM'' s)) \<and>
    (shared d \<longrightarrow> lv_enable_shared_memory api vm s = (0, s)) \<and>
    (\<not> shared d \<longrightarrow> \<not> sublist ''</domain>'' d \<longrightarrow> lv_enable_shared_memory api vm s = (- 1, s)) \<and>
    (\<forall>p q. \<not> shared d \<longrightarrow> d = p @ ''</domain>'' @ q \<longrightarrow> \<not> sublist ''</domain>'' p \<longrightarrow>
      (let x = p @ ''  '' @ s_memory_backing @ ''</domain>'' @ q;
           (ok, w) = api_define_xml api x (lv_world s);
           (r, s1) = lv_enable_shared_memory api vm s
       in shared x \<and> lv_world s1 = w \<and> r = (if ok then 0 else - 1)))"
proof -
  have h: "shared x \<longleftrightarrow> has_shared_memory x" for x
    by (simp only: shared_def has_shared_memory_def strstr_None_iff not_not)
  have never: "r \<noteq> - 2" if "api_attach_device api vm x fl w = (r, w')" for x fl w r w'
    using assms(4)[of x fl w] that by auto
  have m1: "fst (lv_add_shared_folder api vm src tag ro ty s) = - 2 \<longleftrightarrow> ty \<noteq> ''9p'' \<and> \<not> has_shared_memory d"
    using assms(2,3) never by (auto simp: lv_add_shared_folder_def Let_def split: prod.split)
  have m2: "lv_add_shared_folder api vm src tag ro ty s =
      (- 2, set_lv_error ''VirtioFS requires shared memory to be enabled on this VM'' s)"
    if "ty \<noteq> ''9p''" "\<not> has_shared_memory d"
    using assms(2,3) that by (simp add: lv_add_shared_folder_def)
  have m3: "lv_enable_shared_memory api vm s = (0, s)" if "has_shared_memory d"
    using assms(2,3) that by (simp add: lv_enable_shared_memory_def)
  have m4: "lv_enable_shared_memory api vm s = (- 1, s)"
    if "\<not> has_shared_memory d" "\<not> sublist ''</domain>'' d"
    using assms(2,3) that strstr_None_iff[of d "''</domain>''"]
    by (simp add: lv_enable_shared_memory_def shared_memory_xml_def)
  have m5: "let x = p @ ''  '' @ s_memory_backing @ ''</domain>'' @ q;
      (ok, w) = api_define_xml api x (lv_world s); (r, s1) = lv_enable_shared_memory api vm s
     in has_shared_memory x \<and> lv_world s1 = w \<and> r = (if ok then 0 else - 1)"
    if "\<not> has_shared_memory d" "d = p @ ''</domain>'' @ q" "\<not> sublist ''</domain>'' p" for p q
  proof -
    have "strstr p ''</domain>'' = None" unfolding strstr_None_iff by (rule that(3))
    then have "strstr d ''</domain>'' = Some (''</domain>'' @ q)"
      unfolding that(2) by (rule strstr_domain_end)
    then have x: "shared_memory_xml d = Some (p @ ''  '' @ s_memory_backing @ ''</domain>'' @ q)"
      using that(2) by (simp add: shared_memory_xml_def before_append)
    from shared_memory_xml_has[OF x] x that(1) assms(2,3) show ?thesis
      by (auto simp: lv_enable_shared_memory_def set_lv_error_def Let_def split: prod.split bool.split)
  qed
  show ?thesis unfolding h
    by (intro conjI allI impI; (rule m1 m2 m3 m4 m5)?; (elim conjE)?; assumption)
qed

theorem shared_memory_prompt_and_request_witness:
  "fst (lv_add_shared_folder demo_describe ''vm'' ''/srv'' ''srv'' False ''virtiofs''
      (demo_described ''<domain></domain>'')) = - 2 \<and>
   (let (r, s1) = lv_enable_shared_memory demo_describe ''vm'' (demo_described ''<domain></domain>'')
    in r = 0 \<and> lv_world s1 = ''<domain>  '' @ s_memory_backing @ ''</domain>'')"
proof -
  let ?s = "demo_described ''<domain></domain>''"
  have up: "lv_lookup_domain demo_describe ''vm'' ?s"
    "api_domain_xml demo_describe (lv_world ?s) ''vm'' = Some ''<domain></domain>''"
    "\<And>x fl w. fst (api_attach_device demo_describe ''vm'' x fl w) \<in> {0, - 1}"
    "\<And>x w. api_define_xml demo_describe x w = (True, x)"
    by (simp_all add: demo_describe_def demo_described_def demo_api_def lv_lookup_domain_def)
  have no: "\<not> sublist (''<access mode='' @ SQUOTE # ''shared'' @ [SQUOTE]) ''<domain></domain>''"
    "\<not> sublist ''</domain>'' ''<domain>''"
    by (simp_all add: sublist_Cons_right)
  note spec = shared_memory_prompt_and_request[OF up(1,2,3), of "''/srv''" "''srv''" False "''virtiofs''"]
  from spec have "fst (lv_add_shared_folder demo_describe ''vm'' ''/srv'' ''srv'' False ''virtiofs'' ?s) = - 2"
    using no(1) by simp
  moreover from spec[THEN conjunct2, THEN conjunct2, THEN conjunct2, THEN conjunct2, rule_format,
      OF no(1), of "''<domain>''" "[]", OF _ no(2)]
  have "let (r, s1) = lv_enable_shared_memory demo_describe ''vm'' ?s
    in r = 0 \<and> lv_world s1 = ''<domain>  '' @ s_memory_backing @ ''</domain>''"
    by (simp add: up(4) Let_def case_prod_beta)
  ultimately show ?thesis by blast
qed



end
