(* ===== verification/Libvirt_Automount.thy ===== *)
theory Libvirt_Automount
  imports Libvirt_Agent
begin

text \<open>
  src/libvirt_backend.c: what kind of system a guest runs, whether its auto-mount service is active,
  and the installers of that service, one for each kind.
\<close>

section \<open>Searching without regard to case\<close>

definition to_lower :: "char \<Rightarrow> char" where
  "to_lower c = (if CHR ''A'' \<le> c \<and> c \<le> CHR ''Z'' then char_of (of_char c + 32 :: nat) else c)"

definition strcasestr :: "string \<Rightarrow> string \<Rightarrow> bool" where
  "strcasestr s n \<longleftrightarrow> strstr (map to_lower s) (map to_lower n) \<noteq> None"

section \<open>Probing the guest\<close>

text \<open>The probes are tried in order; the first command that runs decides.\<close>

fun first_running :: "'w lv_api \<Rightarrow> string \<Rightarrow> (string \<times> 'r) list \<Rightarrow> 'r \<Rightarrow> 'w \<Rightarrow> 'r \<times> 'w" where
  "first_running api vm [] d w = (d, w)"
| "first_running api vm ((command, r) # ps) d w =
     (case guest_runs api vm command w of
        (ok, w1) \<Rightarrow> if ok then (r, w1) else first_running api vm ps d w1)"

definition linux_probes :: "(string \<times> guest_os) list" where
  "linux_probes = [(s_has_systemd, GUEST_OS_LINUX_SYSTEMD), (s_has_openrc, GUEST_OS_LINUX_OPENRC)]"

definition os_probes :: "(string \<times> guest_os) list" where
  "os_probes =
     [(s_has_windows, GUEST_OS_WINDOWS), (s_has_freebsd, GUEST_OS_FREEBSD), (s_has_macos, GUEST_OS_MACOS)]
     @ linux_probes"

text \<open>\<open>mentions p field\<close>: the field is there and satisfies the test.\<close>

definition mentions :: "(string \<Rightarrow> bool) \<Rightarrow> string option \<Rightarrow> bool" where
  "mentions p field = (case field of None \<Rightarrow> False | Some v \<Rightarrow> p v)"

text \<open>What the agent's own report says; anything it does not know is taken for Linux.\<close>

definition osinfo_kind :: "json option \<Rightarrow> guest_os" where
  "osinfo_kind ret =
     (let kernel = json_string_value (json_get ret ''kernel-release'');
          os_id = json_string_value (json_get ret ''id'');
          name = json_string_value (json_get ret ''name'')
      in if mentions (\<lambda>n. strcasestr n ''windows'' \<or> strcasestr n ''Microsoft'') name \<or>
            mentions (\<lambda>i. strcasestr i ''mswindows'') os_id
         then GUEST_OS_WINDOWS
         else if mentions (\<lambda>n. strcasestr n ''macOS'') name \<or>
            mentions (\<lambda>k. strstr k ''Darwin'' \<noteq> None) kernel
         then GUEST_OS_MACOS
         else if mentions (\<lambda>i. strcasestr i ''freebsd'') os_id \<or>
            mentions (\<lambda>n. strcasestr n ''FreeBSD'') name \<or>
            mentions (\<lambda>k. strstr k ''FreeBSD'' \<noteq> None) kernel
         then GUEST_OS_FREEBSD
         else GUEST_OS_LINUX_SYSTEMD)"

definition detect_guest_os_dom :: "'w lv_api \<Rightarrow> string \<Rightarrow> 'w \<Rightarrow> guest_os \<times> 'w" where
  "detect_guest_os_dom api vm w =
     (case api_agent_command api vm s_osinfo 10 w of
        (reply, w1) \<Rightarrow>
          (case Option.bind reply (api_json_loads api) of
             None \<Rightarrow> first_running api vm os_probes GUEST_OS_LINUX_OTHER w1
           | Some resp \<Rightarrow>
              (let detected = osinfo_kind (json_object_get resp ''return'') in
               if detected = GUEST_OS_LINUX_SYSTEMD
               then first_running api vm linux_probes GUEST_OS_LINUX_OTHER w1
               else (detected, w1))))"

definition lv_detect_guest_os :: "'w lv_api \<Rightarrow> string \<Rightarrow> 'w lv_state \<Rightarrow> guest_os \<times> 'w lv_state" where
  "lv_detect_guest_os api vm s =
     (if \<not> lv_lookup_domain api vm s \<or> \<not> vm_running api vm s then (GUEST_OS_UNKNOWN, s)
      else (case detect_guest_os_dom api vm (lv_world s) of (os, w) \<Rightarrow> (os, s\<lparr>lv_world := w\<rparr>)))"

definition lv_check_automount_status :: "'w lv_api \<Rightarrow> string \<Rightarrow> 'w lv_state \<Rightarrow> int \<times> 'w lv_state" where
  "lv_check_automount_status api vm s =
     (if \<not> lv_lookup_domain api vm s \<or> \<not> vm_running api vm s then (- 1, s)
      else (case first_running api vm
                   [(s_timer_active, 1), (s_openrc_active, 1), (s_task_active, 1), (s_rc_active, 1),
                    (s_launchd_active, 1)] 0 (lv_world s) of
              (r, w) \<Rightarrow> (r, s\<lparr>lv_world := w\<rparr>)))"

section \<open>The installers\<close>

text \<open>Commands in order, up to the first that fails; its message is the result.\<close>

fun run_steps :: "'w lv_api \<Rightarrow> string \<Rightarrow> string list \<Rightarrow> 'w \<Rightarrow> (int \<times> string option) \<times> 'w" where
  "run_steps api vm [] w = ((0, None), w)"
| "run_steps api vm (command # rest) w =
     (case guest_exec api vm command w of
        ((rc, msg), w1) \<Rightarrow> if rc \<noteq> 0 then ((- 1, Some msg), w1) else run_steps api vm rest w1)"

text \<open>A first step whose failure is reported in its own words.\<close>

definition run_first ::
  "'w lv_api \<Rightarrow> string \<Rightarrow> string \<Rightarrow> (string \<Rightarrow> string) \<Rightarrow> string list \<Rightarrow> 'w \<Rightarrow> (int \<times> string option) \<times> 'w" where
  "run_first api vm command report rest w =
     (case guest_exec api vm command w of
        ((rc, msg), w1) \<Rightarrow>
          if rc \<noteq> 0 then ((- 1, Some (report msg)), w1) else run_steps api vm rest w1)"

definition setup_automount_systemd :: "'w lv_api \<Rightarrow> string \<Rightarrow> 'w \<Rightarrow> (int \<times> string option) \<times> 'w" where
  "setup_automount_systemd api vm w =
     run_first api vm s_systemd_script
       (\<lambda>msg. if strstr msg ''Permission denied'' \<noteq> None then s_systemd_denied else msg)
       [s_systemd_service, s_systemd_timer, s_systemd_enable]
       (guest_try api vm s_permissive w)"

definition setup_automount_openrc :: "'w lv_api \<Rightarrow> string \<Rightarrow> 'w \<Rightarrow> (int \<times> string option) \<times> 'w" where
  "setup_automount_openrc api vm = run_steps api vm [s_openrc_script, s_openrc_init, s_openrc_enable]"

definition setup_automount_windows :: "'w lv_api \<Rightarrow> string \<Rightarrow> 'w \<Rightarrow> (int \<times> string option) \<times> 'w" where
  "setup_automount_windows api vm =
     run_first api vm s_windows_script (\<lambda>_. s_windows_failed) [s_windows_task]"

definition setup_automount_freebsd :: "'w lv_api \<Rightarrow> string \<Rightarrow> 'w \<Rightarrow> (int \<times> string option) \<times> 'w" where
  "setup_automount_freebsd api vm = run_steps api vm [s_freebsd_script, s_freebsd_rc, s_freebsd_enable]"

definition setup_automount_macos :: "'w lv_api \<Rightarrow> string \<Rightarrow> 'w \<Rightarrow> (int \<times> string option) \<times> 'w" where
  "setup_automount_macos api vm = run_steps api vm [s_macos_script, s_macos_plist, s_macos_load]"

definition setup_automount_for ::
  "'w lv_api \<Rightarrow> string \<Rightarrow> guest_os \<Rightarrow> 'w \<Rightarrow> (int \<times> string option) \<times> 'w" where
  "setup_automount_for api vm os w =
     (case os of
        GUEST_OS_LINUX_SYSTEMD \<Rightarrow> setup_automount_systemd api vm w
      | GUEST_OS_LINUX_OPENRC \<Rightarrow> setup_automount_openrc api vm w
      | GUEST_OS_WINDOWS \<Rightarrow> setup_automount_windows api vm w
      | GUEST_OS_FREEBSD \<Rightarrow> setup_automount_freebsd api vm w
      | GUEST_OS_MACOS \<Rightarrow> setup_automount_macos api vm w
      | _ \<Rightarrow>
         (case setup_automount_systemd api vm w of
            ((rc, msg), w1) \<Rightarrow> ((rc, if rc \<noteq> 0 then Some s_no_init else msg), w1)))"

definition lv_setup_automount ::
  "'w lv_api \<Rightarrow> string \<Rightarrow> 'w lv_state \<Rightarrow> (int \<times> string option) \<times> 'w lv_state" where
  "lv_setup_automount api vm s =
     (if \<not> lv_lookup_domain api vm s
      then ((- 1, Some ''VM not found or not connected to libvirt''), s)
      else if \<not> vm_running api vm s then ((- 1, Some ''VM is not running''), s)
      else (case detect_guest_os_dom api vm (lv_world s) of
              (os, w) \<Rightarrow>
                (case setup_automount_for api vm os w of
                   ((rc, msg), w1) \<Rightarrow> ((rc, if rc = 0 then None else msg), s\<lparr>lv_world := w1\<rparr>))))"

section \<open>Agent traffic\<close>

lemma first_running_traffic:
  assumes "\<And>c t w. f (snd (api_agent_command api vm c t w)) \<le> f w + (1::nat)"
  shows "first_running api vm ps d w = (r, w') \<Longrightarrow> f w' \<le> f w + 11 * length ps"
proof (induction ps arbitrary: w)
  case (Cons p ps)
  obtain x w1 where e: "guest_exec api vm (fst p) w = (x, w1)" by fastforce
  from guest_exec_traffic[of f, OF assms e] have "f w1 \<le> f w + 11" .
  with Cons e show ?case
    by (cases p) (fastforce simp: guest_runs_def split: prod.splits if_splits)
qed simp

lemma run_steps_traffic:
  assumes "\<And>c t w. f (snd (api_agent_command api vm c t w)) \<le> f w + (1::nat)"
  shows "run_steps api vm cs w = (r, w') \<Longrightarrow> f w' \<le> f w + 11 * length cs"
proof (induction cs arbitrary: w)
  case (Cons c cs)
  obtain x w1 where e: "guest_exec api vm c w = (x, w1)" by fastforce
  from guest_exec_traffic[of f, OF assms e] have "f w1 \<le> f w + 11" .
  with Cons e show ?case by (fastforce split: prod.splits if_splits)
qed simp

lemma detect_traffic:
  assumes "\<And>c t w. f (snd (api_agent_command api vm c t w)) \<le> f w + (1::nat)"
    and "detect_guest_os_dom api vm w = (r, w')"
  shows "f w' \<le> f w + 56"
proof -
  obtain a w1 where c: "api_agent_command api vm s_osinfo 10 w = (a, w1)" by fastforce
  then have "f w1 \<le> f w + 1" using assms(1)[of s_osinfo 10 w] by simp
  moreover have "f w' \<le> f w1 + 55"
    using assms(2) c first_running_traffic[of f api vm, OF assms(1), of os_probes]
      first_running_traffic[of f api vm, OF assms(1), of linux_probes]
    by (fastforce simp: detect_guest_os_dom_def os_probes_def linux_probes_def Let_def
        split: option.splits if_splits)
  ultimately show ?thesis by simp
qed

lemma run_first_traffic:
  assumes "\<And>c t w. f (snd (api_agent_command api vm c t w)) \<le> f w + (1::nat)"
    and "run_first api vm c report cs w = (r, w')"
  shows "f w' \<le> f w + 11 * Suc (length cs)"
proof -
  obtain x w1 where e: "guest_exec api vm c w = (x, w1)" by fastforce
  from guest_exec_traffic[of f, OF assms(1) e] have "f w1 \<le> f w + 11" .
  with assms(2) e run_steps_traffic[of f api vm, OF assms(1), of cs w1] show ?thesis
    by (fastforce simp: run_first_def split: prod.splits if_splits)
qed

lemma guest_try_traffic:
  assumes "\<And>c t w. f (snd (api_agent_command api vm c t w)) \<le> f w + (1::nat)"
  shows "f (guest_try api vm c w) \<le> f w + 11"
  using guest_exec_traffic[of f api vm c w, OF assms]
  by (cases "guest_exec api vm c w") (simp add: guest_try_def)

lemma setup_traffic:
  assumes "\<And>c t w. f (snd (api_agent_command api vm c t w)) \<le> f w + (1::nat)"
    and "setup_automount_for api vm k w = (r, w')"
  shows "f w' \<le> f w + 55"
proof -
  have systemd: "f w2 \<le> f w + 55" if "setup_automount_systemd api vm w = (x, w2)" for x w2
    using run_first_traffic[of f api vm, OF assms(1) that[unfolded setup_automount_systemd_def]]
      guest_try_traffic[of f api vm, OF assms(1), of s_permissive w] by simp
  show ?thesis
    using assms(2) systemd
      run_steps_traffic[of f api vm, OF assms(1), of "[s_openrc_script, s_openrc_init, s_openrc_enable]" w]
      run_steps_traffic[of f api vm, OF assms(1), of "[s_freebsd_script, s_freebsd_rc, s_freebsd_enable]" w]
      run_steps_traffic[of f api vm, OF assms(1), of "[s_macos_script, s_macos_plist, s_macos_load]" w]
      run_first_traffic[of f api vm, OF assms(1), of s_windows_script "\<lambda>_. s_windows_failed" "[s_windows_task]" w]
    by (fastforce simp: setup_automount_for_def setup_automount_openrc_def setup_automount_windows_def
        setup_automount_freebsd_def setup_automount_macos_def simp del: run_steps.simps
        split: guest_os.splits prod.splits)
qed

text \<open>C31: Bounded talk with the guest. Whatever the agent answers, and even if no command ever
  finishes, an operation on the guest ends after a bounded number of agent calls: 22 for mounting,
  33 for unmounting, 11 for the mount status, 55 for the auto-mount status, 56 for the detection of
  the system and 111 for the installation of the auto-mount service. The bounds hold for any measure
  of the world that one agent call raises by at most one, such as the number of calls made.\<close>

theorem guest_talk_bounded:
  assumes "\<And>c t w. f (snd (api_agent_command api vm c t w)) \<le> f w + (1::nat)"
  shows "f (lv_world (snd (lv_mount_shared_folder api vm tag fs s))) \<le> f (lv_world s) + 22 \<and>
    f (lv_world (snd (lv_unmount_shared_folder api vm tag s))) \<le> f (lv_world s) + 33 \<and>
    f (lv_world (snd (lv_check_mount_status api vm folders s))) \<le> f (lv_world s) + 11 \<and>
    f (lv_world (snd (lv_check_automount_status api vm s))) \<le> f (lv_world s) + 55 \<and>
    f (lv_world (snd (lv_detect_guest_os api vm s))) \<le> f (lv_world s) + 56 \<and>
    f (lv_world (snd (lv_setup_automount api vm s))) \<le> f (lv_world s) + 111"
proof -
  let ?n = "\<lambda>s. f (lv_world s)"
  note exec = guest_exec_traffic[of f api vm, OF assms]
  note tried = guest_try_traffic[of f api vm, OF assms]
  have "?n (snd (lv_mount_shared_folder api vm tag fs s)) \<le> ?n s + 22"
    using tried[of "snprintf_buf 512 (fmt s_unskip [tag])" "lv_world s"]
    by (auto simp: lv_mount_shared_folder_def guest_or_error_def set_lv_error_def split: prod.split dest!: exec)
  moreover have "?n (snd (lv_unmount_shared_folder api vm tag s)) \<le> ?n s + 33"
    using tried[of "snprintf_buf 512 (fmt s_skip [tag, tag])" "lv_world s"]
      tried[of s_refresh_script "guest_try api vm (snprintf_buf 512 (fmt s_skip [tag, tag])) (lv_world s)"]
    by (auto simp: lv_unmount_shared_folder_def guest_or_error_def set_lv_error_def split: prod.split dest!: exec)
  moreover have "?n (snd (lv_check_mount_status api vm folders s)) \<le> ?n s + 11"
    by (auto simp: lv_check_mount_status_def split: prod.split dest!: exec)
  moreover have "?n (snd (lv_check_automount_status api vm s)) \<le> ?n s + 55"
    by (auto simp: lv_check_automount_status_def simp del: first_running.simps split: prod.split
        dest!: first_running_traffic[of f api vm, OF assms])
  moreover have "?n (snd (lv_detect_guest_os api vm s)) \<le> ?n s + 56"
    by (auto simp: lv_detect_guest_os_def split: prod.split dest!: detect_traffic[of f api vm, OF assms])
  moreover have "?n (snd (lv_setup_automount api vm s)) \<le> ?n s + 111"
    by (fastforce simp: lv_setup_automount_def split: prod.split
        dest!: detect_traffic[of f api vm, OF assms] setup_traffic[of f api vm, OF assms])
  ultimately show ?thesis by blast
qed

theorem guest_talk_bounded_witness:
  "lv_world (snd (lv_mount_shared_folder (demo_guest (JObject [])) ''vm'' ''docs'' ''9p'' demo_guest_state)) \<le> 22 \<and>
   lv_world (snd (lv_setup_automount (demo_guest (JObject [])) ''vm'' demo_guest_state)) \<le> 111"
  using guest_talk_bounded[of "\<lambda>n. n" "demo_guest (JObject [])" "''vm''" "''docs''" "''9p''" demo_guest_state]
  by (simp add: demo_guest_def demo_guest_state_def)

section \<open>Installing\<close>

text \<open>The commands that install the service, after the preparation that may fail.\<close>

definition installer :: "guest_os \<Rightarrow> string list" where
  "installer os =
     (case os of
        GUEST_OS_LINUX_OPENRC \<Rightarrow> [s_openrc_script, s_openrc_init, s_openrc_enable]
      | GUEST_OS_WINDOWS \<Rightarrow> [s_windows_script, s_windows_task]
      | GUEST_OS_FREEBSD \<Rightarrow> [s_freebsd_script, s_freebsd_rc, s_freebsd_enable]
      | GUEST_OS_MACOS \<Rightarrow> [s_macos_script, s_macos_plist, s_macos_load]
      | _ \<Rightarrow> [s_systemd_script, s_systemd_service, s_systemd_timer, s_systemd_enable])"

definition prepared :: "'w lv_api \<Rightarrow> string \<Rightarrow> guest_os \<Rightarrow> 'w \<Rightarrow> 'w" where
  "prepared api vm os w =
     (if os \<in> {GUEST_OS_LINUX_OPENRC, GUEST_OS_WINDOWS, GUEST_OS_FREEBSD, GUEST_OS_MACOS} then w
      else guest_try api vm s_permissive w)"

text \<open>All commands ran in order and succeeded; or some ran, and the next one did not.\<close>

inductive all_ran :: "'w lv_api \<Rightarrow> string \<Rightarrow> string list \<Rightarrow> 'w \<Rightarrow> 'w \<Rightarrow> bool" for api vm where
  all_ran_Nil: "all_ran api vm [] w w"
| all_ran_Cons: "guest_exec api vm c w = ((0, m), w1) \<Longrightarrow> all_ran api vm cs w1 w2 \<Longrightarrow> all_ran api vm (c # cs) w w2"

definition stopped_at_failure :: "'w lv_api \<Rightarrow> string \<Rightarrow> string list \<Rightarrow> 'w \<Rightarrow> 'w \<Rightarrow> bool" where
  "stopped_at_failure api vm cs w w' \<longleftrightarrow>
     (\<exists>ran c rest w1 r m. cs = ran @ c # rest \<and> all_ran api vm ran w w1 \<and>
        guest_exec api vm c w1 = ((r, m), w') \<and> r \<noteq> 0)"

lemma stopped_at_first: "guest_exec api vm c w = ((r, m), w') \<Longrightarrow> r \<noteq> 0 \<Longrightarrow> stopped_at_failure api vm (c # cs) w w'"
  unfolding stopped_at_failure_def using all_ran_Nil by fastforce

lemma stopped_later:
  assumes "guest_exec api vm c w = ((0, m), w1)" "stopped_at_failure api vm cs w1 w'"
  shows "stopped_at_failure api vm (c # cs) w w'"
proof -
  from assms(2) obtain ran c' rest w2 r m' where
    "cs = ran @ c' # rest" "all_ran api vm ran w1 w2" "guest_exec api vm c' w2 = ((r, m'), w')" "r \<noteq> 0"
    by (auto simp: stopped_at_failure_def)
  with all_ran_Cons[OF assms(1) this(2)] show ?thesis
    unfolding stopped_at_failure_def by (metis append_Cons)
qed

definition step_outcome ::
  "'w lv_api \<Rightarrow> string \<Rightarrow> string list \<Rightarrow> 'w \<Rightarrow> (int \<times> string option) \<times> 'w \<Rightarrow> bool" where
  "step_outcome api vm cs w r \<longleftrightarrow>
     fst r = (0, None) \<and> all_ran api vm cs w (snd r) \<or>
     (\<exists>m. fst r = (- 1, Some m)) \<and> stopped_at_failure api vm cs w (snd r)"

lemma run_steps_outcome: "step_outcome api vm cs w (run_steps api vm cs w)"
proof (induction cs arbitrary: w)
  case Nil
  show ?case by (simp add: step_outcome_def all_ran_Nil)
next
  case (Cons c cs)
  obtain rc m w1 where e: "guest_exec api vm c w = ((rc, m), w1)" by (metis surj_pair)
  show ?case
  proof (cases "rc = 0")
    case True
    with Cons[of w1] e all_ran_Cons[of api vm c w m w1] stopped_later[of api vm c w m w1] show ?thesis
      by (auto simp: step_outcome_def)
  next
    case False
    with e stopped_at_first[OF e False] show ?thesis by (simp add: step_outcome_def)
  qed
qed

lemma run_first_outcome: "step_outcome api vm (c # cs) w (run_first api vm c report cs w)"
proof -
  obtain rc m w1 where e: "guest_exec api vm c w = ((rc, m), w1)" by (metis surj_pair)
  show ?thesis
  proof (cases "rc = 0")
    case True
    with e run_steps_outcome[of api vm cs w1] all_ran_Cons[of api vm c w m w1]
      stopped_later[of api vm c w m w1] show ?thesis
      by (auto simp: step_outcome_def run_first_def)
  next
    case False
    with e stopped_at_first[OF e False] show ?thesis by (simp add: step_outcome_def run_first_def)
  qed
qed

lemma setup_outcome: "step_outcome api vm (installer os) (prepared api vm os w) (setup_automount_for api vm os w)"
proof -
  let ?steps = "[s_systemd_script, s_systemd_service, s_systemd_timer, s_systemd_enable]"
  have systemd: "step_outcome api vm ?steps (guest_try api vm s_permissive w) (setup_automount_systemd api vm w)"
    unfolding setup_automount_systemd_def by (rule run_first_outcome)
  then have other: "step_outcome api vm ?steps (guest_try api vm s_permissive w)
      (case setup_automount_systemd api vm w of
         ((rc, msg), w1) \<Rightarrow> ((rc, if rc \<noteq> 0 then Some s_no_init else msg), w1))"
    by (auto simp: step_outcome_def split: prod.split)
  show ?thesis
    using systemd other
    by (cases os) (simp_all add: setup_automount_for_def prepared_def installer_def run_steps_outcome
        run_first_outcome setup_automount_openrc_def setup_automount_windows_def setup_automount_freebsd_def
        setup_automount_macos_def del: run_steps.simps)
qed

text \<open>C32: The auto-mount installation is all or a reported failure. On a running machine
  \<open>lv_setup_automount\<close> runs the commands of the installer for the detected system, in order. Either
  every one of them succeeded in the guest and the result is 0 without a message, or the commands
  before some command succeeded, that command failed, nothing was run after it, and the result is -1
  with a message.\<close>

theorem automount_installed_or_reported:
  assumes "lv_lookup_domain api vm s" "vm_running api vm s"
    and "detect_guest_os_dom api vm (lv_world s) = (os, w)"
    and "lv_setup_automount api vm s = ((rc, msg), s')"
  shows "rc = 0 \<and> msg = None \<and> all_ran api vm (installer os) (prepared api vm os w) (lv_world s') \<or>
    rc = - 1 \<and> msg \<noteq> None \<and> stopped_at_failure api vm (installer os) (prepared api vm os w) (lv_world s')"
  using assms setup_outcome[of api vm os w]
  by (auto simp: lv_setup_automount_def step_outcome_def split: prod.splits)

theorem automount_installed_or_reported_witness:
  "all_ran (demo_guest (JObject [(''exited'', JBool True)])) ''vm''
     [s_systemd_script, s_systemd_service, s_systemd_timer, s_systemd_enable] 5 13"
proof -
  let ?api = "demo_guest (JObject [(''exited'', JBool True)])"
  have run: "guest_exec ?api vm c w = ((0, []), w + 2)" for vm c w
    unfolding demo_guest_exec
    by (simp add: demo_guest_def numeral_eq_Suc guest_status_json_def s_guest_status_def snprintf_buf_def
        json_get_def json_object_get_def int_of_json_def json_integer_value_def exited_result_def
        reply_data_def json_string_value_def)
  have probe: "first_running ?api ''vm'' linux_probes GUEST_OS_LINUX_OTHER 1 = (GUEST_OS_LINUX_SYSTEMD, 3)"
    by (simp add: linux_probes_def guest_runs_def run)
  have "osinfo_kind (Some (JObject [(''pid'', JInt 7)])) = GUEST_OS_LINUX_SYSTEMD"
    by (simp add: osinfo_kind_def json_get_def json_object_get_def json_string_value_def mentions_def)
  moreover have "api_agent_command ?api ''vm'' s_osinfo 10 (lv_world demo_guest_state) = (Some ''pid'', 1)"
    "api_json_loads ?api ''pid'' = Some (JObject [(''return'', JObject [(''pid'', JInt 7)])])"
    by (simp_all add: demo_guest_def demo_guest_state_def s_osinfo_def)
  ultimately have d: "detect_guest_os_dom ?api ''vm'' (lv_world demo_guest_state) = (GUEST_OS_LINUX_SYSTEMD, 3)"
    by (simp add: detect_guest_os_dom_def json_object_get_def probe del: first_running.simps One_nat_def)
  have up: "lv_lookup_domain ?api ''vm'' demo_guest_state" "vm_running ?api ''vm'' demo_guest_state"
    by (simp_all add: demo_guest_def demo_guest_state_def lv_lookup_domain_def vm_running_def demo_api_def)
  have installed: "lv_setup_automount ?api ''vm'' demo_guest_state = ((0, None), demo_guest_state\<lparr>lv_world := 13\<rparr>)"
    using up by (simp add: lv_setup_automount_def d setup_automount_for_def setup_automount_systemd_def
        run_first_def guest_try_def run)
  show ?thesis
    using automount_installed_or_reported[OF up d installed]
    by (simp add: installer_def prepared_def guest_try_def run)
qed

end
