(* ===== verification/Libvirt_Orphans.thy ===== *)
theory Libvirt_Orphans
  imports Libvirt_Tree
begin

text \<open>
  src/libvirt_backend.c: snapshots that a disk image still holds but libvirt does not list. The images
  are asked and cleaned with qemu-img; the program reads the text that it prints.
\<close>

section \<open>Reading lines\<close>

text \<open>What \<open>fgets\<close> with a buffer of \<open>n\<close> bytes reads from a text that is not empty.\<close>

definition fgets_line :: "nat \<Rightarrow> string \<Rightarrow> string" where
  "fgets_line n s = take (n - 1) (case strchr s LF of None \<Rightarrow> s | Some e \<Rightarrow> before s e @ [LF])"

lemma fgets_line_nonempty: "s \<noteq> [] \<Longrightarrow> 1 < n \<Longrightarrow> 0 < length (fgets_line n s)"
  by (auto simp: fgets_line_def split: option.split)

function fgets_lines :: "nat \<Rightarrow> string \<Rightarrow> string list" where
  "fgets_lines n s =
     (if s = [] \<or> n \<le> 1 then []
      else fgets_line n s # fgets_lines n (drop (length (fgets_line n s)) s))"
  by auto
termination
proof (relation "measure (\<lambda>(n, s). length s)", goal_cases)
  case (2 n s)
  then show ?case using fgets_line_nonempty[of s n] by (cases s) auto
qed simp

declare fgets_lines.simps [simp del]

section \<open>The listing of qemu-img\<close>

text \<open>
  The size column is the last number, with or without decimals, that a unit follows; the scan
  keeps the place where it starts.
\<close>

definition skip_number :: "string \<Rightarrow> string" where
  "skip_number q =
     (let q1 = dropWhile isdigit q in
      if q1 \<noteq> [] \<and> hd q1 = CHR ''.'' then dropWhile isdigit (tl q1) else q1)"

definition unit_follows :: "string \<Rightarrow> bool" where
  "unit_follows q \<longleftrightarrow>
     prefix '' B '' q \<or> prefix '' KiB '' q \<or> prefix '' MiB '' q \<or> prefix '' GiB '' q"

lemma length_skip_number: "q \<noteq> [] \<Longrightarrow> isdigit (hd q) \<Longrightarrow> length (skip_number q) < length q"
proof -
  assume "q \<noteq> []" "isdigit (hd q)"
  then have "length (dropWhile isdigit q) < length q"
    by (cases q) (auto simp: le_imp_less_Suc length_dropWhile_le)
  moreover have "length (dropWhile isdigit (tl r)) \<le> length r" for r :: string
    using length_dropWhile_le[of isdigit "tl r"] by simp
  ultimately show ?thesis by (auto simp: skip_number_def Let_def intro: le_less_trans)
qed

function size_scan :: "string \<Rightarrow> string option \<Rightarrow> string option" where
  "size_scan q found =
     (if q = [] then found
      else if isdigit (hd q)
      then size_scan (skip_number q) (if unit_follows (skip_number q) then Some q else found)
      else size_scan (tl q) found)"
  by auto
termination
  by (relation "measure (\<lambda>(q, _). length q)") (auto simp: length_skip_number)

declare size_scan.simps [simp del]

definition rstrip :: "string \<Rightarrow> string" where
  "rstrip s = rev (dropWhile (\<lambda>c. c = CHR '' '') (rev s))"

definition skip_spaces :: "string \<Rightarrow> string" where
  "skip_spaces s = dropWhile (\<lambda>c. c = CHR '' '') s"

text \<open>The name in a line of the listing; \<open>None\<close> for the lines that are skipped.\<close>

definition snapshot_of_line :: "string \<Rightarrow> string option" where
  "snapshot_of_line l =
     (let p = skip_spaces l in
      if p = [] \<or> \<not> isdigit (hd p) then None
      else
       (let tag_start = skip_spaces (dropWhile isdigit p) in
        case size_scan tag_start None of
          None \<Rightarrow> None
        | Some size_ptr \<Rightarrow>
           (let tag = rstrip (before tag_start size_ptr) in if tag = [] then None else Some tag)))"

definition list_command :: "string \<Rightarrow> string" where
  "list_command disk_path =
     snprintf_buf 4160 (fmt (''qemu-img snapshot -l '' @ SQUOTE # ''%s'' @ SQUOTE # '' 2>/dev/null'') [disk_path])"

definition qcow2_snapshot_names :: "'w lv_api \<Rightarrow> string \<Rightarrow> 'w \<Rightarrow> string list option \<times> 'w" where
  "qcow2_snapshot_names api disk_path w =
     (case api_popen api (list_command disk_path) w of
        (out, w1) \<Rightarrow> (map_option (\<lambda>t. List.map_filter snapshot_of_line (fgets_lines 1024 t)) out, w1))"

section \<open>The disks of a domain\<close>

text \<open>Of two places in a text, the earlier one.\<close>

definition earlier :: "string option \<Rightarrow> string option \<Rightarrow> string option" where
  "earlier p1 p2 =
     (case (p1, p2) of
        (Some a, Some b) \<Rightarrow> Some (if length b < length a then a else b)
      | (Some a, None) \<Rightarrow> Some a
      | (None, _) \<Rightarrow> p2)"

definition next_disk :: "string \<Rightarrow> string option" where
  "next_disk pos =
     earlier (strstr pos (''<disk type='' @ SQUOTE # ''file'' @ [SQUOTE]))
       (strstr pos (''<disk type='' @ DQUOTE # ''file'' @ [DQUOTE]))"

lemma next_disk_SomeD:
  assumes "next_disk pos = Some p"
  shows "p \<noteq> [] \<and> length p \<le> length pos"
proof -
  from assms obtain c where "strstr pos (''<disk type='' @ c # ''file'' @ [c]) = Some p"
    by (auto simp: next_disk_def earlier_def split: option.splits if_splits)
  then show ?thesis by (cases p) (auto dest: strstr_length strstr_SomeD)
qed

function disk_blocks :: "string \<Rightarrow> string list" where
  "disk_blocks pos =
     (case next_disk pos of
        None \<Rightarrow> []
      | Some p \<Rightarrow>
         (case strstr p ''</disk>'' of
            None \<Rightarrow> []
          | Some disk_end \<Rightarrow> before p disk_end # disk_blocks (drop 7 disk_end)))"
  by auto
termination
proof (relation "measure length", goal_cases)
  case (2 pos p disk_end)
  then have "length disk_end - 7 < length p"
    using strstr_length[of p "''</disk>''" disk_end] next_disk_SomeD[of pos p] by (cases p) auto
  with next_disk_SomeD[of pos p] 2 show ?case by simp
qed simp

declare disk_blocks.simps [simp del]

definition qcow2_disk :: "string \<Rightarrow> string option" where
  "qcow2_disk disk_xml =
     (if strstr disk_xml (''type='' @ SQUOTE # ''qcow2'' @ [SQUOTE]) \<noteq> None \<or>
         strstr disk_xml (''type='' @ DQUOTE # ''qcow2'' @ [DQUOTE]) \<noteq> None
      then extract_xml_attr disk_xml ''source'' ''file'' else None)"

definition nvram_disk :: "string \<Rightarrow> string list" where
  "nvram_disk xml =
     (case extract_xml_content_ext xml ''nvram'' of
        Some path \<Rightarrow>
          if path \<noteq> [] \<and> extract_xml_attr xml ''nvram'' ''format'' = Some ''qcow2'' then [path] else []
      | None \<Rightarrow> [])"

definition get_domain_disk_paths :: "'w lv_api \<Rightarrow> 'w \<Rightarrow> string \<Rightarrow> string list" where
  "get_domain_disk_paths api w vm =
     (case api_domain_xml api w vm of
        None \<Rightarrow> []
      | Some xml \<Rightarrow> List.map_filter qcow2_disk (disk_blocks xml) @ nvram_disk xml)"

section \<open>Scanning and cleaning\<close>

text \<open>The names that libvirt lists; a failed count is taken for no names.\<close>

definition known_snapshots :: "'w lv_api \<Rightarrow> 'w \<Rightarrow> string \<Rightarrow> string list" where
  "known_snapshots api w vm = (if 0 < api_snapshot_num api w vm then api_snapshot_names api w vm else [])"

definition add_orphans :: "string list \<Rightarrow> string list \<Rightarrow> string list \<Rightarrow> string list" where
  "add_orphans known names orphans =
     fold (\<lambda>q os. if q \<in> set known \<or> q \<in> set os then os else os @ [q]) names orphans"

fun scan_disks :: "'w lv_api \<Rightarrow> string list \<Rightarrow> string list \<Rightarrow> string list \<Rightarrow> 'w \<Rightarrow> string list \<times> 'w" where
  "scan_disks api known [] orphans w = (orphans, w)"
| "scan_disks api known (d # ds) orphans w =
     (case qcow2_snapshot_names api d w of
        (None, w1) \<Rightarrow> scan_disks api known ds orphans w1
      | (Some names, w1) \<Rightarrow> scan_disks api known ds (add_orphans known names orphans) w1)"

text \<open>\<open>None\<close> is the result -1; a machine that is not shut off is not scanned.\<close>

definition lv_scan_orphan_snapshots ::
  "'w lv_api \<Rightarrow> string \<Rightarrow> 'w lv_state \<Rightarrow> string list option \<times> 'w lv_state" where
  "lv_scan_orphan_snapshots api vm s =
     (if \<not> lv_lookup_domain api vm s then (None, s)
      else if api_state api (lv_world s) vm \<noteq> Some VIR_DOMAIN_SHUTOFF then (Some [], s)
      else (case scan_disks api (known_snapshots api (lv_world s) vm)
                   (get_domain_disk_paths api (lv_world s) vm) [] (lv_world s) of
              (orphans, w) \<Rightarrow> (Some orphans, s\<lparr>lv_world := w\<rparr>)))"

definition delete_command :: "string \<Rightarrow> string \<Rightarrow> string" where
  "delete_command snap disk_path =
     snprintf_buf 4352
       (fmt (''qemu-img snapshot -d '' @ SQUOTE # ''%s'' @ SQUOTE # '' '' @ SQUOTE # ''%s'' @ SQUOTE # '' 2>&1'')
          [snap, disk_path])"

fun clean_names :: "'w lv_api \<Rightarrow> string list \<Rightarrow> string \<Rightarrow> string list \<Rightarrow> int \<Rightarrow> 'w \<Rightarrow> int \<times> 'w" where
  "clean_names api known d [] n w = (n, w)"
| "clean_names api known d (q # qs) n w =
     (if q \<in> set known then clean_names api known d qs n w
      else (case api_system api (delete_command q d) w of
              (rc, w1) \<Rightarrow> clean_names api known d qs (if rc = 0 then n + 1 else n) w1))"

fun clean_disks :: "'w lv_api \<Rightarrow> string list \<Rightarrow> string list \<Rightarrow> int \<Rightarrow> 'w \<Rightarrow> int \<times> 'w" where
  "clean_disks api known [] n w = (n, w)"
| "clean_disks api known (d # ds) n w =
     (case qcow2_snapshot_names api d w of
        (None, w1) \<Rightarrow> clean_disks api known ds n w1
      | (Some names, w1) \<Rightarrow>
         (case clean_names api known d names n w1 of (n1, w2) \<Rightarrow> clean_disks api known ds n1 w2))"

definition lv_cleanup_orphan_snapshots :: "'w lv_api \<Rightarrow> string \<Rightarrow> 'w lv_state \<Rightarrow> int \<times> 'w lv_state" where
  "lv_cleanup_orphan_snapshots api vm s =
     (if \<not> lv_lookup_domain api vm s then (- 1, s)
      else if api_state api (lv_world s) vm \<noteq> Some VIR_DOMAIN_SHUTOFF
      then (- 1, set_lv_error ''VM must be shut off to clean orphan snapshots'' s)
      else (case clean_disks api (known_snapshots api (lv_world s) vm)
                   (get_domain_disk_paths api (lv_world s) vm) 0 (lv_world s) of
              (n, w) \<Rightarrow> (n, s\<lparr>lv_world := w\<rparr>)))"

section \<open>What qemu-img prints\<close>

text \<open>
  A line of the listing: indentation, number, blanks, name, blanks, size with its unit, and the
  rest of the line.
\<close>

record listing_entry =
  le_indent :: nat
  le_id :: string
  le_gap :: nat
  le_name :: string
  le_pad :: nat
  le_size :: string
  le_rest :: string

definition entry_line :: "listing_entry \<Rightarrow> string" where
  "entry_line e = replicate (le_indent e) CHR '' '' @ le_id e @ replicate (Suc (le_gap e)) CHR '' '' @
     le_name e @ replicate (Suc (le_pad e)) CHR '' '' @ le_size e @ le_rest e"

text \<open>
  The name may hold anything but a newline and does not begin or end with a blank; the size is a
  number that a unit follows, and nothing in the rest of the line looks like another size.
\<close>

definition entry_ok :: "listing_entry \<Rightarrow> bool" where
  "entry_ok e \<longleftrightarrow> le_id e \<noteq> [] \<and> list_all isdigit (le_id e) \<and>
     le_name e \<noteq> [] \<and> hd (le_name e) \<noteq> CHR '' '' \<and> last (le_name e) \<noteq> CHR '' '' \<and>
     le_size e \<noteq> [] \<and> isdigit (hd (le_size e)) \<and> skip_number (le_size e @ le_rest e @ [LF]) = le_rest e @ [LF] \<and>
     unit_follows (le_rest e @ [LF]) \<and> size_scan (le_rest e @ [LF]) None = None \<and>
     LF \<notin> set (entry_line e) \<and> length (entry_line e) < 1023"

lemma blank_not_digit [simp]: "\<not> isdigit CHR '' ''"
  by (simp add: isdigit_def)

lemma size_scan_found: "size_scan q f = (case size_scan q None of None \<Rightarrow> f | Some x \<Rightarrow> Some x)"
proof (induction q arbitrary: f rule: measure_induct_rule[of length])
  case (less q)
  show ?case
  proof (cases "q = []")
    case False
    show ?thesis
    proof (cases "isdigit (hd q)")
      case True
      note IH = less[OF length_skip_number[OF False True]]
      show ?thesis using True False
        by (subst (1 2) size_scan.simps) (auto simp: IH[of f] IH[of "Some q"] split: option.split)
    next
      case dig: False
      from less[of "tl q" f] show ?thesis using False dig by (subst (1 2) size_scan.simps) simp
    qed
  qed (simp add: size_scan.simps)
qed

text \<open>A number does not reach over a blank.\<close>

lemma skip_number_blank:
  "a \<noteq> [] \<Longrightarrow> isdigit (hd a) \<Longrightarrow> \<exists>a'. skip_number (a @ CHR '' '' # b) = a' @ CHR '' '' # b \<and> length a' < length a"
proof -
  assume a: "a \<noteq> []" "isdigit (hd a)"
  obtain ds where ds: "ds = dropWhile isdigit a" by simp
  have d: "dropWhile isdigit (a @ CHR '' '' # b) = ds @ CHR '' '' # b"
    by (simp add: dropWhile_append dropWhile_eq_Nil_conv ds)
  have l: "length ds < length a" using a by (cases a) (auto simp: ds le_imp_less_Suc length_dropWhile_le)
  show ?thesis
  proof (cases "ds \<noteq> [] \<and> hd ds = CHR ''.''")
    case True
    let ?e = "dropWhile isdigit (tl ds)"
    have "dropWhile isdigit (tl ds @ CHR '' '' # b) = ?e @ CHR '' '' # b"
      by (simp add: dropWhile_append dropWhile_eq_Nil_conv)
    moreover have "length ?e < length a" using l length_dropWhile_le[of isdigit "tl ds"] by simp
    ultimately show ?thesis using True by (intro exI[of _ ?e]) (simp add: skip_number_def d)
  next
    case False
    then have "skip_number (a @ CHR '' '' # b) = ds @ CHR '' '' # b"
      by (cases ds) (auto simp: skip_number_def d)
    with l show ?thesis by blast
  qed
qed

lemma size_scan_past: "\<exists>f'. size_scan (a @ CHR '' '' # b) f = size_scan (CHR '' '' # b) f'"
proof (induction a arbitrary: f rule: measure_induct_rule[of length])
  case (less a)
  show ?case
  proof (cases a)
    case (Cons x xs)
    show ?thesis
    proof (cases "isdigit x")
      case True
      with Cons obtain a' where "skip_number (a @ CHR '' '' # b) = a' @ CHR '' '' # b" "length a' < length a"
        using skip_number_blank[of a b] by auto
      with less[of a'] True Cons show ?thesis by (subst size_scan.simps) auto
    next
      case False
      with less[of xs f] Cons show ?thesis by (subst size_scan.simps) simp
    qed
  qed auto
qed

lemma size_scan_blanks: "size_scan (replicate n CHR '' '' @ b) f = size_scan b f"
proof (induction n)
  case (Suc n)
  then show ?case by (subst size_scan.simps) simp
qed simp

lemma dropWhile_blanks: "b \<noteq> [] \<Longrightarrow> hd b \<noteq> CHR '' '' \<Longrightarrow> skip_spaces (replicate n CHR '' '' @ b) = b"
  by (cases b) (induction n; simp add: skip_spaces_def)+

lemma rstrip_blanks: "a \<noteq> [] \<Longrightarrow> last a \<noteq> CHR '' '' \<Longrightarrow> rstrip (a @ replicate n CHR '' '') = a"
proof -
  assume a: "a \<noteq> []" "last a \<noteq> CHR '' ''"
  have "dropWhile (\<lambda>c. c = CHR '' '') (replicate n CHR '' '' @ rev a) = rev a"
    using a by (cases a rule: rev_cases) (induction n; simp)+
  then show ?thesis by (simp add: rstrip_def)
qed

lemma snapshot_of_entry:
  assumes "entry_ok e"
  shows "snapshot_of_line (entry_line e @ [LF]) = Some (le_name e)"
proof -
  let ?s = "le_size e @ le_rest e @ [LF]"
  let ?t = "le_name e @ replicate (Suc (le_pad e)) CHR '' '' @ ?s"
  let ?p = "le_id e @ replicate (Suc (le_gap e)) CHR '' '' @ ?t"
  note ok = assms[unfolded entry_ok_def]
  have p: "skip_spaces (entry_line e @ [LF]) = ?p"
  proof -
    have e: "entry_line e @ [LF] = replicate (le_indent e) CHR '' '' @ ?p"
      by (simp add: entry_line_def)
    show ?thesis unfolding e
      by (rule dropWhile_blanks) (use ok in \<open>cases "le_id e"; auto simp: isdigit_def\<close>)+
  qed
  have "dropWhile isdigit ?p = replicate (Suc (le_gap e)) CHR '' '' @ ?t"
    using ok by (simp add: list_all_iff dropWhile_append)
  then have t: "skip_spaces (dropWhile isdigit ?p) = ?t"
    using dropWhile_blanks[of ?t "Suc (le_gap e)"] ok by (simp del: replicate.simps)
  obtain f where "size_scan ?t None = size_scan (replicate (Suc (le_pad e)) CHR '' '' @ ?s) f"
    using size_scan_past[of "le_name e" "replicate (le_pad e) CHR '' '' @ ?s" None] by auto
  also have "\<dots> = size_scan ?s f" by (rule size_scan_blanks)
  also have "\<dots> = size_scan (le_rest e @ [LF]) (Some ?s)"
    using ok by (subst size_scan.simps) auto
  also have "\<dots> = Some ?s" using ok by (subst size_scan_found) simp
  finally have z: "size_scan ?t None = Some ?s" .
  have b: "before ?t ?s = le_name e @ replicate (Suc (le_pad e)) CHR '' ''"
    using before_append[of "le_name e @ replicate (Suc (le_pad e)) CHR '' ''" ?s] by simp
  have n: "rstrip (before ?t ?s) = le_name e"
    unfolding b by (rule rstrip_blanks) (use ok in auto)
  have "?p \<noteq> []" "isdigit (hd ?p)" using ok by (cases "le_id e"; simp)+
  with p t z n ok show ?thesis by (simp add: snapshot_of_line_def Let_def del: replicate.simps)
qed

lemma fgets_lines_line:
  assumes "LF \<notin> set l" "length l < n - 1"
  shows "fgets_lines n (l @ LF # r) = (l @ [LF]) # fgets_lines n r"
proof -
  have "fgets_line n (l @ LF # r) = l @ [LF]"
    using assms strchr_first[OF assms(1), of r] by (simp add: fgets_line_def before_append)
  then show ?thesis using assms(2) by (subst fgets_lines.simps) simp
qed

text \<open>The title lines of the listing do not begin with a number.\<close>

definition title_ok :: "string \<Rightarrow> bool" where
  "title_ok l \<longleftrightarrow> LF \<notin> set l \<and> length l < 1023 \<and>
     (case skip_spaces l of [] \<Rightarrow> True | c # _ \<Rightarrow> \<not> isdigit c)"

definition listing_text :: "string list \<Rightarrow> listing_entry list \<Rightarrow> string" where
  "listing_text titles es = concat (map (\<lambda>l. l @ [LF]) (titles @ map entry_line es))"

lemma snapshot_of_title: "title_ok l \<Longrightarrow> snapshot_of_line (l @ [LF]) = None"
proof -
  assume "title_ok l"
  moreover have "skip_spaces (l @ [LF]) = skip_spaces l @ [LF]"
    by (simp add: skip_spaces_def dropWhile_append)
  ultimately show ?thesis
    by (auto simp: title_ok_def snapshot_of_line_def isdigit_def split: list.splits)
qed

lemma names_of_listing:
  assumes "list_all title_ok titles" "list_all entry_ok es"
  shows "List.map_filter snapshot_of_line (fgets_lines 1024 (listing_text titles es)) = map le_name es"
proof -
  have entries: "List.map_filter snapshot_of_line (fgets_lines 1024 (listing_text [] es)) = map le_name es"
    using assms(2)
  proof (induction es)
    case Nil
    then show ?case by (simp add: listing_text_def fgets_lines.simps List.map_filter_simps)
  next
    case (Cons e es)
    have "fgets_lines 1024 (entry_line e @ LF # listing_text [] es) =
        (entry_line e @ [LF]) # fgets_lines 1024 (listing_text [] es)"
      using Cons.prems by (intro fgets_lines_line) (auto simp: entry_ok_def)
    with Cons show ?case by (simp add: listing_text_def snapshot_of_entry List.map_filter_simps)
  qed
  show ?thesis using assms(1)
  proof (induction titles)
    case Nil
    show ?case by (rule entries)
  next
    case (Cons l titles)
    have "fgets_lines 1024 (l @ LF # listing_text titles es) =
        (l @ [LF]) # fgets_lines 1024 (listing_text titles es)"
      using Cons.prems by (intro fgets_lines_line) (auto simp: title_ok_def)
    with Cons show ?case by (simp add: listing_text_def snapshot_of_title List.map_filter_simps)
  qed
qed

text \<open>C35: The listing of qemu-img is read right. From any listing made of title lines that do not
  begin with a number and of entries, each with its number, name, size and the rest of its line, the
  program reads exactly the names, in order; a name may hold blanks, digits and even texts that look
  like sizes.\<close>

theorem qemu_listing_read:
  assumes "list_all title_ok titles" "list_all entry_ok es"
    and "api_popen api (list_command d) w = (Some (listing_text titles es), w')"
  shows "qcow2_snapshot_names api d w = (Some (map le_name es), w')"
  using assms by (simp add: qcow2_snapshot_names_def names_of_listing)

definition demo_entry :: "string \<Rightarrow> string \<Rightarrow> listing_entry" where
  "demo_entry i n = \<lparr>le_indent = 0, le_id = i, le_gap = 8, le_name = n, le_pad = 9, le_size = ''1.5'',
     le_rest = '' GiB 2024-01-01 10:00:00   00:00:00.000''\<rparr>"

definition demo_titles :: "string list" where
  "demo_titles = [''Snapshot list:'', ''ID        TAG               VM SIZE'']"

lemma demo_rest_ok: "size_scan ('' GiB 2024-01-01 10:00:00   00:00:00.000'' @ [LF]) None = None"
  by code_simp

lemma demo_listing_ok:
  "list_all title_ok demo_titles" "entry_ok (demo_entry ''1'' ''old'')" "entry_ok (demo_entry ''2'' ''5 MiB of 7'')"
  using demo_rest_ok
  by (simp_all add: entry_ok_def demo_entry_def entry_line_def isdigit_def skip_number_def unit_follows_def
      title_ok_def demo_titles_def skip_spaces_def)

theorem qemu_listing_read_witness:
  "qcow2_snapshot_names (demo_api\<lparr>api_popen := \<lambda>_ w. (Some (listing_text demo_titles
      [demo_entry ''1'' ''old'', demo_entry ''2'' ''5 MiB of 7'']), w)\<rparr>) ''/d'' () =
    (Some [''old'', ''5 MiB of 7''], ())"
  by (subst qemu_listing_read[where titles = demo_titles and es = "[demo_entry ''1'' ''old'', demo_entry ''2'' ''5 MiB of 7'']"])
    (simp_all add: demo_listing_ok, simp_all add: demo_entry_def)

section \<open>What a cleanup removes\<close>

lemma names_world: "\<lbrakk>\<And>c w. P w \<Longrightarrow> P (snd (api_popen api c w)); P w; qcow2_snapshot_names api d w = (r, w')\<rbrakk> \<Longrightarrow> P w'"
  by (auto simp: qcow2_snapshot_names_def split: prod.splits) (metis snd_conv)

lemma clean_names_keep:
  assumes "\<And>q w. P w \<Longrightarrow> q \<notin> set known \<Longrightarrow> P (snd (api_system api (delete_command q d) w))"
  shows "P w \<Longrightarrow> P (snd (clean_names api known d qs n w))"
proof (induction qs arbitrary: n w)
  case (Cons q qs)
  then show ?case using assms[of w q]
    by (cases "api_system api (delete_command q d) w") auto
qed simp

lemma clean_disks_keep:
  assumes "\<And>c w. P w \<Longrightarrow> P (snd (api_popen api c w))"
  shows "P w \<Longrightarrow> (\<And>d q w. P w \<Longrightarrow> q \<notin> set known \<Longrightarrow> d \<in> set ds \<Longrightarrow> P (snd (api_system api (delete_command q d) w))) \<Longrightarrow>
    P (snd (clean_disks api known ds n w))"
proof (induction ds arbitrary: n w)
  case (Cons d ds)
  obtain r w1 where e: "qcow2_snapshot_names api d w = (r, w1)" by fastforce
  have w1: "P w1" using names_world[of P, OF assms Cons.prems(1) e] .
  show ?case
  proof (cases r)
    case None
    then show ?thesis using Cons.IH[OF w1] Cons.prems(2) by (simp add: e)
  next
    case (Some names)
    obtain n1 w2 where c: "clean_names api known d names n w1 = (n1, w2)" by fastforce
    have "P w2" using clean_names_keep[of P known api d w1 names n] w1 Cons.prems(2) c by fastforce
    then show ?thesis using Cons.IH[of w2] Cons.prems(2) by (simp add: e Some c)
  qed
qed simp


text \<open>
  A host on which qemu-img does its work: on the worlds \<open>W\<close> it lists the names of an image and
  deletes the name it is given, and libvirt says the same about the machine.
\<close>

definition qemu_img_works ::
  "'w lv_api \<Rightarrow> string \<Rightarrow> ('w \<Rightarrow> string \<Rightarrow> string list) \<Rightarrow> string list \<Rightarrow> string list \<Rightarrow> 'w set \<Rightarrow> bool" where
  "qemu_img_works api vm imgs known disks W \<longleftrightarrow>
     (\<forall>w\<in>W. api_lookup_domain api w vm \<and> api_state api w vm = Some VIR_DOMAIN_SHUTOFF \<and>
        known_snapshots api w vm = known \<and> get_domain_disk_paths api w vm = disks \<and>
        (\<forall>d\<in>set disks. qcow2_snapshot_names api d w = (Some (imgs w d), w) \<and> distinct (imgs w d) \<and>
          (\<forall>q\<in>set (imgs w d) - set known. \<exists>w'\<in>W. api_system api (delete_command q d) w = (0, w') \<and>
             imgs w' = (imgs w)(d := removeAll q (imgs w d)))))"

abbreviation unknown :: "string list \<Rightarrow> string list \<Rightarrow> string list" where
  "unknown known \<equiv> filter (\<lambda>q. q \<notin> set known)"

lemma clean_names_effect:
  assumes "qemu_img_works api vm imgs known disks W" "d \<in> set disks"
  shows "w \<in> W \<Longrightarrow> distinct qs \<Longrightarrow> set qs \<subseteq> set (imgs w d) \<Longrightarrow>
    \<exists>w'\<in>W. clean_names api known d qs n w = (n + int (length (unknown known qs)), w') \<and>
      imgs w' = (imgs w)(d := filter (\<lambda>x. x \<in> set known \<or> x \<notin> set qs) (imgs w d))"
proof (induction qs arbitrary: n w)
  case (Cons q qs)
  show ?case
  proof (cases "q \<in> set known")
    case True
    then have "filter (\<lambda>x. x \<in> set known \<or> x \<notin> set (q # qs)) l = filter (\<lambda>x. x \<in> set known \<or> x \<notin> set qs) l" for l
      by (intro filter_cong) auto
    with Cons.IH[of w n] Cons.prems True show ?thesis by simp
  next
    case False
    then have "q \<in> set (imgs w d) - set known" using Cons.prems(3) by simp
    then obtain w1 where w1: "w1 \<in> W" "api_system api (delete_command q d) w = (0, w1)"
      "imgs w1 = (imgs w)(d := removeAll q (imgs w d))"
      using assms Cons.prems(1) unfolding qemu_img_works_def by blast
    have "filter (\<lambda>x. x \<in> set known \<or> x \<notin> set qs) (removeAll q (imgs w d)) =
        filter (\<lambda>x. x \<in> set known \<or> x \<notin> set (q # qs)) (imgs w d)"
      using False by (auto simp: removeAll_filter_not_eq intro!: filter_cong)
    then show ?thesis using Cons.IH[of w1 "n + 1"] Cons.prems w1 False by fastforce
  qed
qed (auto simp: fun_upd_triv)

lemma clean_disks_effect:
  assumes "qemu_img_works api vm imgs known disks W"
  shows "w \<in> W \<Longrightarrow> distinct ds \<Longrightarrow> set ds \<subseteq> set disks \<Longrightarrow>
    \<exists>w'\<in>W. clean_disks api known ds n w =
        (n + int (sum_list (map (\<lambda>d. length (unknown known (imgs w d))) ds)), w') \<and>
      (\<forall>d. imgs w' d = (if d \<in> set ds then filter (\<lambda>x. x \<in> set known) (imgs w d) else imgs w d))"
proof (induction ds arbitrary: n w)
  case (Cons d ds)
  have d: "qcow2_snapshot_names api d w = (Some (imgs w d), w)" "distinct (imgs w d)"
    using assms Cons.prems unfolding qemu_img_works_def by auto
  obtain w1 where w1: "w1 \<in> W"
    "clean_names api known d (imgs w d) n w = (n + int (length (unknown known (imgs w d))), w1)"
    "imgs w1 = (imgs w)(d := filter (\<lambda>x. x \<in> set known) (imgs w d))"
    using clean_names_effect[OF assms, of d w "imgs w d" n] Cons.prems d(2)
    by (auto cong: filter_cong)
  have same: "map (\<lambda>d. length (unknown known (imgs w1 d))) ds = map (\<lambda>d. length (unknown known (imgs w d))) ds"
    using Cons.prems(2) by (auto simp: w1(3))
  obtain w2 where w2: "w2 \<in> W" "clean_disks api known ds (n + int (length (unknown known (imgs w d)))) w1 =
      (n + int (length (unknown known (imgs w d))) +
        int (sum_list (map (\<lambda>d. length (unknown known (imgs w1 d))) ds)), w2)"
    "\<forall>d. imgs w2 d = (if d \<in> set ds then filter (\<lambda>x. x \<in> set known) (imgs w1 d) else imgs w1 d)"
    using Cons.IH[OF w1(1), of "n + int (length (unknown known (imgs w d)))"] Cons.prems(2,3) by fastforce
  show ?case
    using Cons.prems(2) w1 d w2(2)[unfolded same] by (intro bexI[OF _ w2(1)]) (auto simp: w2(3))
qed auto

lemma scan_disks_clean:
  assumes "qemu_img_works api vm imgs known disks W" "w \<in> W" "\<forall>d\<in>set disks. set (imgs w d) \<subseteq> set known"
  shows "set ds \<subseteq> set disks \<Longrightarrow> scan_disks api known ds [] w = ([], w)"
proof (induction ds)
  case (Cons d ds)
  have "add_orphans known qs [] = []" if "set qs \<subseteq> set known" for qs
    using that by (induction qs) (auto simp: add_orphans_def)
  with Cons assms show ?case by (auto simp: qemu_img_works_def)
qed simp

text \<open>C11: A cleanup leaves no orphans and keeps the rest. On a host where qemu-img works, a cleanup
  of a machine that is shut off reports the number of names on its disks that libvirt does not list,
  every image then holds exactly its names that libvirt lists, in their order, other images are as
  before, and a scan that follows finds nothing.\<close>

theorem cleanup_leaves_no_orphans:
  assumes "qemu_img_works api vm imgs known disks W" "lv_world s \<in> W" "lv_conn s" "distinct disks"
  shows "\<exists>w'. lv_cleanup_orphan_snapshots api vm s =
      (int (sum_list (map (\<lambda>d. length (unknown known (imgs (lv_world s) d))) disks)), s\<lparr>lv_world := w'\<rparr>) \<and>
    (\<forall>d. imgs w' d = (if d \<in> set disks then filter (\<lambda>x. x \<in> set known) (imgs (lv_world s) d)
                      else imgs (lv_world s) d)) \<and>
    lv_scan_orphan_snapshots api vm (s\<lparr>lv_world := w'\<rparr>) = (Some [], s\<lparr>lv_world := w'\<rparr>)"
proof -
  let ?w = "lv_world s"
  have up: "lv_lookup_domain api vm (s\<lparr>lv_world := w\<rparr>)" "api_state api w vm = Some VIR_DOMAIN_SHUTOFF"
    "known_snapshots api w vm = known" "get_domain_disk_paths api w vm = disks" if "w \<in> W" for w
    using assms(1,3) that by (auto simp: qemu_img_works_def lv_lookup_domain_def)
  have same: "lv_lookup_domain api vm s" using up(1)[OF assms(2)] by simp
  obtain w' where w': "w' \<in> W" "clean_disks api known disks 0 ?w =
      (int (sum_list (map (\<lambda>d. length (unknown known (imgs ?w d))) disks)), w')"
    "\<forall>d. imgs w' d = (if d \<in> set disks then filter (\<lambda>x. x \<in> set known) (imgs ?w d) else imgs ?w d)"
    using clean_disks_effect[OF assms(1,2,4), of 0] by auto
  have "scan_disks api known disks [] w' = ([], w')"
    by (rule scan_disks_clean[OF assms(1) w'(1)]) (auto simp: w'(3))
  then show ?thesis
    using w' up[OF assms(2)] up[OF w'(1)] same
    by (intro exI[of _ w']) (simp add: lv_cleanup_orphan_snapshots_def lv_scan_orphan_snapshots_def)
qed

text \<open>A host with one image, of one snapshot that libvirt knows and, while the world is \<open>True\<close>, a stray one.\<close>

definition demo_disks_xml :: string where
  "demo_disks_xml = ''<disk type='' @ SQUOTE # ''file'' @ SQUOTE # ''><driver type='' @ SQUOTE # ''qcow2'' @
     SQUOTE # ''/><source file='' @ SQUOTE # ''/d'' @ SQUOTE # ''/></disk>''"

definition demo_host :: "bool lv_api" where
  "demo_host = demo_api
     \<lparr>api_domain_xml := (\<lambda>_ _. Some demo_disks_xml), api_lookup_domain := (\<lambda>_ _. True),
      api_popen := (\<lambda>_ w. (Some (listing_text demo_titles
        (demo_entry ''1'' ''old'' # (if w then [demo_entry ''2'' ''5 MiB of 7''] else []))), w)),
      api_system := (\<lambda>c w. (0, w \<and> c \<noteq> delete_command ''5 MiB of 7'' ''/d''))\<rparr>"

definition demo_images :: "bool \<Rightarrow> string \<Rightarrow> string list" where
  "demo_images w d = (if d = ''/d'' then ''old'' # (if w then [''5 MiB of 7''] else []) else [])"

lemma demo_disk_paths: "get_domain_disk_paths demo_host w vm = [''/d'']"
proof -
  have "get_domain_disk_paths demo_host w vm =
      List.map_filter qcow2_disk (disk_blocks demo_disks_xml) @ nvram_disk demo_disks_xml"
    by (simp add: get_domain_disk_paths_def demo_host_def)
  also have "\<dots> = [''/d'']" by code_simp
  finally show ?thesis .
qed

lemma demo_host_works:
  "qemu_img_works demo_host ''vm'' demo_images [''work'', ''base'', ''old''] [''/d''] UNIV"
proof -
  have names: "qcow2_snapshot_names demo_host ''/d'' w = (Some (demo_images w ''/d''), w)" for w
  proof -
    have "qcow2_snapshot_names demo_host ''/d'' w = (Some (map le_name
        (demo_entry ''1'' ''old'' # (if w then [demo_entry ''2'' ''5 MiB of 7''] else []))), w)"
      by (simp only: qcow2_snapshot_names_def demo_host_def lv_api.simps lv_api.update_convs prod.case option.map)
        (simp add: names_of_listing demo_listing_ok)
    then show ?thesis by (simp add: demo_images_def demo_entry_def)
  qed
  have "demo_images False = (demo_images True)(''/d'' := removeAll ''5 MiB of 7'' (demo_images True ''/d''))"
    by (auto simp: demo_images_def)
  then show ?thesis
    by (auto simp: qemu_img_works_def names demo_disk_paths)
      (auto simp: demo_host_def demo_api_def known_snapshots_def demo_images_def split: if_splits)
qed

theorem cleanup_leaves_no_orphans_witness:
  "\<exists>w'. lv_cleanup_orphan_snapshots demo_host ''vm'' \<lparr>lv_conn = True, lv_last_error = [], lv_world = True\<rparr> =
      (1, \<lparr>lv_conn = True, lv_last_error = [], lv_world = w'\<rparr>) \<and>
    demo_images w' ''/d'' = [''old''] \<and>
    lv_scan_orphan_snapshots demo_host ''vm'' \<lparr>lv_conn = True, lv_last_error = [], lv_world = w'\<rparr> =
      (Some [], \<lparr>lv_conn = True, lv_last_error = [], lv_world = w'\<rparr>)"
proof -
  let ?s = "\<lparr>lv_conn = True, lv_last_error = [], lv_world = True\<rparr>"
  let ?known = "[''work'', ''base'', ''old'']"
  obtain w' where w': "lv_cleanup_orphan_snapshots demo_host ''vm'' ?s =
      (int (sum_list (map (\<lambda>d. length (unknown ?known (demo_images (lv_world ?s) d))) [''/d''])), ?s\<lparr>lv_world := w'\<rparr>)"
    "\<forall>d. demo_images w' d = (if d \<in> set [''/d''] then filter (\<lambda>x. x \<in> set ?known) (demo_images (lv_world ?s) d)
       else demo_images (lv_world ?s) d)"
    "lv_scan_orphan_snapshots demo_host ''vm'' (?s\<lparr>lv_world := w'\<rparr>) = (Some [], ?s\<lparr>lv_world := w'\<rparr>)"
    using cleanup_leaves_no_orphans[OF demo_host_works, of ?s] by auto
  show ?thesis
    by (rule exI[of _ w']) (use w'(1,3) spec[OF w'(2), of "''/d''"] in \<open>simp add: demo_images_def[of True]\<close>)
qed

text \<open>The same host, with a world that is the log of the commands it was given.\<close>

definition demo_logging :: "string list lv_api" where
  "demo_logging = demo_api
     \<lparr>api_domain_xml := (\<lambda>_ _. Some demo_disks_xml), api_lookup_domain := (\<lambda>_ _. True),
      api_popen := (\<lambda>_ w. (Some (listing_text demo_titles
        [demo_entry ''1'' ''old'', demo_entry ''2'' ''5 MiB of 7'']), w)),
      api_system := (\<lambda>c w. (0, c # w))\<rparr>"

lemma delete_old_command: "delete_command q ''/d'' = delete_command ''old'' ''/d'' \<Longrightarrow> q = ''old''"
proof -
  assume e: "delete_command q ''/d'' = delete_command ''old'' ''/d''"
  let ?post = "[SQUOTE] @ '' '' @ [SQUOTE] @ ''/d'' @ [SQUOTE] @ '' 2>&1''"
  have c: "delete_command x ''/d'' = take 4351 (''qemu-img snapshot -d '' @ [SQUOTE] @ x @ ?post)" for x
    by (simp add: delete_command_def snprintf_buf_def)
  show ?thesis
  proof (cases "length q < 1000")
    case True
    with e show ?thesis unfolding c by simp
  next
    case False
    then have "length (delete_command q ''/d'') > 1000" unfolding c by simp
    moreover have "length (delete_command ''old'' ''/d'') < 1000" unfolding c by simp
    ultimately show ?thesis using e by simp
  qed
qed


end
