(* ===== verification/Libvirt_Backend.thy ===== *)
theory Libvirt_Backend
  imports Backend_Contract Libvirt_Ops Libvirt_Folders Libvirt_Automount Libvirt_Orphans
begin

text \<open>
  The table \<open>libvirt_be\<close> of src/libvirt_backend.c, the functions of that file which the handlers call
  directly, and that both keep the contract of the handlers.
\<close>

definition libvirt_be :: "'w lv_api \<Rightarrow> 'w lv_state vm_backend" where
  "libvirt_be api =
     \<lparr>be_name = ''libvirt'',
      be_connect = lv_connect api,
      be_disconnect = lv_disconnect,
      be_list_vms = (\<lambda>s. (lv_list_vms api s, s)),
      be_vm_start = lv_vm_start api,
      be_vm_stop = lv_vm_stop api,
      be_vm_force_stop = Some (lv_vm_force_stop api),
      be_vm_pause = lv_vm_pause api,
      be_vm_resume = Some (lv_vm_resume api),
      be_list_snapshots = (\<lambda>vm s. (lv_list_snapshots api vm s, s)),
      be_create_snapshot = (\<lambda>vm n d ty. lv_create_snapshot api vm n (Some d) ty),
      be_delete_snapshot = (\<lambda>vm n auto_merge. lv_delete_snapshot api vm n),
      be_revert_snapshot = lv_revert_snapshot api,
      be_merge_snapshot = lv_merge_snapshot api,
      be_list_shared_folders = (\<lambda>vm s. (lv_list_shared_folders api vm s, s)),
      be_add_shared_folder = lv_add_shared_folder api,
      be_remove_shared_folder = lv_remove_shared_folder api,
      be_mount_shared_folder = Some (lv_mount_shared_folder api),
      be_unmount_shared_folder = Some (lv_unmount_shared_folder api),
      be_check_mount_status = Some (lv_check_mount_status api),
      be_check_automount_status = Some (lv_check_automount_status api),
      be_setup_automount = Some (lv_setup_automount api),
      be_detect_guest_os = Some (lv_detect_guest_os api)\<rparr>"

definition libvirt_direct :: "'w lv_api \<Rightarrow> 'w lv_state lv_direct" where
  "libvirt_direct api =
     \<lparr>ld_last_error = lv_get_last_error,
      ld_convert_nvram = lv_convert_nvram api,
      ld_check_nvram = lv_check_nvram_format api,
      ld_edit_description = lv_edit_snapshot_description api,
      ld_scan_orphans = lv_scan_orphan_snapshots api,
      ld_cleanup_orphans = lv_cleanup_orphan_snapshots api,
      ld_enable_shared_memory = (\<lambda>vm s. snd (lv_enable_shared_memory api vm s))\<rparr>"

text \<open>
  \<open>lawful api W\<close>: the documented facts about libvirt in the worlds \<open>W\<close>, which its calls do not
  leave: the snapshots it lists for a domain have different names, and none is an ancestor of itself.
\<close>

definition lists_trees :: "'w lv_api \<Rightarrow> 'w \<Rightarrow> bool" where
  "lists_trees api w \<longleftrightarrow> (\<forall>vm names. api_list_snapshots api w vm = Some names \<longrightarrow>
     (\<exists>rank. ranked (map (\<lambda>n. (n, api_snapshot_xml api w vm n)) names) rank))"

definition stays_in :: "'w lv_api \<Rightarrow> 'w set \<Rightarrow> bool" where
  "stays_in api W \<longleftrightarrow> (\<forall>w\<in>W.
     (\<forall>op vm. snd (api_lifecycle api op vm w) \<in> W) \<and>
     (\<forall>vm xml flags. snd (api_create_snapshot api vm xml flags w) \<in> W) \<and>
     (\<forall>vm n b. snd (api_delete_snapshot api vm n b w) \<in> W) \<and>
     (\<forall>vm n. snd (api_revert api vm n w) \<in> W) \<and>
     (\<forall>vm d. snd (api_block_commit api vm d w) \<in> W) \<and>
     (\<forall>xml. snd (api_define_xml api xml w) \<in> W) \<and>
     (\<forall>cmd. snd (api_system api cmd w) \<in> W) \<and>
     (\<forall>p. api_unlink api p w \<in> W) \<and>
     (\<forall>vm xml flags. snd (api_attach_device api vm xml flags w) \<in> W) \<and>
     (\<forall>vm xml flags. snd (api_detach_device api vm xml flags w) \<in> W) \<and>
     (\<forall>vm cmd t. snd (api_agent_command api vm cmd t w) \<in> W) \<and>
     (\<forall>cmd. snd (api_popen api cmd w) \<in> W))"

definition lawful :: "'w lv_api \<Rightarrow> 'w set \<Rightarrow> bool" where
  "lawful api W \<longleftrightarrow> (\<forall>w\<in>W. lists_trees api w) \<and> stays_in api W"

definition in_worlds :: "'w set \<Rightarrow> 'w lv_state \<Rightarrow> bool" where
  "in_worlds W s \<longleftrightarrow> lv_world s \<in> W"

definition lv_good :: "'w lv_api \<Rightarrow> 'w set \<Rightarrow> 'w lv_state \<Rightarrow> bool" where
  "lv_good api W s \<longleftrightarrow> lawful api W \<and> in_worlds W s"

lemma lv_good_keeps:
  "(stays_in api W \<Longrightarrow> keeps (in_worlds W) f) \<Longrightarrow> keeps (lv_good api W) f"
  by (auto simp: keeps_def lv_good_def lawful_def)

lemma set_lv_error_world [simp]: "lv_world (set_lv_error m s) = lv_world s"
  by (simp add: set_lv_error_def)

lemma lv_list_snapshots_tree:
  assumes "lv_good api W s" "lv_list_snapshots api vm s = Some (Some root, h)"
  shows "\<exists>t. holds h t \<and> root_of t = root \<and> heap_ok h \<and> length (addrs t) \<le> length h"
proof -
  from assms(2) obtain names where
    n: "lv_lookup_domain api vm s" "api_list_snapshots api (lv_world s) vm = Some names" "names \<noteq> []"
    by (auto simp: lv_list_snapshots_def split: if_splits option.splits list.splits)
  with assms(1) obtain rank where
    "ranked (map (\<lambda>n. (n, api_snapshot_xml api (lv_world s) vm n)) names) rank"
    unfolding lv_good_def lawful_def lists_trees_def in_worlds_def by blast
  from lv_tree_facts[OF n this] assms(2) obtain t where
    t: "holds h t" "root_of t = root" "heap_ok h" "distinct (addrs t)" "set (addrs t) = {..<length names}"
    and l: "map node_id h = map Some names" by auto
  have "length h = length names" using arg_cong[OF l, of length] by simp
  moreover have "length (addrs t) = length names" using distinct_card[OF t(4)] t(5) by simp
  ultimately show ?thesis using t by auto
qed

lemma stays_step:
  assumes "stays_in api W" "w \<in> W"
  shows "api_lifecycle api op vm w = (r, w') \<Longrightarrow> w' \<in> W"
    and "api_create_snapshot api vm xml fl w = (b, w') \<Longrightarrow> w' \<in> W"
    and "api_delete_snapshot api vm n m w = (r, w') \<Longrightarrow> w' \<in> W"
    and "api_revert api vm n w = (r, w') \<Longrightarrow> w' \<in> W"
    and "api_block_commit api vm n w = (r, w') \<Longrightarrow> w' \<in> W"
    and "api_define_xml api xml w = (b, w') \<Longrightarrow> w' \<in> W"
    and "api_system api cmd w = (r, w') \<Longrightarrow> w' \<in> W"
    and "api_unlink api p w \<in> W"
    and "api_attach_device api vm xml fs w = (r, w') \<Longrightarrow> w' \<in> W"
    and "api_detach_device api vm xml fs w = (r, w') \<Longrightarrow> w' \<in> W"
    and "api_agent_command api vm cmd t w = (a, w') \<Longrightarrow> w' \<in> W"
    and "api_popen api cmd w = (a, w') \<Longrightarrow> w' \<in> W"
  using assms unfolding stays_in_def by (metis snd_conv)+

lemma lv_ops_keep:
  assumes "stays_in api W"
  shows "keeps (in_worlds W) (lv_create_snapshot api vm n d ty)"
    and "keeps (in_worlds W) (lv_revert_snapshot api vm n)"
    and "keeps (in_worlds W) (lv_edit_snapshot_description api vm n d')"
    and "keeps (in_worlds W) (lv_delete_snapshot api vm n)"
    and "keeps (in_worlds W) (lv_merge_snapshot api vm n)"
    and "keeps (in_worlds W) (lv_domain_action api op vm)"
  unfolding keeps_def in_worlds_def
  by (auto simp: lv_create_snapshot_def lv_revert_snapshot_def lv_edit_snapshot_description_def
      lv_delete_snapshot_def lv_merge_snapshot_def lv_domain_action_def Let_def
      split: prod.split bool.split option.split dest: stays_step[OF assms])

lemma lv_convert_keeps:
  assumes "stays_in api W"
  shows "keeps (in_worlds W) (lv_convert_nvram api vm)"
  unfolding keeps_def in_worlds_def lv_convert_nvram_def Let_def
  by (auto split: prod.split bool.split option.split list.split
      intro: stays_step[OF assms] dest: stays_step[OF assms])

text \<open>The exchanges with the guest.\<close>

lemma guest_poll_stays:
  assumes "stays_in api W"
  shows "w \<in> W \<Longrightarrow> guest_poll api vm pid k w = (r, w') \<Longrightarrow> w' \<in> W"
proof (induction k arbitrary: w)
  case (Suc k)
  then show ?case
    by (auto split: prod.splits option.splits if_splits dest: stays_step(11)[OF assms])
qed simp

lemma guest_exec_stays:
  assumes "stays_in api W" "w \<in> W" "guest_exec api vm c w = (r, w')"
  shows "w' \<in> W"
  using assms(2,3) guest_poll_stays[OF assms(1)]
  by (auto simp: guest_exec_def Let_def split: prod.splits option.splits poll_result.splits if_splits
      dest: stays_step(11)[OF assms(1)])

lemma guest_try_stays: "stays_in api W \<Longrightarrow> w \<in> W \<Longrightarrow> guest_try api vm c w \<in> W"
  using guest_exec_stays[of api W w vm c] by (cases "guest_exec api vm c w") (auto simp: guest_try_def)

lemma first_running_stays:
  assumes "stays_in api W"
  shows "w \<in> W \<Longrightarrow> first_running api vm ps d w = (r, w') \<Longrightarrow> w' \<in> W"
proof (induction ps arbitrary: w)
  case (Cons p ps)
  then show ?case
    by (cases p) (auto simp: guest_runs_def split: prod.splits if_splits dest: guest_exec_stays[OF assms])
qed simp

lemma detect_stays:
  assumes "stays_in api W" "w \<in> W" "detect_guest_os_dom api vm w = (g, w')"
  shows "w' \<in> W"
  using assms(2,3)
  by (auto simp: detect_guest_os_dom_def Let_def split: prod.splits option.splits if_splits
      dest: stays_step(11)[OF assms(1)] first_running_stays[OF assms(1)])

lemma run_steps_stays:
  assumes "stays_in api W"
  shows "w \<in> W \<Longrightarrow> run_steps api vm cs w = (r, w') \<Longrightarrow> w' \<in> W"
proof (induction cs arbitrary: w)
  case (Cons c cs)
  then show ?case by (auto split: prod.splits if_splits dest: guest_exec_stays[OF assms])
qed simp

lemma setup_stays:
  assumes "stays_in api W" "w \<in> W" "setup_automount_for api vm g w = (r, w')"
  shows "w' \<in> W"
proof -
  have first: "w2 \<in> W" if "run_first api vm c f cs w1 = (x, w2)" "w1 \<in> W" for c f cs w1 x w2
    using that by (auto simp: run_first_def split: prod.splits if_splits
        dest: guest_exec_stays[OF assms(1)] run_steps_stays[OF assms(1)])
  show ?thesis using assms(2,3) guest_try_stays[OF assms(1,2)]
    by (auto simp: setup_automount_for_def setup_automount_systemd_def setup_automount_openrc_def
        setup_automount_windows_def setup_automount_freebsd_def setup_automount_macos_def
        split: guest_os.splits prod.splits dest: first run_steps_stays[OF assms(1)]
        simp del: run_steps.simps)
qed

lemma guest_ops_keep:
  assumes "stays_in api W"
  shows "keeps (in_worlds W) (lv_mount_shared_folder api vm tag fs)"
    and "keeps (in_worlds W) (lv_unmount_shared_folder api vm tag)"
    and "keeps (in_worlds W) (lv_check_mount_status api vm folders)"
    and "keeps (in_worlds W) (lv_check_automount_status api vm)"
    and "keeps (in_worlds W) (lv_setup_automount api vm)"
    and "keeps (in_worlds W) (lv_detect_guest_os api vm)"
  unfolding keeps_def in_worlds_def
  by (auto simp: lv_mount_shared_folder_def lv_unmount_shared_folder_def lv_check_mount_status_def
      lv_check_automount_status_def lv_setup_automount_def lv_detect_guest_os_def guest_or_error_def
      split: prod.split simp del: first_running.simps
      intro: guest_try_stays[OF assms] guest_exec_stays[OF assms, rotated]
        first_running_stays[OF assms, rotated] detect_stays[OF assms, rotated] setup_stays[OF assms, rotated])

lemma folder_ops_keep:
  assumes "stays_in api W"
  shows "keeps (in_worlds W) (lv_add_shared_folder api vm src tag ro fs)"
    and "keeps (in_worlds W) (lv_remove_shared_folder api vm tag)"
    and "keeps (in_worlds W) (lv_enable_shared_memory api vm)"
  unfolding keeps_def in_worlds_def
  by (auto simp: lv_add_shared_folder_def lv_remove_shared_folder_def lv_enable_shared_memory_def Let_def
      split: prod.split option.split bool.split if_split
      intro: guest_try_stays[OF assms] dest: stays_step[OF assms] stays_step(10)[OF assms guest_try_stays[OF assms]])

lemma keeps_reading: "keeps good (\<lambda>s. (f s, s))"
  by (simp add: keeps_def)

lemma enable_keeps: "lv_good api W s \<Longrightarrow> lv_good api W (snd (lv_enable_shared_memory api vm s))"
  using folder_ops_keep(3)[of api W vm] by (auto simp: lv_good_def lawful_def keeps_def)

text \<open>The exchanges with qemu-img.\<close>

lemma scan_stays:
  assumes "stays_in api W"
  shows "w \<in> W \<Longrightarrow> scan_disks api known ds acc w = (r, w') \<Longrightarrow> w' \<in> W"
proof (induction ds arbitrary: acc w)
  case (Cons d ds)
  then show ?case
    by (auto simp: qcow2_snapshot_names_def split: prod.splits option.splits dest: stays_step(12)[OF assms])
qed simp

lemma clean_names_stays:
  assumes "stays_in api W"
  shows "w \<in> W \<Longrightarrow> clean_names api known d qs n w = (r, w') \<Longrightarrow> w' \<in> W"
proof (induction qs arbitrary: n w)
  case (Cons q qs)
  then show ?case by (auto split: prod.splits if_splits dest: stays_step(7)[OF assms])
qed simp

lemma clean_stays:
  assumes "stays_in api W"
  shows "w \<in> W \<Longrightarrow> clean_disks api known ds n w = (r, w') \<Longrightarrow> w' \<in> W"
proof (induction ds arbitrary: n w)
  case (Cons d ds)
  then show ?case
    by (auto simp: qcow2_snapshot_names_def split: prod.splits option.splits
        dest: stays_step(12)[OF assms] clean_names_stays[OF assms, rotated])
qed simp

lemma orphan_ops_keep:
  assumes "stays_in api W"
  shows "keeps (in_worlds W) (lv_scan_orphan_snapshots api vm)"
    and "keeps (in_worlds W) (lv_cleanup_orphan_snapshots api vm)"
  unfolding keeps_def in_worlds_def
  by (auto simp: lv_scan_orphan_snapshots_def lv_cleanup_orphan_snapshots_def split: prod.split
      dest: scan_stays[OF assms] clean_stays[OF assms])

interpretation lv: serving_backend "libvirt_be api" "libvirt_direct api" "lv_good api W"
  for api W
proof (unfold_locales, goal_cases)
  case (3 s vm root h)
  then show ?case by (intro lv_list_snapshots_tree) (simp_all add: libvirt_be_def)
qed (auto simp: libvirt_be_def libvirt_direct_def lv_ops_keep lv_convert_keeps lv_vm_start_def
      lv_vm_stop_def lv_vm_pause_def lv_vm_resume_def lv_vm_force_stop_def guest_ops_keep
      folder_ops_keep orphan_ops_keep enable_keeps keeps_reading intro!: lv_good_keeps)

text \<open>The program on that table and the libvirt of \<open>demo_api\<close>.\<close>

definition demo_lv_env :: "unit lv_api \<Rightarrow> unit lv_state route_env" where
  "demo_lv_env api =
     \<lparr>re_backend = Some (libvirt_be api), re_direct = libvirt_direct api,
      re_ds = demo_env, re_utf8 = (\<lambda>_. True), re_dumps = (\<lambda>_. Some ''[]''), re_stamp = ''20260101-000000'',
      re_sudo_user = None, re_realpath = Some, re_opendir = (\<lambda>_. None), re_is_dir = (\<lambda>_. True)\<rparr>"

definition demo_lv_app :: "unit lv_state app" where
  "demo_lv_app = \<lparr>app_sys = demo_lv, app_dirty = demo_start\<rparr>"

lemma demo_lawful: "lawful demo_api UNIV"
proof -
  define names where "names = [''work'', ''base'', ''old'']"
  have r: "ranked (map (\<lambda>n. (n, demo_xml n)) names) (\<lambda>n. if n = ''work'' then 1 else 0)"
    by (simp add: ranked_def demo_parents names_def)
  have "api_list_snapshots demo_api w vm = Some names" "api_snapshot_xml demo_api w vm = demo_xml" for w vm
    by (simp_all add: demo_api_def names_def)
  with r show ?thesis by (auto simp: lawful_def lists_trees_def stays_in_def demo_api_def)
qed

end
