(* ===== verification/Main_Program.thy ===== *)
theory Main_Program
  imports Server Libvirt_Backend
begin

text \<open>
  src/main.c: the command line over the settings of the configuration files, the start of the program
  and its end. The order of the options is the order in which \<open>getopt_long\<close> gives them.
\<close>

section \<open>The command line\<close>

datatype cli_option =
    Opt_port string
  | Opt_static_dir string
  | Opt_uri string
  | Opt_dirty_state string
  | Opt_help
  | Opt_unknown

record settings =
  set_port :: int
  set_static_dir :: string
  set_uri :: string
  set_dirty_state :: string

definition config_settings :: "qswm_config \<Rightarrow> settings" where
  "config_settings cfg =
     \<lparr>set_port = cfg_port cfg, set_static_dir = cfg_static_dir cfg, set_uri = cfg_uri cfg,
      set_dirty_state = cfg_dirty_state_path cfg\<rparr>"

text \<open>\<open>Inl\<close> is the exit status of a program that stops at the command line.\<close>

fun parse_options :: "cli_option list \<Rightarrow> settings \<Rightarrow> int + settings" where
  "parse_options [] st = Inr st"
| "parse_options (Opt_port s # os) st =
     (let port = atoi s in
      if port \<le> 0 \<or> 65535 < port then Inl 1 else parse_options os (st\<lparr>set_port := port\<rparr>))"
| "parse_options (Opt_static_dir s # os) st = parse_options os (st\<lparr>set_static_dir := s\<rparr>)"
| "parse_options (Opt_uri s # os) st = parse_options os (st\<lparr>set_uri := s\<rparr>)"
| "parse_options (Opt_dirty_state s # os) st =
     parse_options os (st\<lparr>set_dirty_state := snprintf_buf 256 s\<rparr>)"
| "parse_options (Opt_help # os) st = Inl 0"
| "parse_options (Opt_unknown # os) st = Inl 1"

section \<open>Start and end\<close>

record 's program =
  pr_app :: "'s app"
  pr_server :: server

text \<open>What the program finds when it starts: the HTTP library, the clock, and \<open>sd_listen_fds\<close>.\<close>

record host =
  host_mhd_starts :: "listener \<Rightarrow> bool"
  host_now :: int
  host_listen_fds :: int

text \<open>\<open>Some\<close> is the exit status of a start that fails, \<open>None\<close> a running program.\<close>

definition main_start ::
  "'s vm_backend \<Rightarrow> ds_env \<Rightarrow> host \<Rightarrow> settings \<Rightarrow> 's program \<Rightarrow> int option \<times> 's program" where
  "main_start be ds host st p =
     (case be_connect be (set_uri st) (app_sys (pr_app p)) of
        (rc, s1) \<Rightarrow>
          if rc \<noteq> 0 then (Some 1, p\<lparr>pr_app := (pr_app p)\<lparr>app_sys := s1\<rparr>\<rparr>)
          else
           (let d1 = snd (dirty_state_init ds (Some (set_dirty_state st)) (app_dirty (pr_app p)));
                act_fd = server_check_activation (host_listen_fds host);
                (rc2, sv) =
                  (if 0 \<le> act_fd
                   then server_start_fd (host_mhd_starts host) (host_now host) act_fd
                          (set_static_dir st) (set_uri st) (pr_server p)
                   else server_start (host_mhd_starts host) (host_now host) (set_port st)
                          (set_static_dir st) (set_uri st) (pr_server p))
            in if rc2 \<noteq> 0
               then (Some 1, \<lparr>pr_app = \<lparr>app_sys = be_disconnect be s1, app_dirty = d1\<rparr>, pr_server = sv\<rparr>)
               else (None, \<lparr>pr_app = \<lparr>app_sys = s1, app_dirty = d1\<rparr>, pr_server = sv\<rparr>)))"

definition main_stop :: "'s vm_backend option \<Rightarrow> 's program \<Rightarrow> 's program" where
  "main_stop be2 p =
     \<lparr>pr_app =
        \<lparr>app_sys = (case be2 of None \<Rightarrow> app_sys (pr_app p) | Some be \<Rightarrow> be_disconnect be (app_sys (pr_app p))),
         app_dirty = dirty_state_shutdown (app_dirty (pr_app p))\<rparr>,
      pr_server = snd (server_stop (pr_server p))\<rparr>"

section \<open>Lemmas\<close>

lemma parse_options_no_port:
  "parse_options os st = Inr st' \<Longrightarrow> \<forall>s. Opt_port s \<notin> set os \<Longrightarrow> set_port st' = set_port st"
  by (induction os st rule: parse_options.induct) auto

lemma parse_options_cli_port:
  "parse_options os st = Inr st' \<Longrightarrow> Opt_port s \<in> set os \<Longrightarrow> 0 < set_port st' \<and> set_port st' \<le> 65535"
proof (induction os st arbitrary: s rule: parse_options.induct)
  case (2 s1 os st)
  then have r: "parse_options os (st\<lparr>set_port := atoi s1\<rparr>) = Inr st'" "0 < atoi s1" "atoi s1 \<le> 65535"
    by (auto simp: Let_def split: if_splits)
  show ?case
  proof (cases "\<exists>t. Opt_port t \<in> set os")
    case True
    with 2(1)[OF refl _ r(1)] r(2,3) show ?thesis by auto
  next
    case False
    with parse_options_no_port[OF r(1)] r(2,3) show ?thesis by auto
  qed
qed auto

lemma unat_port: "int (unat (word_of_int p :: 16 word)) = p mod 65536"
  by (simp add: uint_word_of_int)

definition demo_program :: "unit lv_state program" where
  "demo_program =
     \<lparr>pr_app = demo_lv_app,
      pr_server = \<lparr>sv_daemon = None, sv_static_dir = [], sv_libvirt_uri = [],
        sv_socket_activated = False, sv_last_request = 0\<rparr>\<rparr>"

section \<open>Properties\<close>





end
