(* ===== verification/Serving.thy ===== *)
theory Serving
  imports Main_Program
begin

text \<open>
  The program as it serves: the states it can reach by any sequence of calls of the request handler,
  on any connections, with any clock, and what holds in all of them.
\<close>

section \<open>The tracker's table under the handlers\<close>

definition tracks :: "'s app \<Rightarrow> bool" where
  "tracks a \<longleftrightarrow> ds_ok (app_dirty a)"

lemma on_sys_tracks: "on_sys f a = (r, a1) \<Longrightarrow> tracks a1 \<longleftrightarrow> tracks a"
  by (auto simp: on_sys_def tracks_def split: prod.splits)

lemma on_sys_tracksD: "on_sys f a = (r, a1) \<Longrightarrow> tracks a \<Longrightarrow> tracks a1"
  by (simp add: on_sys_tracks)

lemma lookup_tracksD: "lookup_vm_state be vm a = (r, a1) \<Longrightarrow> tracks a \<Longrightarrow> tracks a1"
  by (auto simp: lookup_vm_state_def split: prod.splits option.splits dest: on_sys_tracksD)

lemma dirty_tracksD: "vm_is_dirty env vm st a = (d, a1) \<Longrightarrow> tracks a \<Longrightarrow> tracks a1"
  using ds_ok_set[of "app_dirty a" "re_ds env" vm False]
  by (auto simp: vm_is_dirty_def tracks_def dirty_state_is_dirty_def dirty_state_mark_dirty_def
      split: prod.splits if_splits option.splits)

lemma clean_tracks: "tracks a \<Longrightarrow> tracks (mark_vm_clean env vm a)"
  using ds_ok_set[of "app_dirty a" "re_ds env" vm True]
  by (simp add: mark_vm_clean_def tracks_def dirty_state_mark_clean_def)

lemma fresh_detail_tracksD:
  "fresh_detail env vm n st a = Some (d, a1) \<Longrightarrow> tracks a \<Longrightarrow> tracks a1"
  by (auto simp: fresh_detail_def split: prod.splits option.splits dest: on_sys_tracksD lookup_tracksD)

lemma load_tracksD: "load_snapshot env vm n a = Some (r, a1) \<Longrightarrow> tracks a \<Longrightarrow> tracks a1"
  by (auto simp: load_snapshot_def Let_def split: prod.splits option.splits dest: on_sys_tracksD)

lemma guest_help_tracksD:
  "guest_help_page be vm t d a = (html, a1) \<Longrightarrow> tracks a \<Longrightarrow> tracks a1"
  by (auto simp: guest_help_page_def split: option.splits prod.splits dest: on_sys_tracksD)

lemmas tracksD = on_sys_tracksD lookup_tracksD dirty_tracksD load_tracksD guest_help_tracksD

lemma action_tracks: "vm_action op vm f t a = Some (r, a1) \<Longrightarrow> tracks a \<Longrightarrow> tracks a1"
  by (auto simp: vm_action_def split: option.splits prod.splits if_splits dest: on_sys_tracksD)

lemma show_tracks:
  assumes "tracks a"
  shows "handle_list_vms env a = Some (r, a1) \<Longrightarrow> tracks a1"
    "handle_snapshot_tree env vm a = Some (r, a1) \<Longrightarrow> tracks a1"
    "handle_snapshot_detail env vm n a = Some (r, a1) \<Longrightarrow> tracks a1"
    "handle_edit_snapshot_form env vm n a = Some (r, a1) \<Longrightarrow> tracks a1"
    "handle_revert_confirm env vm n a = Some (r, a1) \<Longrightarrow> tracks a1"
    "handle_browse_dir env path a = Some (r, a1) \<Longrightarrow> tracks a1"
    "handle_orphan_check env vm a = Some (r, a1) \<Longrightarrow> tracks a1"
  using assms
  by (auto simp: handle_list_vms_def handle_snapshot_tree_def handle_snapshot_detail_def
      handle_edit_snapshot_form_def handle_revert_confirm_def handle_browse_dir_def
      handle_orphan_check_def Let_def
      split: option.splits prod.splits if_splits sum.splits dest: tracksD)

lemma change_tracks:
  assumes "tracks a"
  shows "handle_convert_nvram env vm a = Some (r, a1) \<Longrightarrow> tracks a1"
    "handle_orphan_cleanup env vm a = Some (r, a1) \<Longrightarrow> tracks a1"
    "handle_delete_snapshot env vm n a = Some (r, a1) \<Longrightarrow> tracks a1"
    "handle_remove_shared_folder env vm n a = Some (r, a1) \<Longrightarrow> tracks a1"
    "handle_shared_folders env vm a = Some (r, a1) \<Longrightarrow> tracks a1"
    "handle_mount_shared_folder env vm n a = Some (r, a1) \<Longrightarrow> tracks a1"
    "handle_unmount_shared_folder env vm n a = Some (r, a1) \<Longrightarrow> tracks a1"
    "handle_automount_setup env vm a = Some (r, a1) \<Longrightarrow> tracks a1"
  using assms
  by (auto simp: handle_convert_nvram_def handle_orphan_cleanup_def handle_delete_snapshot_def
      handle_remove_shared_folder_def handle_shared_folders_def handle_mount_shared_folder_def
      handle_unmount_shared_folder_def handle_automount_setup_def Let_def
      split: option.splits prod.splits if_splits dest: tracksD)

lemma create_tracks:
  "handle_create_snapshot env vm body a = Some (r, a1) \<Longrightarrow> tracks a \<Longrightarrow> tracks a1"
  by (auto simp: handle_create_snapshot_def form_value_spec Let_def clean_tracks
      split: option.split_asm prod.split_asm if_split_asm dest: on_sys_tracksD)

lemma add_folder_tracks:
  assumes "handle_add_shared_folder env vm body a = Some (r, a1)" "tracks a"
  shows "tracks a1"
proof -
  have t: "tracks (a\<lparr>app_sys := s\<rparr>)" for s using assms(2) by (simp add: tracks_def)
  from assms(1) show ?thesis
    by (simp add: handle_add_shared_folder_def form_value_spec Let_def
        split: option.split_asm if_split_asm prod.split_asm)
      (use assms(2) in \<open>auto dest: on_sys_tracksD[OF _ t] on_sys_tracksD\<close>)
qed

lemma edit_tracks:
  "handle_edit_snapshot env vm n body a = Some (r, a1) \<Longrightarrow> tracks a \<Longrightarrow> tracks a1"
  by (auto simp: handle_edit_snapshot_def form_value_spec
      split: option.split_asm prod.split_asm if_split_asm dest: on_sys_tracksD fresh_detail_tracksD)

lemma revert_tracks:
  assumes "handle_revert_snapshot env vm n arg a = Some (r, a1)" "tracks a"
  shows "tracks a1"
proof -
  have save: "tracks a2" if "save_before_revert env be vm b a3 = (rc, a2)" "tracks a3" for be b a2 a3 rc
    using that by (auto simp: save_before_revert_def split: if_splits dest: on_sys_tracksD)
  from assms show ?thesis
    by (auto simp: handle_revert_snapshot_def Let_def split: option.splits prod.splits if_splits
        dest!: lookup_tracksD save on_sys_tracksD fresh_detail_tracksD intro: clean_tracks)
qed

lemma run_route_tracks:
  assumes "run_route env rq body route a = Some (r, a1)" "tracks a"
  shows "tracks a1"
  using assms
  by (cases route) (auto simp: handle_snapshot_form_def handle_shared_folder_form_def
      handle_vm_start_def handle_vm_stop_def handle_vm_pause_def handle_vm_resume_def
      handle_vm_force_stop_def handle_merge_snapshot_def
      dest: show_tracks[OF assms(2)] change_tracks[OF assms(2)] create_tracks edit_tracks
        revert_tracks add_folder_tracks action_tracks)

section \<open>Reachable states\<close>

inductive serving :: "'s server_env \<Rightarrow> 's app \<times> server \<Rightarrow> 's app \<times> server \<Rightarrow> bool"
  for env :: "'s server_env" where
  idle: "serving env st st"
| call: "serving env st (a, sv) \<Longrightarrow>
    request_handler env now later rq upload slot a sv = Some (d, slot', a', sv') \<Longrightarrow>
    serving env st (a', sv')"

inductive_cases serving_cases: "serving env st st'"

text \<open>One call either leaves the program's state alone or runs the handler of the route once.\<close>

lemma route_dispatch_runs:
  "route_dispatch mem env rq upload con a = Some (d, con', a') \<Longrightarrow>
   a' = a \<or> (\<exists>r body. run_route env rq body (route_of (rq_method rq) (rq_url rq)) a = Some (r, a'))"
  by (auto simp: route_dispatch_def Let_def split: if_splits option.splits prod.splits bool.splits)

lemma request_handler_runs:
  assumes "request_handler env now later rq upload slot a sv = Some (d, slot', a', sv')"
  shows "(a' = a \<or>
      (\<exists>r body. run_route (se_route env) rq body (route_of (rq_method rq) (rq_url rq)) a = Some (r, a'))) \<and>
    sv' = sv\<lparr>sv_last_request := now\<rparr>"
  using assms
  by (auto simp: request_handler_def Let_def touch_activity_def split: if_splits option.splits prod.splits
      dest: route_dispatch_runs)

lemma route_dispatch_returns:
  assumes "\<And>body. run_route env rq body (route_of (rq_method rq) (rq_url rq)) a \<noteq> None"
  shows "route_dispatch mem env rq upload con a \<noteq> None"
proof -
  obtain r where r: "run_route env rq (Option.bind con ctx_body) (route_of (rq_method rq) (rq_url rq)) a = Some r"
    using assms[of "Option.bind con ctx_body"] by blast
  then show ?thesis
    unfolding route_dispatch_def Let_def
    by (cases r; cases con) (simp_all split: prod.split bool.split)
qed

lemma request_handler_returns:
  assumes "\<And>body. run_route (se_route env) rq body (route_of (rq_method rq) (rq_url rq)) a \<noteq> None"
  shows "request_handler env now later rq upload slot a sv \<noteq> None"
proof -
  obtain d con a1 where
    "route_dispatch (se_mem env) (se_route env) rq upload (slot_ctx slot) a = Some (d, con, a1)"
    using route_dispatch_returns[OF assms] by (metis not_None_eq prod_cases3)
  then show ?thesis unfolding request_handler_def Let_def by (cases slot) auto
qed

lemma serving_tracks: "serving env st st' \<Longrightarrow> tracks (fst st) \<Longrightarrow> tracks (fst st')"
  by (induction rule: serving.induct)
    (auto dest!: request_handler_runs dest: run_route_tracks)

lemma serving_keeps_daemon:
  "serving env st st' \<Longrightarrow> \<exists>t. snd st' = (snd st)\<lparr>sv_last_request := t\<rparr>"
proof (induction rule: serving.induct)
  case (idle st)
  show ?case by (intro exI[of _ "sv_last_request (snd st)"]) simp
next
  case call
  then show ?case by (auto dest!: request_handler_runs)
qed

context serving_backend
begin

lemma serving_good:
  assumes "re_backend (se_route env) = Some be" "re_direct (se_route env) = direct"
  shows "serving env st st' \<Longrightarrow> good (app_sys (fst st)) \<Longrightarrow> good (app_sys (fst st'))"
  by (induction rule: serving.induct)
    (auto dest!: request_handler_runs dest: run_route_keeps[OF assms])

end

section \<open>Properties\<close>

text \<open>C1: every call is answered, for ever. Suppose libvirt keeps its documented laws, printing a
  JSON document succeeds, and the tracker's table is well formed at the start. Then after any number
  of calls, with any methods, URLs, bodies and clocks, the next call returns, whatever it is; the
  tracker's table is still well formed, and the daemon has not changed.\<close>

theorem every_call_returns:
  assumes "re_backend (se_route env) = Some (libvirt_be api)"
    and "re_direct (se_route env) = libvirt_direct api"
    and "\<forall>j. re_dumps (se_route env) j \<noteq> None"
    and "lv_good api W (app_sys a0)" "ds_ok (app_dirty a0)"
    and "serving env (a0, sv0) (a, sv)"
  shows "(\<exists>d slot' a' sv'. request_handler env now later rq upload slot a sv = Some (d, slot', a', sv')) \<and>
    ds_ok (app_dirty a) \<and> sv_daemon sv = sv_daemon sv0"
proof -
  from lv.serving_good[OF assms(1,2,6)] assms(4) have g: "lv_good api W (app_sys a)" by simp
  have "request_handler env now later rq upload slot a sv \<noteq> None"
    by (rule request_handler_returns) (rule lv.run_route_total[OF assms(1,2) g assms(3)])
  moreover have "ds_ok (app_dirty a)" using serving_tracks[OF assms(6)] assms(5) by (simp add: tracks_def)
  moreover have "sv_daemon sv = sv_daemon sv0" using serving_keeps_daemon[OF assms(6)] by auto
  ultimately show ?thesis by (cases "request_handler env now later rq upload slot a sv") auto
qed

definition demo_server_env :: "unit lv_state server_env" where
  "demo_server_env =
     \<lparr>se_mem = (\<lambda>_. True), se_route = demo_lv_env demo_api, se_open = (\<lambda>_. Open_fails)\<rparr>"

theorem every_call_returns_witness:
  "(\<exists>d slot' a' sv'. request_handler demo_server_env 1 1
      \<lparr>rq_method = GET, rq_url = ''/api/vms/vm/snapshots'', rq_arg = (\<lambda>_. None)\<rparr> [] Con_empty
      demo_lv_app (pr_server demo_program) = Some (d, slot', a', sv')) \<and>
   ds_ok (app_dirty demo_lv_app) \<and> sv_daemon (pr_server demo_program) = sv_daemon (pr_server demo_program)"
proof (rule every_call_returns[where W = UNIV and api = demo_api])
  show "serving demo_server_env (demo_lv_app, pr_server demo_program) (demo_lv_app, pr_server demo_program)"
    by (rule serving.idle)
  show "lv_good demo_api UNIV (app_sys demo_lv_app)"
    by (simp add: lv_good_def demo_lawful in_worlds_def keeps_def)
qed (simp_all add: demo_server_env_def demo_lv_env_def demo_lv_app_def ds_ok_def demo_start_def)

end
