(* ===== verification/Utm_Backend.thy ===== *)
theory Utm_Backend
  imports Backend_Contract
begin

text \<open>
  src/utm_backend.c: the backend over UTM's command line tool, which is compiled on macOS only. The
  program does not select it: main.c takes the libvirt backend.

  The host is a parameter: \<open>ut_access\<close> is \<open>access\<close> with \<open>X_OK\<close>, \<open>ut_spawn\<close> a child process with its
  output and, when it ends by itself, its exit status (\<open>None\<close> as a whole when the pipe or the fork
  fails), where the number is how many bytes the parent takes before it closes the pipe. The fields
  of a shared folder that the program does not set in the elements that its array grows by are
  \<open>ut_uninit\<close>; in the first four elements they are zero, and a type that is NULL is read as virtiofs
  by the routes and the pages.
\<close>

section \<open>The host\<close>

record 'w utm_env =
  ut_access :: "'w \<Rightarrow> string \<Rightarrow> bool"
  ut_spawn :: "string list \<Rightarrow> nat \<Rightarrow> 'w \<Rightarrow> (string \<times> int option) option \<times> 'w"
  ut_home :: "string option"
  ut_uninit :: "nat \<Rightarrow> string \<times> int \<times> bool"

definition ENOTSUP :: int where
  "ENOTSUP = 45"

definition utmctl_path :: "'w utm_env \<Rightarrow> 'w \<Rightarrow> string option" where
  "utmctl_path env w =
     (if ut_access env w ''/Applications/UTM.app/Contents/MacOS/utmctl''
      then Some ''/Applications/UTM.app/Contents/MacOS/utmctl''
      else if ut_access env w ''/usr/local/bin/utmctl'' then Some ''/usr/local/bin/utmctl''
      else None)"

text \<open>The output after a failed start is not set; nothing but the log reads it.\<close>

definition run_cmd :: "'w utm_env \<Rightarrow> string list \<Rightarrow> nat \<Rightarrow> 'w \<Rightarrow> (int \<times> string) \<times> 'w" where
  "run_cmd env args output_size w =
     (case ut_spawn env args (output_size - 1) w of
        (None, w1) \<Rightarrow> ((- 1, []), w1)
      | (Some (out, status), w1) \<Rightarrow>
          ((case status of Some code \<Rightarrow> code | None \<Rightarrow> - 1, c_str (take (output_size - 1) out)), w1))"

section \<open>Machines\<close>

definition map_status :: "string \<Rightarrow> vm_state" where
  "map_status s =
     (if s = ''started'' \<or> s = ''running'' then VM_RUNNING
      else if s = ''paused'' then VM_PAUSED
      else if s = ''stopped'' then VM_SHUTOFF
      else VM_OTHER)"

definition utm_connect :: "'w utm_env \<Rightarrow> string \<Rightarrow> 'w \<Rightarrow> int \<times> 'w" where
  "utm_connect env uri w = (case utmctl_path env w of None \<Rightarrow> (- 1, w) | Some _ \<Rightarrow> (0, w))"

definition utm_disconnect :: "'w \<Rightarrow> 'w" where
  "utm_disconnect w = w"

text \<open>The lines that \<open>strtok_r\<close> gives.\<close>

definition tokens :: "string \<Rightarrow> string list" where
  "tokens s = filter (\<lambda>t. t \<noteq> []) (split_on LF s)"

definition trim_name :: "string \<Rightarrow> string" where
  "trim_name s = rev (dropWhile (\<lambda>c. blank c \<or> c = CR) (rev s))"

text \<open>Identifier, state and the rest of a line as the name; \<open>None\<close> for a line that lacks one of them.\<close>

definition vm_of_line :: "string \<Rightarrow> vm_info option" where
  "vm_of_line l =
     (let line = dropWhile blank l;
          uuid = takeWhile (\<lambda>c. \<not> blank c) line;
          p = dropWhile blank (drop 1 (dropWhile (\<lambda>c. \<not> blank c) line));
          status = takeWhile (\<lambda>c. \<not> blank c) p;
          name = trim_name (dropWhile blank (drop 1 (dropWhile (\<lambda>c. \<not> blank c) p)))
      in if uuid \<noteq> [] \<and> status \<noteq> [] \<and> name \<noteq> []
         then Some \<lparr>vm_name = name, vm_uuid = uuid, vm_state_of = map_status status,
                    vm_vcpus = 0, vm_memory_kb = 0\<rparr>
         else None)"

definition utm_list_vms :: "'w utm_env \<Rightarrow> 'w \<Rightarrow> vm_info list option \<times> 'w" where
  "utm_list_vms env w =
     (case utmctl_path env w of
        None \<Rightarrow> (None, w)
      | Some path \<Rightarrow>
         (case run_cmd env [path, ''list''] 8192 w of
            ((ret, out), w1) \<Rightarrow>
              (if ret \<noteq> 0 then None else Some (List.map_filter vm_of_line (drop 1 (tokens out))), w1)))"

text \<open>One command of the tool on a machine.\<close>

definition utmctl :: "'w utm_env \<Rightarrow> string \<Rightarrow> string \<Rightarrow> 'w \<Rightarrow> int \<times> 'w" where
  "utmctl env verb vm w =
     (case utmctl_path env w of
        None \<Rightarrow> (- 1, w)
      | Some path \<Rightarrow> (case run_cmd env [path, verb, vm] 1024 w of ((ret, _), w1) \<Rightarrow> (ret, w1)))"

definition utm_vm_start :: "'w utm_env \<Rightarrow> string \<Rightarrow> 'w \<Rightarrow> int \<times> 'w" where
  "utm_vm_start env = utmctl env ''start''"

definition utm_vm_stop :: "'w utm_env \<Rightarrow> string \<Rightarrow> 'w \<Rightarrow> int \<times> 'w" where
  "utm_vm_stop env = utmctl env ''stop''"

definition utm_vm_pause :: "'w utm_env \<Rightarrow> string \<Rightarrow> 'w \<Rightarrow> int \<times> 'w" where
  "utm_vm_pause env = utmctl env ''suspend''"

definition utm_vm_force_stop :: "'w utm_env \<Rightarrow> string \<Rightarrow> 'w \<Rightarrow> int \<times> 'w" where
  "utm_vm_force_stop env = utm_vm_stop env"

definition utm_vm_resume :: "'w utm_env \<Rightarrow> string \<Rightarrow> 'w \<Rightarrow> int \<times> 'w" where
  "utm_vm_resume env = utmctl env ''start''"

section \<open>Snapshots\<close>

definition utm_list_snapshots :: "string \<Rightarrow> 'w \<Rightarrow> (addr option \<times> heap) option \<times> 'w" where
  "utm_list_snapshots vm w = (None, w)"

definition utm_create_snapshot :: "string \<Rightarrow> string \<Rightarrow> string \<Rightarrow> snap_type \<Rightarrow> 'w \<Rightarrow> int \<times> 'w" where
  "utm_create_snapshot vm snap description ty w = (- ENOTSUP, w)"

definition utm_delete_snapshot :: "string \<Rightarrow> string \<Rightarrow> bool \<Rightarrow> 'w \<Rightarrow> int \<times> 'w" where
  "utm_delete_snapshot vm snap auto_merge w = (- ENOTSUP, w)"

definition utm_revert_snapshot :: "string \<Rightarrow> string \<Rightarrow> 'w \<Rightarrow> int \<times> 'w" where
  "utm_revert_snapshot vm snap w = (- ENOTSUP, w)"

definition utm_merge_snapshot :: "string \<Rightarrow> string \<Rightarrow> 'w \<Rightarrow> int \<times> 'w" where
  "utm_merge_snapshot vm snap w = (- ENOTSUP, w)"

section \<open>Shared folders\<close>

text \<open>The path in a line of the property list, if it has one.\<close>

definition share_of_line :: "string \<Rightarrow> string option" where
  "share_of_line line =
     Option.bind (case strstr line ''directoryShareUrl'' of
                    Some key \<Rightarrow> Some key | None \<Rightarrow> strstr line ''DirectoryShare'') (\<lambda>key.
     Option.bind (strstr key [DQUOTE]) (\<lambda>quote1.
     Option.bind (strstr (tl quote1) ''=>'') (\<lambda>arrow.
     Option.bind (strchr arrow DQUOTE) (\<lambda>vq1.
     Option.bind (strchr (tl vq1) DQUOTE) (\<lambda>vq2.
       let share = before (tl vq1) vq2 in
       Some (if prefix ''file://'' share then drop 7 share else share))))))"

definition utm_folder :: "'w utm_env \<Rightarrow> nat \<Rightarrow> string \<Rightarrow> shared_folder" where
  "utm_folder env n share =
     (let (ty, mounted, needs_restart) = (if n < 4 then (''virtiofs'', 0, False) else ut_uninit env n) in
      \<lparr>sf_source_dir = share, sf_mount_tag = ''virtiofs'', sf_fs_type = ty, sf_read_only = False,
       sf_mounted = mounted, sf_needs_restart = needs_restart\<rparr>)"

definition utm_list_shared_folders :: "'w utm_env \<Rightarrow> string \<Rightarrow> 'w \<Rightarrow> shared_folder list option \<times> 'w" where
  "utm_list_shared_folders env vm w =
     (case ut_home env of
        None \<Rightarrow> (None, w)
      | Some home \<Rightarrow>
         (let plist_path = snprintf_buf 1024
            (fmt ''%s/Library/Containers/com.utmapp.UTM/Data/Documents/%s.utm/config.plist'' [home, vm])
          in case run_cmd env [''/usr/bin/plutil'', ''-p'', plist_path] 8192 w of
               ((ret, out), w1) \<Rightarrow>
                 (Some (if ret \<noteq> 0 then []
                        else let shares = List.map_filter share_of_line (tokens out)
                             in map (\<lambda>(n, share). utm_folder env n share) (zip [0..<length shares] shares)),
                  w1)))"

definition utm_add_shared_folder ::
  "string \<Rightarrow> string \<Rightarrow> string \<Rightarrow> bool \<Rightarrow> string \<Rightarrow> 'w \<Rightarrow> int \<times> 'w" where
  "utm_add_shared_folder vm source tag read_only fs_type w = (- ENOTSUP, w)"

definition utm_remove_shared_folder :: "string \<Rightarrow> string \<Rightarrow> 'w \<Rightarrow> int \<times> 'w" where
  "utm_remove_shared_folder vm tag w = (- ENOTSUP, w)"

section \<open>The table\<close>

definition utm_be :: "'w utm_env \<Rightarrow> 'w vm_backend" where
  "utm_be env =
     \<lparr>be_name = ''utm'', be_connect = utm_connect env, be_disconnect = utm_disconnect,
      be_list_vms = utm_list_vms env, be_vm_start = utm_vm_start env, be_vm_stop = utm_vm_stop env,
      be_vm_force_stop = Some (utm_vm_force_stop env), be_vm_pause = utm_vm_pause env,
      be_vm_resume = Some (utm_vm_resume env), be_list_snapshots = utm_list_snapshots,
      be_create_snapshot = utm_create_snapshot, be_delete_snapshot = utm_delete_snapshot,
      be_revert_snapshot = utm_revert_snapshot, be_merge_snapshot = utm_merge_snapshot,
      be_list_shared_folders = utm_list_shared_folders env, be_add_shared_folder = utm_add_shared_folder,
      be_remove_shared_folder = utm_remove_shared_folder, be_mount_shared_folder = None,
      be_unmount_shared_folder = None, be_check_mount_status = None, be_check_automount_status = None,
      be_setup_automount = None, be_detect_guest_os = None\<rparr>"

section \<open>The listing is read back\<close>

text \<open>What utmctl prints for a machine: identifier, blanks, state, blanks, name.\<close>

record utm_entry =
  ue_uuid :: string
  ue_gap :: nat
  ue_status :: string
  ue_pad :: nat
  ue_name :: string

definition word :: "string \<Rightarrow> bool" where
  "word s \<longleftrightarrow> s \<noteq> [] \<and> (\<forall>c\<in>set s. \<not> blank c)"

definition utm_line :: "utm_entry \<Rightarrow> string" where
  "utm_line e = ue_uuid e @ replicate (Suc (ue_gap e)) CHR '' '' @ ue_status e @
     replicate (Suc (ue_pad e)) CHR '' '' @ ue_name e"

definition utm_entry_ok :: "utm_entry \<Rightarrow> bool" where
  "utm_entry_ok e \<longleftrightarrow> word (ue_uuid e) \<and> word (ue_status e) \<and> ue_name e \<noteq> [] \<and>
     \<not> blank (hd (ue_name e)) \<and> \<not> blank (last (ue_name e)) \<and> last (ue_name e) \<noteq> CR \<and>
     LF \<notin> set (utm_line e) \<and> NUL \<notin> set (utm_line e)"

definition utm_listing :: "string \<Rightarrow> utm_entry list \<Rightarrow> string" where
  "utm_listing header es = concat (map (\<lambda>l. l @ [LF]) (header # map utm_line es))"

definition vm_of_entry :: "utm_entry \<Rightarrow> vm_info" where
  "vm_of_entry e = \<lparr>vm_name = ue_name e, vm_uuid = ue_uuid e, vm_state_of = map_status (ue_status e),
     vm_vcpus = 0, vm_memory_kb = 0\<rparr>"

lemma skip_blanks: "dropWhile blank (replicate n CHR '' '' @ s) = dropWhile blank s"
  by (induction n) (simp_all add: blank_def)

lemma word_parts:
  assumes "word u"
  shows "takeWhile (\<lambda>c. \<not> blank c) (u @ CHR '' '' # r) = u"
    and "dropWhile (\<lambda>c. \<not> blank c) (u @ CHR '' '' # r) = CHR '' '' # r"
    and "dropWhile blank (u @ r) = u @ r"
proof -
  have u: "\<forall>c\<in>set u. \<not> blank c" "u \<noteq> []" using assms by (simp_all add: word_def)
  show "takeWhile (\<lambda>c. \<not> blank c) (u @ CHR '' '' # r) = u"
    using u(1) by (simp add: takeWhile_append2 blank_def)
  show "dropWhile (\<lambda>c. \<not> blank c) (u @ CHR '' '' # r) = CHR '' '' # r"
    using u(1) by (simp add: dropWhile_append2 blank_def)
  show "dropWhile blank (u @ r) = u @ r" using u by (cases u) auto
qed

lemma trim_name_id: "s \<noteq> [] \<Longrightarrow> \<not> blank (last s) \<Longrightarrow> last s \<noteq> CR \<Longrightarrow> trim_name s = s"
  by (cases s rule: rev_cases) (auto simp: trim_name_def)

lemma vm_of_utm_line: "utm_entry_ok e \<Longrightarrow> vm_of_line (utm_line e) = Some (vm_of_entry e)"
proof -
  assume ok: "utm_entry_ok e"
  let ?n = "replicate (ue_pad e) CHR '' '' @ ue_name e"
  let ?s = "ue_status e @ CHR '' '' # ?n"
  have w: "word (ue_uuid e)" "word (ue_status e)" and n: "ue_name e \<noteq> []" "\<not> blank (hd (ue_name e))"
    "trim_name (ue_name e) = ue_name e"
    using ok by (auto simp: utm_entry_ok_def trim_name_id)
  have l: "utm_line e = ue_uuid e @ CHR '' '' # replicate (ue_gap e) CHR '' '' @ ?s"
    by (simp add: utm_line_def)
  have name: "dropWhile blank ?n = ue_name e"
    using n by (cases "ue_name e") (simp_all add: skip_blanks)
  have status: "dropWhile blank (replicate (ue_gap e) CHR '' '' @ ?s) = ?s"
    using word_parts(3)[OF w(2), of "CHR '' '' # ?n"] by (simp add: skip_blanks)
  show ?thesis
    unfolding vm_of_line_def l word_parts(3)[OF w(1)] word_parts(1,2)[OF w(1)] Let_def
    using w n by (simp add: status name word_parts[OF w(2)] vm_of_entry_def word_def)
qed

lemma split_on_lines:
  "\<forall>l\<in>set ls. LF \<notin> set l \<Longrightarrow> split_on LF (concat (map (\<lambda>l. l @ [LF]) ls)) = ls @ [[]]"
  by (induction ls) (auto simp: split_on_append_sep)

text \<open>A listing that fits the buffer is read as exactly the machines that it names, in order.\<close>

lemma utm_listing_read:
  assumes "list_all utm_entry_ok es" "header \<noteq> []" "LF \<notin> set header" "NUL \<notin> set header"
    and "length (utm_listing header es) < 8192"
    and "utmctl_path env w = Some path"
    and "ut_spawn env [path, ''list''] 8191 w = (Some (utm_listing header es, Some 0), w1)"
  shows "utm_list_vms env w = (Some (map vm_of_entry es), w1)"
proof -
  have lines: "\<forall>l\<in>set (header # map utm_line es). LF \<notin> set l \<and> l \<noteq> [] \<and> NUL \<notin> set l"
    using assms(1-4) by (auto simp: list_all_iff utm_entry_ok_def utm_line_def)
  then have "NUL \<notin> set (utm_listing header es)" by (auto simp: utm_listing_def)
  then have out: "run_cmd env [path, ''list''] 8192 w = ((0, utm_listing header es), w1)"
    using assms(5,7) by (simp add: run_cmd_def c_str_id)
  have "tokens (utm_listing header es) = header # map utm_line es"
    using lines split_on_lines[of "header # map utm_line es"]
    by (auto simp: tokens_def utm_listing_def filter_id_conv)
  moreover have "List.map_filter vm_of_line (map utm_line xs) = map vm_of_entry xs" if "list_all utm_entry_ok xs" for xs
    using that by (induction xs) (auto simp: List.map_filter_simps vm_of_utm_line)
  ultimately show ?thesis using assms(1,6) by (simp add: utm_list_vms_def out)
qed

section \<open>The lists only read\<close>

text \<open>
  A host on which utmctl's listing changes nothing is a backend whose lists only read; no snapshot
  operation reaches the host at all.
\<close>

definition settled :: "'w utm_env \<Rightarrow> 'w utm_env" where
  "settled env = env\<lparr>ut_spawn := \<lambda>args n w.
     (fst (ut_spawn env args n w), if args \<noteq> [] \<and> tl args = [''list''] then w else snd (ut_spawn env args n w))\<rparr>"

lemma settled_same:
  assumes "\<And>p n w. snd (ut_spawn env [p, ''list''] n w) = w"
  shows "settled env = env"
proof -
  have "(fst (ut_spawn env args n w), if args \<noteq> [] \<and> tl args = [''list''] then w else snd (ut_spawn env args n w)) =
      ut_spawn env args n w" for args n w
    using assms[of "hd args" n w] by (cases args) (auto simp: prod_eq_iff)
  then show ?thesis by (simp add: settled_def)
qed

lemma settled_list_reads: "snd (utm_list_vms (settled env) w) = w"
  by (auto simp: utm_list_vms_def run_cmd_def settled_def split: option.splits prod.splits)

interpretation utm: serving_backend "utm_be (settled env)" direct "\<lambda>_. True" for env direct
  by unfold_locales (simp_all add: utm_be_def settled_list_reads utm_list_snapshots_def keeps_def)

end
