(* ===== verification/Spec2Isabelle.thy ===== *)
theory Spec2Isabelle
  imports Serving Utm_Backend
begin

text \<open>
  A verification development for the QEMU snapshot web manager: a C program that serves a web page on
  which virtual machines of libvirt are started and stopped and their snapshots, shared folders and
  NVRAM images are managed. This root theory holds the overview and the properties that span the
  whole program; the others belong to one part each.

  \<^bold>\<open>The program and its theories.\<close>
  \<^item> src/main.c (\<open>Main_Program\<close>) reads the configuration files (src/config.c, \<open>Config\<close>) and the command
    line, connects the backend, loads the dirty-state table and starts the HTTP daemon.
  \<^item> src/server.c (\<open>Server\<close>) is the callback of the daemon: it serves static files and the idle check
    itself and hands the rest, with the pieces of the request body, to the routes.
  \<^item> src/routes.c: the body accumulator and the form decoder (\<open>Requests\<close>), the dispatch by method and
    path (\<open>Routes\<close>; \<open>Urls\<close> relates it to the links of the pages), and the handlers (\<open>Handlers\<close>,
    \<open>Folder_Handlers\<close>; the literal pages are in \<open>Route_Templates\<close>).
  \<^item> src/html_render.c: escaping and the string builder (\<open>Html_Text\<close>), the pages (\<open>Html_Render\<close> over the
    literal templates of \<open>Html_Templates\<close>).
  \<^item> src/snapshot.c (\<open>Snapshot\<close>): snapshot trees on an explicit heap of nodes.
  \<^item> src/dirty_state.c (\<open>Dirty_State\<close>): the persistent table of the machines that are clean since their
    snapshot, over the file system calls of \<open>Posix\<close> and the JSON values of \<open>Json\<close>.
  \<^item> src/vm_backend.h, src/vm_backend.c (\<open>Backend\<close>): the table of operations that a backend offers.
  \<^item> src/libvirt_backend.c: XML text (\<open>Libvirt_Xml\<close>), connection, machines and the snapshot list
    (\<open>Libvirt_Core\<close>, with its tree in \<open>Libvirt_Tree\<close>), creating, editing, deleting, reverting and
    merging snapshots and the NVRAM conversion (\<open>Libvirt_Ops\<close>), shared folders (\<open>Libvirt_Folders\<close>),
    commands through the guest agent (\<open>Libvirt_Agent\<close>), the auto-mount service (\<open>Libvirt_Automount\<close>),
    orphaned snapshots on disk images (\<open>Libvirt_Orphans\<close>), literal commands and texts
    (\<open>Agent_Scripts\<close>), and the table itself (\<open>Libvirt_Backend\<close>).
  \<^item> src/utm_backend.c (\<open>Utm_Backend\<close>): the table over utmctl that is compiled on macOS; the program
    never selects it.
  \<^item> src/util.c (\<open>Util\<close>); \<open>Prelude\<close> has the functions of the C library that the program calls.

  \<^bold>\<open>How the code is read.\<close> A definition has the name of the C function it models, and the steps of a
  long function have names of their own. A \<open>char *\<close> is a byte string, or an option of one where NULL is
  passed; a pointer into a text is the rest of the text. Numbers are integers, cut to their C width
  where the code can exceed it (\<open>atoi\<close>, the \<open>int\<close> of a JSON integer, the 16 bits of a port). Buffers
  of a fixed size cut what is printed into them (\<open>snprintf_buf\<close>). Handlers and backend operations pass
  the state explicitly; an operation of libvirt is a field of the record \<open>lv_api\<close> on a world of which
  nothing is assumed unless a theorem says so. A result type with \<open>None\<close> or a non-zero number is the
  error the C function returns.

  \<^bold>\<open>Loops and fuel.\<close> Loops over texts are recursive functions with a proved measure. Three are given
  fuel: the walks over snapshot heaps, with one more than the number of nodes, which suffices for every
  heap that holds a tree; \<open>form_value\<close>, with one more than the length of the body; and the polling of a
  guest command, whose ten questions are the code's own bound. The searches with an explicit stack have
  the code's 256 slots. That no call runs out of fuel is part of the property \<open>every_call_returns\<close>.

  \<^bold>\<open>The interfaces.\<close> \<open>text_escape\<close> and \<open>markup_escape\<close> (\<open>Escape\<close>) are the contract of the three
  escaping routines, for JSON, HTML and XML. \<open>growing_buffer\<close> (\<open>Buffers\<close>) is the contract of the string
  builder and of the body accumulator, for every allocator. \<open>vm_tracker\<close> (\<open>Tracker\<close>) is what the
  handlers need of the dirty-state table. \<open>reading_backend\<close>, \<open>tree_backend\<close> and \<open>serving_backend\<close>
  (\<open>Backend_Contract\<close>) are what the handlers need of a backend; the libvirt table keeps them for every
  set of worlds that libvirt stays in and in which no snapshot is its own ancestor, the UTM table on
  every host on which listing changes nothing.

  \<^bold>\<open>What is proved.\<close>
  \<^item> Whole program: every call of the request handler returns, in every state that a sequence of
    calls can reach (\<open>Serving\<close>); a GET request leaves libvirt as it is; the order and the guards of
    creating, deleting and reverting; the page of the snapshot tree shows the tree that libvirt
    describes, with the node for the current state; what the start opens, the end closes.
  \<^item> Snapshots: the list of libvirt becomes one complete tree with consistent links, whatever its order;
    search and JSON output agree with their reference definitions; the description of a new snapshot
    holds the user's texts escaped; editing and NVRAM conversion rewrite the place they mean.
  \<^item> Dirty state: the table reports the last mark of each machine, survives a restart, and a crash
    during a save leaves the old file or the new one.
  \<^item> Requests and pages: the body reaches its handler as it was sent, in any pieces; form values are
    read back; no markup comes from a name; where the buttons of a panel lead, also for names that
    the browser takes for more than a path;
    static files are served from inside their directory only; directories are listed in order.
  \<^item> Shared folders and guests: the list reads back what was written; the right element is detached;
    hot-adding and its prompt; the number of exchanges with a guest is bounded; commands arrive
    as they were meant; the mount status; the installation of auto-mount succeeds as a whole or reports.
  \<^item> Orphans: the listing of qemu-img is read; the cleanup spares what libvirt lists, removes
    the rest, and a scan then finds nothing.

  \<^bold>\<open>Parameters and hypotheses.\<close> libvirt, the guest agent, qemu-img and the shell, the HTTP
  daemon, the JSON library with its UTF-8 check, the file system with its failures, \<open>realpath\<close>,
  \<open>readdir\<close> and the clock are arguments. Properties that need a law of one of them state it as a
  hypothesis, and each has an instance in which it holds.

  \<^bold>\<open>Not modelled.\<close> Memory is not exhausted, except in the two growing buffers, where every
  allocation may fail; freeing has no effect, so leaks and double frees are out of sight. The
  mutex of the libvirt backend is left out: the calls of the request handler are steps that do not
  overlap, as with the single thread of the daemon. Logging, signals, the usage text and the waiting between questions to a guest have no
  effect in the model. The browser's side (static/), the scripts, the units and the packaging are not
  C code of the server.
\<close>

section \<open>Looking changes nothing\<close>

text \<open>C21: looking changes nothing. A GET request, whatever its URL and arguments, leaves the libvirt
  connection, the recorded error and the whole world of libvirt as they were; only the
  list of shared folders and the orphan check, which ask the guest and the disks, are not covered.\<close>

theorem get_leaves_libvirt_alone:
  assumes "re_backend env = Some (libvirt_be api)" "rq_method rq = GET"
    and "run_route env rq body (route_of (rq_method rq) (rq_url rq)) a = Some (r, a1)"
    and "\<forall>vm. route_of GET (rq_url rq) \<notin> {R_shared_folders vm, R_orphan_check vm}"
  shows "app_sys a1 = app_sys a"
proof -
  have "showing (route_of GET (rq_url rq))" using get_shows[of "rq_url rq"] assms(4) by auto
  with lv.showing_keeps_sys[OF assms(1) _ assms(3)] assms(2) show ?thesis by simp
qed

theorem get_leaves_libvirt_alone_witness:
  "\<exists>r a1. run_route (demo_lv_env demo_api)
      \<lparr>rq_method = GET, rq_url = ''/api/vms'', rq_arg = (\<lambda>_. None)\<rparr> None (route_of GET ''/api/vms'')
      demo_lv_app = Some (r, a1) \<and> app_sys a1 = app_sys demo_lv_app"
proof -
  let ?rq = "\<lparr>rq_method = GET, rq_url = ''/api/vms'', rq_arg = (\<lambda>_. None :: string option)\<rparr>"
  have r: "route_of GET ''/api/vms'' = R_list_vms"
    using route_of_path[of "[''vms'']" GET] by (simp add: api_path_def segment_ok_def)
  obtain x a1 where "run_route (demo_lv_env demo_api) ?rq None (route_of GET ''/api/vms'') demo_lv_app = Some (x, a1)"
    using other_total(1)[of "demo_lv_env demo_api" demo_lv_app] by (auto simp: r)
  with get_leaves_libvirt_alone[of "demo_lv_env demo_api" demo_api ?rq None demo_lv_app x a1]
  show ?thesis by (auto simp: demo_lv_env_def r)
qed

section \<open>Deleting and reverting\<close>

text \<open>C3: deleting a snapshot is refused exactly while the machine is known to run or to be paused.
  If libvirt's list gives the machine one of the two states, a DELETE leaves everything as it
  is and answers 400; otherwise, also when the list fails or lacks the machine, it makes the one deletion call,
  touches nothing else of the program, and answers 200 exactly if the call succeeds.\<close>

theorem delete_guard:
  fixes vm :: string and a :: "'w lv_state app"
  assumes "re_backend env = Some (libvirt_be api)"
  defines "st \<equiv> Option.bind (lv_list_vms api (app_sys a)) (find_vm vm)"
  shows "\<exists>r. run_route env rq body (R_delete_snapshot vm n) a =
      Some (r, if st = Some VM_RUNNING \<or> st = Some VM_PAUSED then a
               else a\<lparr>app_sys := snd (lv_delete_snapshot api vm n (app_sys a))\<rparr>) \<and>
    r_status r = (if st = Some VM_RUNNING \<or> st = Some VM_PAUSED then MHD_HTTP_BAD_REQUEST
                  else if fst (lv_delete_snapshot api vm n (app_sys a)) = 0 then MHD_HTTP_OK
                  else MHD_HTTP_INTERNAL_SERVER_ERROR) \<and>
    r_trigger r = vm_changed"
proof -
  have st: "listed_state (libvirt_be api) vm (app_sys a) = st"
    by (simp add: st_def listed_state_def libvirt_be_def)
  have d: "be_delete_snapshot (libvirt_be api) vm n b = lv_delete_snapshot api vm n" for b
    by (simp add: libvirt_be_def)
  obtain rc s1 where c: "lv_delete_snapshot api vm n (app_sys a) = (rc, s1)" by fastforce
  show ?thesis using assms(1)
    by (auto simp: handle_delete_snapshot_def lv.lookup_reads st d on_sys_def c send_html_trigger_def)
qed

definition demo_rq :: request where
  "demo_rq = \<lparr>rq_method = POST, rq_url = [], rq_arg = (\<lambda>k. if k = ''save_current'' then Some ''1'' else None)\<rparr>"

definition running_api :: "unit lv_api" where
  "running_api = demo_api\<lparr>api_state := (\<lambda>_ _. Some VIR_DOMAIN_RUNNING)\<rparr>"

lemma listed_demo:
  "lv_list_vms running_api demo_lv = Some
     [\<lparr>vm_name = ''vm'', vm_uuid = ''0'', vm_state_of = VM_RUNNING, vm_vcpus = 0, vm_memory_kb = 0\<rparr>]"
  "lv_list_vms demo_api demo_lv = Some
     [\<lparr>vm_name = ''vm'', vm_uuid = ''0'', vm_state_of = VM_SHUTOFF, vm_vcpus = 0, vm_memory_kb = 0\<rparr>]"
  by (simp_all add: running_api_def demo_api_def demo_lv_def lv_list_vms_def lv_vm_info_def
      map_domain_state_def)

theorem delete_guard_witness:
  "\<exists>r. run_route (demo_lv_env running_api) demo_rq None (R_delete_snapshot ''vm'' ''old'') demo_lv_app =
      Some (r, demo_lv_app) \<and> r_status r = MHD_HTTP_BAD_REQUEST"
proof -
  have be: "re_backend (demo_lv_env running_api) = Some (libvirt_be running_api)"
    by (simp add: demo_lv_env_def)
  have sys: "app_sys demo_lv_app = demo_lv" by (simp add: demo_lv_app_def)
  have st: "Option.bind (lv_list_vms running_api (app_sys demo_lv_app)) (find_vm ''vm'') = Some VM_RUNNING"
    by (simp add: sys listed_demo find_vm_def)
  show ?thesis
    using delete_guard[OF be, where a = demo_lv_app and vm = "''vm''" and rq = demo_rq and body = None
        and n = "''old''"] unfolding st by auto
qed

text \<open>C4: a revert never runs under a running machine, and never before the requested save.
  While libvirt's list says that the machine runs, nothing happens and the answer is 400. Otherwise
  an internal snapshot is made first when \<open>save_current\<close> is 1; if that fails, the revert is not
  tried and the answer is 500; else the one revert call follows, on what the save left.\<close>

theorem revert_order:
  fixes vm :: string and a :: "'w lv_state app" and rq :: request
  assumes "re_backend env = Some (libvirt_be api)"
    and "lv_good api W (app_sys a)"
  defines "st \<equiv> Option.bind (lv_list_vms api (app_sys a)) (find_vm vm)"
    and "save \<equiv> rq_arg rq ''save_current'' = Some ''1''"
    and "saved \<equiv> lv_create_snapshot api vm (''pre-revert-'' @ re_stamp env)
           (Some ''Auto-saved before revert'') SNAP_INTERNAL (app_sys a)"
  shows "\<exists>r a1. run_route env rq body (R_revert vm n) a = Some (r, a1) \<and>
    (if st = Some VM_RUNNING then r_status r = MHD_HTTP_BAD_REQUEST \<and> a1 = a
     else if save \<and> fst saved \<noteq> 0
     then r_status r = MHD_HTTP_INTERNAL_SERVER_ERROR \<and> a1 = a\<lparr>app_sys := snd saved\<rparr>
     else let s1 = (if save then snd saved else app_sys a);
              (rc, s2) = lv_revert_snapshot api vm n s1 in
       app_sys a1 = s2 \<and>
       (if rc = 0 then r_status r = MHD_HTTP_OK \<and> app_dirty a1 = dirty_state_mark_clean (re_ds env) (Some vm) (app_dirty a)
        else r_status r = MHD_HTTP_INTERNAL_SERVER_ERROR \<and> app_dirty a1 = app_dirty a))"
proof -
  have st: "listed_state (libvirt_be api) vm (app_sys a) = st"
    by (simp add: st_def listed_state_def libvirt_be_def)
  have ops: "be_create_snapshot (libvirt_be api) vm m d ty = lv_create_snapshot api vm m (Some d) ty"
    "be_revert_snapshot (libvirt_be api) vm n = lv_revert_snapshot api vm n" for m d ty
    by (simp_all add: libvirt_be_def)
  obtain r a1 where run: "handle_revert_snapshot env vm n (rq_arg rq ''save_current'') a = Some (r, a1)"
    using lv.revert_total[OF assms(1,2), of vm n "rq_arg rq ''save_current''"] by auto
  obtain src s1 where sv: "saved = (src, s1)" by fastforce
  obtain rc s2 where rv: "lv_revert_snapshot api vm n (if save then s1 else app_sys a) = (rc, s2)" by fastforce
  define a2 where "a2 = (if save then a\<lparr>app_sys := s1\<rparr> else a)"
  define rc1 where "rc1 = (if save then src else 0)"
  have save: "save_before_revert env (libvirt_be api) vm (rq_arg rq ''save_current'' = Some ''1'') a = (rc1, a2)"
    unfolding save_before_revert_def on_sys_def ops saved_def[symmetric] save_def[symmetric] sv a2_def rc1_def
    by simp
  have rev: "on_sys (be_revert_snapshot (libvirt_be api) vm n) a2 = (rc, a2\<lparr>app_sys := s2\<rparr>)"
    using rv by (simp add: on_sys_def ops a2_def split: if_splits)
  have "if st = Some VM_RUNNING then r_status r = MHD_HTTP_BAD_REQUEST \<and> a1 = a
     else if rc1 \<noteq> 0 then r_status r = MHD_HTTP_INTERNAL_SERVER_ERROR \<and> a1 = a2
     else app_sys a1 = s2 \<and>
       (if rc = 0 then r_status r = MHD_HTTP_OK \<and> app_dirty a1 = dirty_state_mark_clean (re_ds env) (Some vm) (app_dirty a2)
        else r_status r = MHD_HTTP_INTERNAL_SERVER_ERROR \<and> app_dirty a1 = app_dirty a2)"
    using run assms(1) unfolding handle_revert_snapshot_def Let_def
    by (auto simp: lv.lookup_reads st save rev send_html_trigger_def mark_vm_clean_def
        split: if_splits option.splits dest!: lv.fresh_detail_reads[OF assms(1)])
  with run rv show ?thesis
    by (intro exI[of _ r] exI[of _ a1]) (auto simp: sv a2_def rc1_def split: if_splits)
qed

theorem revert_order_witness:
  "\<exists>r a1. run_route (demo_lv_env demo_api) demo_rq None (R_revert ''vm'' ''old'') demo_lv_app = Some (r, a1) \<and>
     r_status r = MHD_HTTP_OK"
proof -
  have good: "lv_good demo_api UNIV (app_sys demo_lv_app)"
    by (simp add: lv_good_def demo_lawful in_worlds_def keeps_def)
  have ok: "fst (lv_create_snapshot demo_api ''vm'' n d SNAP_INTERNAL demo_lv) = 0"
    "snd (lv_create_snapshot demo_api ''vm'' n d SNAP_INTERNAL demo_lv) = demo_lv"
    "lv_revert_snapshot demo_api ''vm'' ''old'' demo_lv = (0, demo_lv)" for n d
    by (simp_all add: lv_create_snapshot_def lv_revert_snapshot_def lv_lookup_domain_def demo_api_def
        demo_lv_def Let_def)
  have be: "re_backend (demo_lv_env demo_api) = Some (libvirt_be demo_api)"
    by (simp add: demo_lv_env_def)
  have arg: "rq_arg demo_rq ''save_current'' = Some ''1''" by (simp add: demo_rq_def)
  have sys: "app_sys demo_lv_app = demo_lv" by (simp add: demo_lv_app_def)
  show ?thesis
    using revert_order[OF be good, where vm = "''vm''" and rq = demo_rq and body = None and n = "''old''"]
    unfolding sys listed_demo arg by (auto simp: find_vm_def ok)
qed

section \<open>Creating\<close>

text \<open>C5: the creation form reaches libvirt as it was filled in. When the browser sends a name, a
  description and a type, the one creation call gets the machine of the URL, the name with its spaces
  turned to hyphens, the description unchanged and the external type exactly for
  \<open>external\<close>. The answer is 200 and the machine is marked clean exactly if the call succeeds. An
  empty name is refused with 400 and no call.\<close>

theorem create_request:
  assumes "re_backend env = Some (libvirt_be api)" "NUL \<notin> set n" "NUL \<notin> set d" "NUL \<notin> set t"
  defines "ty \<equiv> if t = ''external'' then SNAP_EXTERNAL else SNAP_INTERNAL"
    and "body \<equiv> form_body [(''name'', n), (''description'', d), (''type'', t)]"
  shows "\<exists>r a1. run_route env rq (Some body) (R_create_snapshot vm) a = Some (r, a1) \<and>
    (if n = [] then r_status r = MHD_HTTP_BAD_REQUEST \<and> a1 = a
     else let (rc, s1) = lv_create_snapshot api vm (hyphenate n) (Some d) ty (app_sys a) in
       app_sys a1 = s1 \<and>
       (if rc = 0 then r_status r = MHD_HTTP_OK \<and> app_dirty a1 = dirty_state_mark_clean (re_ds env) (Some vm) (app_dirty a)
        else r_status r = MHD_HTTP_INTERNAL_SERVER_ERROR \<and> app_dirty a1 = app_dirty a))"
proof -
  have keys: "form_key ''name''" "form_key ''description''" "form_key ''type''"
    by (simp_all add: form_key_def form_plain_def isdigit_def)
  define fs where "fs = [(''name'', n), (''description'', d), (''type'', t)]"
  have "\<forall>(k, v)\<in>set fs. form_key k \<and> NUL \<notin> set v" using keys assms(2-4) by (simp add: fs_def)
  then have "form_value (Some body) k = Some (map_of fs k)" if "form_key k" for k
    using form_value_form_body[OF that] by (simp only: body_def fs_def)
  then have v: "form_value (Some body) ''name'' = Some (Some n)"
    "form_value (Some body) ''description'' = Some (Some d)" "form_value (Some body) ''type'' = Some (Some t)"
    using keys by (simp_all add: fs_def)
  have ops: "be_create_snapshot (libvirt_be api) vm m e ty = lv_create_snapshot api vm m (Some e) ty" for m e
    by (simp add: libvirt_be_def)
  obtain rc s1 where c: "lv_create_snapshot api vm (hyphenate n) (Some d) ty (app_sys a) = (rc, s1)" by fastforce
  have ty: "(if Some t \<noteq> None \<and> str_eq (Some t) (Some ''external'') then SNAP_EXTERNAL else SNAP_INTERNAL) = ty"
    by (simp add: ty_def)
  show ?thesis
    unfolding run_route.simps handle_create_snapshot_def assms(1) option.case v bind.bind_lunit ty Let_def ops
      on_sys_def
    by (simp add: c or_empty_def send_html_trigger_def mark_vm_clean_def)
qed

theorem create_request_witness:
  "\<exists>r a1. run_route (demo_lv_env demo_api) demo_rq
      (Some (form_body [(''name'', ''my snap''), (''description'', ''a&b''), (''type'', ''internal'')]))
      (R_create_snapshot ''vm'') demo_lv_app = Some (r, a1) \<and> r_status r = MHD_HTTP_OK"
proof -
  have be: "re_backend (demo_lv_env demo_api) = Some (libvirt_be demo_api)"
    by (simp add: demo_lv_env_def)
  have c: "lv_create_snapshot demo_api ''vm'' n d ty (app_sys demo_lv_app) = (0, demo_lv)" for n d ty
    by (simp add: lv_create_snapshot_def lv_lookup_domain_def demo_api_def demo_lv_app_def demo_lv_def Let_def)
  from create_request[OF be, of "''my snap''" "''a&b''" "''internal''" demo_rq "''vm''" demo_lv_app]
  show ?thesis unfolding c by auto
qed

section \<open>The snapshot tree as served\<close>

text \<open>The names in the document, from the heap after the current state was added.\<close>

lemma names_with_current_state:
  assumes t: "holds h t" "heap_ok h" "distinct (addrs t)" "length (addrs t) \<le> 256" "length (addrs t) \<le> k"
    and id: "\<forall>a\<in>set (addrs t). utf8 (or_empty (node_id (h ! a)))" "utf8 ''__current_state__''"
  shows "\<exists>h' j. snapshot_tree_add_current_state k h (root_of t) st d = Some h' \<and>
    node_to_json utf8 (tree_fuel h') h' (root_of t) = Some j \<and>
    mset (json_names j) = mset (map (\<lambda>a. or_empty (node_id (h ! a))) (addrs t)) +
      (if \<exists>a\<in>set (addrs t). is_current (h ! a) then {#''__current_state__''#} else {#})"
proof -
  let ?name = "\<lambda>h a. or_empty (node_id (h ! a))"
  have "set (addrs t) \<subseteq> {..<length h}" using holds_addrs[OF t(1)] by auto
  then have fits: "length (addrs t) \<le> length h"
    using distinct_card[OF t(3)] card_mono[of "{..<length h}" "set (addrs t)"] by simp
  from current_node_correct[OF t(1,4,5)] obtain r where
    r: "current_node k h (root_of t) = Some r"
      "case r of None \<Rightarrow> \<forall>a\<in>set (addrs t). \<not> is_current (h ! a)
       | Some a \<Rightarrow> is_current (h ! a) \<and> a \<in> set (addrs t)" by blast
  show ?thesis
  proof (cases r)
    case None
    have "height t \<le> tree_fuel h" using fits height_le_length_addrs[of t] by (simp add: tree_fuel_def)
    from node_to_json_refines[OF t(1) this, of utf8] None r id(1) show ?thesis
      by (simp add: snapshot_tree_add_current_state_def json_names_json_of)
  next
    case (Some cur)
    let ?t = "attach cur (length h) t"
    from Some r have c: "current_node k h (root_of t) = Some (Some cur)" "cur < length h"
      "is_current (h ! cur)" "cur \<in> set (addrs t)" using holds_addrs[OF t(1)] by auto
    from add_current_state_attach[OF c(1,2) t(1,2)] obtain h' where
      h': "snapshot_tree_add_current_state k h (root_of t) st d = Some h'" "holds h' ?t" by blast
    have len: "length h' = Suc (length h)" using h'(1) add_current_state_Some[OF c(1,2), of st d] by auto
    note ids = add_current_state_ids[OF c(1,2) h'(1)]
    have ms: "mset (addrs ?t) = add_mset (length h) (mset (addrs t))" by (rule mset_attach[OF t(3) c(4)])
    then have st: "set (addrs ?t) = insert (length h) (set (addrs t))"
      by (metis set_mset_add_mset_insert set_mset_mset)
    have old: "?name h' a = ?name h a" if "a \<in> set (addrs t)" for a
      using ids(1) holds_addrs[OF t(1) that] by simp
    have ok: "utf8 (?name h' a)" if "a \<in> set (addrs ?t)" for a
      using that id old ids(2) by (auto simp: st or_empty_def)
    have "height ?t \<le> tree_fuel h'"
      using height_attach[of cur "length h" t] height_le_length_addrs[of t] fits len by (simp add: tree_fuel_def)
    from node_to_json_refines[OF h'(2) this, of utf8] have
      j: "node_to_json utf8 (tree_fuel h') h' (root_of t) = Some (json_of utf8 h' ?t)" by simp
    have "mset (json_names (json_of utf8 h' ?t)) = image_mset (?name h') (mset (addrs ?t))"
      using ok by (subst json_names_json_of) simp_all
    also have "\<dots> = add_mset ''__current_state__'' (image_mset (?name h') (mset (addrs t)))"
      using ids(2) by (simp add: ms or_empty_def)
    also have "image_mset (?name h') (mset (addrs t)) = image_mset (?name h) (mset (addrs t))"
      by (rule image_mset_cong) (simp add: old)
    finally show ?thesis using h'(1) j c(3,4) by (intro exI[of _ h'] exI[of _ "json_of utf8 h' ?t"]) auto
  qed
qed

text \<open>The tree that the libvirt backend hands out, by the names in libvirt's list.\<close>

lemma listed_tree:
  assumes "lv_good api W s" "lv_lookup_domain api vm s"
    and "api_list_snapshots api (lv_world s) vm = Some names" "names \<noteq> []"
  shows "\<exists>t h. lv_list_snapshots api vm s = Some (Some (root_of t), h) \<and> holds h t \<and> heap_ok h \<and>
    distinct (addrs t) \<and> length (addrs t) = length names \<and> length h = length names \<and>
    mset (map (\<lambda>i. or_empty (node_id (h ! i))) (addrs t)) = mset names \<and>
    ((\<exists>i\<in>set (addrs t). is_current (h ! i)) \<longleftrightarrow>
      (\<exists>n\<in>set names. api_current_snapshot api (lv_world s) vm = Some n))"
proof -
  let ?cur = "api_current_snapshot api (lv_world s) vm"
  from assms(1) obtain rank where
    "ranked (map (\<lambda>n. (n, api_snapshot_xml api (lv_world s) vm n)) names) rank"
    using assms(3) unfolding lv_good_def lawful_def lists_trees_def in_worlds_def by blast
  from lv_tree_facts[OF assms(2-4) this] obtain t h where
    l: "lv_list_snapshots api vm s = Some (Some (root_of t), h)" and
    t: "holds h t" "heap_ok h" "distinct (addrs t)" "set (addrs t) = {..<length names}" and
    ids: "map node_id h = map Some names" and cur: "map is_current h = map (\<lambda>n. ?cur = Some n) names"
    by blast
  have len: "length h = length names" using arg_cong[OF ids, of length] by simp
  have id: "node_id (h ! i) = Some (names ! i)" "is_current (h ! i) = (?cur = Some (names ! i))"
    if "i < length names" for i
    using arg_cong[OF ids, of "\<lambda>xs. xs ! i"] arg_cong[OF cur, of "\<lambda>xs. xs ! i"] that len by simp_all
  have m: "mset (addrs t) = mset [0..<length names]"
    using t(3,4) by (intro set_eq_iff_mset_eq_distinct[THEN iffD1]) (auto simp: atLeast0LessThan)
  have "image_mset (\<lambda>i. or_empty (node_id (h ! i))) (mset (addrs t)) =
      image_mset ((!) names) (mset [0..<length names])"
    unfolding m by (rule image_mset_cong) (auto simp: id or_empty_def)
  also have "\<dots> = mset (map ((!) names) [0..<length names])" by (simp only: mset_map)
  also have "map ((!) names) [0..<length names] = names" by (rule map_nth)
  finally have "mset (map (\<lambda>i. or_empty (node_id (h ! i))) (addrs t)) = mset names" by simp
  moreover have "(\<exists>i\<in>set (addrs t). is_current (h ! i)) \<longleftrightarrow> (\<exists>n\<in>set names. ?cur = Some n)"
    using id(2) by (auto simp: t(4) in_set_conv_nth)
  moreover have "length (addrs t) = length names" using distinct_card[OF t(3)] t(4) by simp
  ultimately show ?thesis using l t len by blast
qed

text \<open>C2: the page gets every snapshot, and the current state once. When libvirt keeps its documented
  laws and lists between 1 and 256 snapshots with valid names for a known machine, the answer
  to the tree request is the printed form of a document whose names are exactly the listed ones,
  each as often as it is listed, and, if one of them is current and the machine is in libvirt's
  list, one node for the current state.\<close>

theorem served_tree:
  fixes a :: "'w lv_state app" and names vm
  assumes "re_backend env = Some (libvirt_be api)" "lv_good api W (app_sys a)"
    and "lv_lookup_domain api vm (app_sys a)"
    and "api_list_snapshots api (lv_world (app_sys a)) vm = Some names" "names \<noteq> []" "length names \<le> 256"
    and "\<forall>n\<in>set (''__current_state__'' # names). re_utf8 env n" "\<forall>j. re_dumps env j \<noteq> None"
  defines "cur \<equiv> api_current_snapshot api (lv_world (app_sys a)) vm"
    and "known \<equiv> Option.bind (lv_list_vms api (app_sys a)) (find_vm vm) \<noteq> None"
  shows "\<exists>j doc a1. run_route env rq body (R_snapshot_tree vm) a = Some (send_json MHD_HTTP_OK doc, a1) \<and>
    re_dumps env j = Some doc \<and>
    mset (json_names j) =
      mset names + (if known \<and> (\<exists>n\<in>set names. cur = Some n) then {#''__current_state__''#} else {#})"
proof -
  from listed_tree[OF assms(2-5)] obtain t h where
    l: "lv_list_snapshots api vm (app_sys a) = Some (Some (root_of t), h)" and
    t: "holds h t" "heap_ok h" "distinct (addrs t)" and
    len: "length (addrs t) = length names" "length h = length names" and
    ms: "mset (map (\<lambda>i. or_empty (node_id (h ! i))) (addrs t)) = mset names" and
    anycur: "(\<exists>i\<in>set (addrs t). is_current (h ! i)) \<longleftrightarrow> (\<exists>n\<in>set names. cur = Some n)"
    unfolding cur_def by blast
  from ms have "set (map (\<lambda>i. or_empty (node_id (h ! i))) (addrs t)) = set names" by (metis set_mset_mset)
  then have valid: "\<forall>i\<in>set (addrs t). re_utf8 env (or_empty (node_id (h ! i)))"
    using assms(7) by auto
  have size: "length (addrs t) \<le> 256" "length (addrs t) \<le> tree_fuel h"
    using assms(6) len by (simp_all add: tree_fuel_def)
  have kn: "listed_state (libvirt_be api) vm (app_sys a) \<noteq> None \<longleftrightarrow> known"
    by (simp add: known_def listed_state_def libvirt_be_def)
  have ls: "fst (be_list_snapshots (libvirt_be api) vm (app_sys a)) = Some (Some (root_of t), h)"
    by (simp add: libvirt_be_def l)
  show ?thesis
  proof (cases "listed_state (libvirt_be api) vm (app_sys a)")
    case None
    have "height t \<le> tree_fuel h" using size(2) height_le_length_addrs[of t] by simp
    from node_to_json_refines[OF t(1) this, of "re_utf8 env"] have
      j: "node_to_json (re_utf8 env) (tree_fuel h) h (root_of t) = Some (json_of (re_utf8 env) h t)" .
    obtain doc where doc: "re_dumps env (json_of (re_utf8 env) h t) = Some doc" using assms(8) by blast
    with None assms(1) ls j have "run_route env rq body (R_snapshot_tree vm) a = Some (send_json MHD_HTTP_OK doc, a)"
      by (simp add: handle_snapshot_tree_def lv.on_list_snapshots lv.lookup_reads snapshot_tree_to_json_def)
    with doc kn None ms valid show ?thesis
      by (intro exI[of _ "json_of (re_utf8 env) h t"]) (simp add: json_names_json_of)
  next
    case (Some v)
    obtain d a3 where d: "vm_is_dirty env vm v a = (d, a3)" by fastforce
    from names_with_current_state[OF t(1-3) size valid, of "vm_state_str v" d] assms(7) obtain h' j where
      j: "snapshot_tree_add_current_state (tree_fuel h) h (root_of t) (vm_state_str v) d = Some h'"
        "node_to_json (re_utf8 env) (tree_fuel h') h' (root_of t) = Some j"
        "mset (json_names j) = mset (map (\<lambda>i. or_empty (node_id (h ! i))) (addrs t)) +
           (if \<exists>i\<in>set (addrs t). is_current (h ! i) then {#''__current_state__''#} else {#})" by auto
    obtain doc where doc: "re_dumps env j = Some doc" using assms(8) by blast
    with Some assms(1) ls j d have
      "run_route env rq body (R_snapshot_tree vm) a = Some (send_json MHD_HTTP_OK doc, a3)"
      by (simp add: handle_snapshot_tree_def lv.on_list_snapshots lv.lookup_reads snapshot_tree_to_json_def)
    with doc kn Some j(3) ms anycur show ?thesis
      by (intro exI[of _ j] exI[of _ doc] exI[of _ a3]) auto
  qed
qed

theorem served_tree_witness:
  "\<exists>j doc a1. run_route (demo_lv_env demo_api) demo_rq None (R_snapshot_tree ''vm'') demo_lv_app =
      Some (send_json MHD_HTTP_OK doc, a1) \<and>
    mset (json_names j) = {#''work'', ''base'', ''old'', ''__current_state__''#}"
proof -
  have be: "re_backend (demo_lv_env demo_api) = Some (libvirt_be demo_api)"
    by (simp add: demo_lv_env_def)
  have good: "lv_good demo_api UNIV (app_sys demo_lv_app)"
    by (simp add: lv_good_def demo_lawful in_worlds_def keeps_def)
  have sys: "app_sys demo_lv_app = demo_lv" by (simp add: demo_lv_app_def)
  have api: "lv_lookup_domain demo_api ''vm'' (app_sys demo_lv_app)"
    "api_list_snapshots demo_api (lv_world (app_sys demo_lv_app)) ''vm'' = Some [''work'', ''base'', ''old'']"
    "api_current_snapshot demo_api (lv_world (app_sys demo_lv_app)) ''vm'' = Some ''work''"
    by (simp_all add: demo_api_def demo_lv_app_def demo_lv_def lv_lookup_domain_def)
  have known: "Option.bind (lv_list_vms demo_api (app_sys demo_lv_app)) (find_vm ''vm'') \<noteq> None"
    by (simp add: sys listed_demo find_vm_def)
  have env: "\<forall>n\<in>set [''__current_state__'', ''work'', ''base'', ''old'']. re_utf8 (demo_lv_env demo_api) n"
    "\<forall>j. re_dumps (demo_lv_env demo_api) j \<noteq> None" by (simp_all add: demo_lv_env_def)
  from served_tree[OF be good api(1,2) _ _ env, where rq = demo_rq and body = None] known
  show ?thesis unfolding api(3) by (auto simp: add_mset_commute)
qed

end
